(* ===== verification/Go_Prelude.thy ===== *)
theory Go_Prelude
  imports
    Main
    "HOL-Library.Word"
    "HOL-Library.State_Monad"
    "HOL-Library.Sublist"
begin

text \<open>
  The vocabulary every component of the development shares: the types of the Go values the
  driver handles, Go errors and gRPC status errors as values, the \<^verbatim>\<open>strings\<close> and
  \<^verbatim>\<open>strconv\<close> functions the sources call, lookup in Go maps, and the automation (named
  theorem collections and simplification rules) that the component proofs rest on.

  A Go \<^verbatim>\<open>string\<close> is a sequence of bytes, and so is \<^typ>\<open>string\<close> here (one
  \<^typ>\<open>char\<close> per byte). Fixed-width integers are words.
\<close>

section \<open>Types\<close>

type_synonym int32 = "32 word"
type_synonym uint32 = "32 word"
type_synonym int64 = "64 word"
type_synonym uint64 = "64 word"

text \<open>
  A Go map with string keys is an association list with distinct keys. Go's iteration order is
  unspecified, so no definition may depend on the order of the list beyond what the source's
  own loop over the map does.
\<close>

type_synonym 'v go_map = "(string \<times> 'v) list"

text \<open>Code over the outside world is a state transformer on it.\<close>

type_synonym ('w, 'a) action = "('w, 'a) state"

named_theorems go_defs \<open>definitions of the pure helpers, unfolded during evaluation\<close>
named_theorems run_simps \<open>what running an operation on a state gives\<close>
named_theorems invar_intros \<open>every operation keeps the invariant of its component\<close>

section \<open>Running code\<close>

text \<open>Evaluation of the do-notation on a state, shared by every component over a world.\<close>

lemma run_simps_state [simp]:
  "run_state (State_Monad.return a) w = (a, w)"
  "run_state (State_Monad.bind m f) w = (let (a, w') = run_state m w in run_state (f a) w')"
  by (simp_all add: State_Monad.return_def State_Monad.bind_def)

section \<open>Errors\<close>

text \<open>The gRPC status codes the driver's own code returns.\<close>

datatype grpc_code =
    InvalidArgument
  | Internal
  | Unavailable
  | Unimplemented

fun code_name :: "grpc_code \<Rightarrow> string" where
  "code_name InvalidArgument = ''InvalidArgument''"
| "code_name Internal = ''Internal''"
| "code_name Unavailable = ''Unavailable''"
| "code_name Unimplemented = ''Unimplemented''"

text \<open>
  An error value: one of the package-level error variables (compared by identity), an error made
  by \<^verbatim>\<open>fmt.Errorf\<close> without and with \<^verbatim>\<open>%w\<close>, a gRPC status error, or an error that
  the standard library or another package returned, of which the driver looks at the text and at
  whether \<^verbatim>\<open>os.IsNotExist\<close> holds of it.
\<close>

datatype go_error =
    ErrVar string
  | Errorf string
  | Wrapf string go_error
  | Status grpc_code string
  | LibErr (not_exist: bool) string

text \<open>\<open>err.Error()\<close>: the text of an error.\<close>

fun Error :: "go_error \<Rightarrow> string" where
  "Error (ErrVar m) = m"
| "Error (Errorf m) = m"
| "Error (Wrapf m e) = m @ Error e"
| "Error (Status c m) = ''rpc error: code = '' @ code_name c @ '' desc = '' @ m"
| "Error (LibErr b m) = m"

text \<open>\<open>errors.Is(err, target)\<close> for a package-level \<open>target\<close>: the chain of \<open>%w\<close> is followed.\<close>

fun errors_Is :: "go_error \<Rightarrow> go_error \<Rightarrow> bool" where
  "errors_Is (Wrapf m e) t \<longleftrightarrow> Wrapf m e = t \<or> errors_Is e t"
| "errors_Is e t \<longleftrightarrow> e = t"

text \<open>\<open>os.IsNotExist(err)\<close>: false for a nil error, and it does not look through \<open>%w\<close>.\<close>

fun os_IsNotExist :: "go_error option \<Rightarrow> bool" where
  "os_IsNotExist (Some (LibErr b m)) = b"
| "os_IsNotExist _ = False"

text \<open>The result of a call that returns a value or an error.\<close>

type_synonym 'a res = "go_error + 'a"

lemma map_sum_eq_Inr: "map_sum f g x = Inr y \<longleftrightarrow> (\<exists>z. x = Inr z \<and> y = g z)"
  by (cases x) auto

section \<open>The \<open>strings\<close> package\<close>

definition HasPrefix :: "string \<Rightarrow> string \<Rightarrow> bool" where
  "HasPrefix s p = (take (length p) s = p)"

fun Contains :: "string \<Rightarrow> string \<Rightarrow> bool" where
  "Contains [] sub = (sub = [])"
| "Contains (c # s) sub = (HasPrefix (c # s) sub \<or> Contains s sub)"

definition TrimPrefix :: "string \<Rightarrow> string \<Rightarrow> string" where
  "TrimPrefix s p = (if HasPrefix s p then drop (length p) s else s)"

text \<open>
  \<open>strings.ToLower\<close>. Apart from the letters \<open>A\<close> to \<open>Z\<close> only two code points have a
  lower case that is ASCII: U+212A (bytes E2 84 AA) gives \<open>k\<close> and U+0130 (bytes C4 B0) gives
  \<open>i\<close>. Every other byte above 7F is left as it is: the driver looks for ASCII text in lower-cased
  text, and for that it does not matter which other non-ASCII character stands there. (The one
  lower-cased text that is passed on is the transport of an initiator, where a name outside ASCII
  would reach the command as it is.)
\<close>

definition lower_byte :: "char \<Rightarrow> char" where
  "lower_byte c = (let n = of_char c :: nat in if 65 \<le> n \<and> n \<le> 90 then char_of (n + 32) else c)"

fun ToLower :: "string \<Rightarrow> string" where
  "ToLower [] = []"
| "ToLower (c # s) =
     (if HasPrefix (c # s) [CHR 0xE2, CHR 0x84, CHR 0xAA] then CHR ''k'' # ToLower (drop 2 s)
      else if HasPrefix (c # s) [CHR 0xC4, CHR 0xB0] then CHR ''i'' # ToLower (drop 1 s)
      else lower_byte c # ToLower s)"

text \<open>\<open>strings.SplitN(s, sep, 2)\<close> for a separator that is not empty: the parts, one or two.\<close>

fun split_at :: "string \<Rightarrow> string \<Rightarrow> (string \<times> string) option" where
  "split_at [] sep = None"
| "split_at (c # s) sep =
     (if HasPrefix (c # s) sep then Some ([], drop (length sep) (c # s))
      else map_option (\<lambda>(a, b). (c # a, b)) (split_at s sep))"

definition SplitN2 :: "string \<Rightarrow> string \<Rightarrow> string list" where
  "SplitN2 s sep = (case split_at s sep of None \<Rightarrow> [s] | Some (a, b) \<Rightarrow> [a, b])"

text \<open>
  \<open>strings.TrimSpace\<close>: the code points of \<^verbatim>\<open>unicode.IsSpace\<close>, as they are encoded, are taken off at
  both ends. Outside ASCII they are U+0085, U+00A0, U+1680, U+2000 to U+200A, U+2028, U+2029, U+202F,
  U+205F and U+3000.
\<close>

definition white_space :: "string list" where
  "white_space =
     [[CHR 0x09], [CHR 0x0A], [CHR 0x0B], [CHR 0x0C], [CHR 0x0D], [CHR 0x20],
      [CHR 0xC2, CHR 0x85], [CHR 0xC2, CHR 0xA0], [CHR 0xE1, CHR 0x9A, CHR 0x80],
      [CHR 0xE2, CHR 0x80, CHR 0x80], [CHR 0xE2, CHR 0x80, CHR 0x81], [CHR 0xE2, CHR 0x80, CHR 0x82],
      [CHR 0xE2, CHR 0x80, CHR 0x83], [CHR 0xE2, CHR 0x80, CHR 0x84], [CHR 0xE2, CHR 0x80, CHR 0x85],
      [CHR 0xE2, CHR 0x80, CHR 0x86], [CHR 0xE2, CHR 0x80, CHR 0x87], [CHR 0xE2, CHR 0x80, CHR 0x88],
      [CHR 0xE2, CHR 0x80, CHR 0x89], [CHR 0xE2, CHR 0x80, CHR 0x8A], [CHR 0xE2, CHR 0x80, CHR 0xA8],
      [CHR 0xE2, CHR 0x80, CHR 0xA9], [CHR 0xE2, CHR 0x80, CHR 0xAF], [CHR 0xE2, CHR 0x81, CHR 0x9F],
      [CHR 0xE3, CHR 0x80, CHR 0x80]]"

text \<open>Takes words of a list off the front as long as one is there; none of them is empty.\<close>

function trim_front :: "string list \<Rightarrow> string \<Rightarrow> string" where
  "trim_front ws s = (case find (\<lambda>w. w \<noteq> [] \<and> HasPrefix s w) ws of
      None \<Rightarrow> s
    | Some w \<Rightarrow> trim_front ws (drop (length w) s))"
  by pat_completeness auto
termination
proof (relation "measure (\<lambda>(ws, s). length s)")
  fix ws s w assume "find (\<lambda>w. w \<noteq> [] \<and> HasPrefix s w) ws = Some w"
  then have "w \<noteq> []" "take (length w) s = w" by (auto simp: HasPrefix_def find_Some_iff)
  then have "s \<noteq> []" by auto
  with \<open>w \<noteq> []\<close> show "((ws, drop (length w) s), ws, s) \<in> measure (\<lambda>(ws, s). length s)" by simp
qed simp

declare trim_front.simps [simp del]

definition TrimSpace :: "string \<Rightarrow> string" where
  "TrimSpace s = rev (trim_front (map rev white_space) (rev (trim_front white_space s)))"

lemmas [go_defs] = HasPrefix_def TrimPrefix_def lower_byte_def SplitN2_def TrimSpace_def

lemma HasPrefix_iff: "HasPrefix s p \<longleftrightarrow> (\<exists>t. s = p @ t)"
  by (metis HasPrefix_def append_eq_conv_conj append_take_drop_id)

lemma HasPrefix_append [simp, intro]: "HasPrefix (p @ t) p"
  by (simp add: HasPrefix_def)

lemma HasPrefix_Nil [simp]: "HasPrefix s []"
  by (simp add: HasPrefix_def)

lemma Contains_iff: "Contains s sub \<longleftrightarrow> (\<exists>a b. s = a @ sub @ b)"
proof (induction s)
  case Nil
  show ?case by auto
next
  case (Cons c s)
  have "(\<exists>a b. c # s = a @ sub @ b) \<longleftrightarrow> (\<exists>b. c # s = sub @ b) \<or> (\<exists>a b. s = a @ sub @ b)"
    by (metis append_Nil append_eq_Cons_conv)
  then show ?case by (simp add: Cons.IH HasPrefix_iff)
qed

lemma Contains_middle [intro]: "Contains (a @ sub @ b) sub"
  by (auto simp: Contains_iff)

lemma split_at_SomeD: "split_at s sep = Some (a, b) \<Longrightarrow> s = a @ sep @ b"
  by (induction s sep arbitrary: a b rule: split_at.induct)
     (auto simp: HasPrefix_iff split: if_splits)

lemma split_at_None: "sep \<noteq> [] \<Longrightarrow> split_at s sep = None \<longleftrightarrow> \<not> Contains s sep"
  by (induction s sep rule: split_at.induct) auto

section \<open>The \<open>strconv\<close> package: decimal numbers\<close>

definition digit_char :: "nat \<Rightarrow> char" where
  "digit_char d = char_of (48 + d)"

definition is_digit :: "char \<Rightarrow> bool" where
  "is_digit c = (let n = of_char c :: nat in 48 \<le> n \<and> n \<le> 57)"

definition digit_val :: "char \<Rightarrow> nat" where
  "digit_val c = of_char c - 48"

fun dec_of_nat :: "nat \<Rightarrow> string" where
  "dec_of_nat n = (if n < 10 then [digit_char n] else dec_of_nat (n div 10) @ [digit_char (n mod 10)])"

declare dec_of_nat.simps [simp del]

definition nat_of_dec :: "string \<Rightarrow> nat" where
  "nat_of_dec s = foldl (\<lambda>n c. 10 * n + digit_val c) 0 s"

text \<open>\<open>strconv.FormatInt(i, 10)\<close>, which is also how \<open>%d\<close> prints.\<close>

definition FormatInt :: "int \<Rightarrow> string" where
  "FormatInt i = (if i < 0 then CHR ''-'' # dec_of_nat (nat (- i)) else dec_of_nat (nat i))"

lemma digit_char_props [simp]:
  assumes "d < 10"
  shows "is_digit (digit_char d)" and "digit_val (digit_char d) = d"
  using assms by (simp_all add: is_digit_def digit_char_def digit_val_def)

lemma dec_of_nat_not_Nil [simp]: "dec_of_nat n \<noteq> []"
  by (subst dec_of_nat.simps) simp

lemma dec_of_nat_digits: "list_all is_digit (dec_of_nat n)"
proof (induction n rule: dec_of_nat.induct)
  case (1 n)
  then show ?case by (subst dec_of_nat.simps) auto
qed

lemma nat_of_dec_append [simp]: "nat_of_dec (s @ [c]) = 10 * nat_of_dec s + digit_val c"
  by (simp add: nat_of_dec_def)

lemma nat_of_dec_of_nat [simp]: "nat_of_dec (dec_of_nat n) = n"
proof (induction n rule: dec_of_nat.induct)
  case (1 n)
  show ?case
  proof (cases "n < 10")
    case True
    then show ?thesis by (subst dec_of_nat.simps) (simp add: nat_of_dec_def)
  next
    case False
    with 1 show ?thesis by (subst dec_of_nat.simps) simp
  qed
qed

text \<open>No leading zero: the first digit of a number above 0 is not 0.\<close>

lemma hd_dec_of_nat: "0 < n \<Longrightarrow> hd (dec_of_nat n) \<noteq> CHR ''0''"
proof (induction n rule: dec_of_nat.induct)
  case (1 n)
  show ?case
  proof (cases "n < 10")
    case True
    with "1.prems" have "digit_val (digit_char n) \<noteq> digit_val (CHR ''0'')"
      by (simp add: digit_val_def [of "CHR ''0''"])
    then have "digit_char n \<noteq> CHR ''0''" by metis
    with True show ?thesis by (subst dec_of_nat.simps) simp
  next
    case False
    then have "0 < n div 10" by simp
    with False 1 show ?thesis by (subst dec_of_nat.simps) simp
  qed
qed

section \<open>Go maps\<close>

text \<open>
  \<open>m[k]\<close> on a map of strings gives the empty string for a missing key, and reading a nil map
  is allowed: \<open>None\<close> is the nil map.
\<close>

definition go_index :: "string go_map \<Rightarrow> string \<Rightarrow> string" where
  "go_index m k = (case map_of m k of None \<Rightarrow> [] | Some v \<Rightarrow> v)"

definition go_index_nil :: "string go_map option \<Rightarrow> string \<Rightarrow> string" where
  "go_index_nil m k = (case m of None \<Rightarrow> [] | Some m' \<Rightarrow> go_index m' k)"

lemma go_index_simps [simp]:
  "go_index [] k = []" "go_index ((k', v) # m) k = (if k = k' then v else go_index m k)"
  "go_index_nil (Some m) k = go_index m k" "go_index_nil None k = []"
  by (simp_all add: go_index_def go_index_nil_def)

text \<open>\<open>m[k] = v\<close>.\<close>

fun go_store :: "string \<Rightarrow> 'v \<Rightarrow> 'v go_map \<Rightarrow> 'v go_map" where
  "go_store k v [] = [(k, v)]"
| "go_store k v ((k', v') # m) = (if k = k' then (k, v) # m else (k', v') # go_store k v m)"

text \<open>\<open>for k, v := range src { dst[k] = v }\<close>.\<close>

definition go_copy :: "'v go_map \<Rightarrow> 'v go_map \<Rightarrow> 'v go_map" where
  "go_copy src dst = fold (\<lambda>(k, v). go_store k v) src dst"

lemmas [go_defs] = go_index_def go_index_nil_def go_copy_def

definition go_map_ok :: "'v go_map \<Rightarrow> bool" where
  "go_map_ok m = distinct (map fst m)"

lemma map_of_go_store [simp]: "map_of (go_store k v m) = (map_of m)(k \<mapsto> v)"
  by (induction k v m rule: go_store.induct) auto

lemma fst_set_go_store [simp]: "fst ` set (go_store k v m) = insert k (fst ` set m)"
  by (induction k v m rule: go_store.induct) auto

lemma go_store_ok [invar_intros]: "go_map_ok m \<Longrightarrow> go_map_ok (go_store k v m)"
  by (induction k v m rule: go_store.induct)
     (auto simp: go_map_ok_def simp flip: set_map, metis fst_set_go_store insertE list.set_map)

lemma map_of_go_copy: "go_map_ok src \<Longrightarrow> map_of (go_copy src dst) = map_of dst ++ map_of src"
proof (induction src arbitrary: dst)
  case Nil
  show ?case by (simp add: go_copy_def)
next
  case (Cons kv src)
  obtain k v where kv: "kv = (k, v)" by (cases kv)
  from Cons.prems kv have fresh: "map_of src k = None" and ok: "go_map_ok src"
    by (auto simp: go_map_ok_def map_of_eq_None_iff)
  have "map_of (go_copy (kv # src) dst) = (map_of dst)(k \<mapsto> v) ++ map_of src"
    using Cons.IH [OF ok, of "go_store k v dst"] by (simp add: go_copy_def kv fun_upd_def)
  also have "\<dots> = map_of dst ++ map_of (kv # src)"
    using fresh by (auto simp: kv fun_eq_iff map_add_def split: option.split)
  finally show ?case .
qed

lemma go_copy_ok [invar_intros]: "go_map_ok dst \<Longrightarrow> go_map_ok (go_copy src dst)"
  by (induction src arbitrary: dst) (auto simp: go_copy_def intro: invar_intros)

lemma fst_set_go_copy: "fst ` set (go_copy src dst) = fst ` set dst \<union> fst ` set src"
  by (induction src arbitrary: dst) (auto simp: go_copy_def case_prod_beta)

text \<open>Storing under a new key appends, so copying a map into an empty one gives it back.\<close>

lemma go_store_fresh: "k \<notin> fst ` set m \<Longrightarrow> go_store k v m = m @ [(k, v)]"
  by (induction k v m rule: go_store.induct) auto

lemma go_copy_append: "distinct (map fst (dst @ src)) \<Longrightarrow> go_copy src dst = dst @ src"
proof (induction src arbitrary: dst)
  case (Cons kv src)
  then have "go_store (fst kv) (snd kv) dst = dst @ [kv]" by (intro trans [OF go_store_fresh]) auto
  moreover have "go_copy src (dst @ [kv]) = (dst @ [kv]) @ src" using Cons by (intro Cons.IH) simp
  ultimately show ?case by (simp add: go_copy_def case_prod_beta)
qed (simp add: go_copy_def)

lemma go_copy_Nil: "go_map_ok m \<Longrightarrow> go_copy m [] = m"
  by (simp add: go_copy_append go_map_ok_def)

section \<open>Codecs: an encoder with a decoder that undoes it\<close>

text \<open>
  The contract the driver's encodings share: on the values that satisfy \<open>wf\<close> the decoder
  returns what was encoded. Encodings of different values therefore differ.
\<close>

locale codec =
  fixes wf :: "'a \<Rightarrow> bool"
    and enc :: "'a \<Rightarrow> 'b"
    and dec :: "'b \<Rightarrow> 'a option"
  assumes dec_enc: "wf x \<Longrightarrow> dec (enc x) = Some x"
begin

lemma enc_inj: "wf x \<Longrightarrow> wf y \<Longrightarrow> enc x = enc y \<Longrightarrow> x = y"
  using dec_enc by (metis option.inject)

lemma enc_inj_on: "inj_on enc {x. wf x}"
  by (auto intro: inj_onI enc_inj)

end

text \<open>Two codecs in a row are a codec.\<close>

locale codec_seq =
  first: codec wf1 enc1 dec1 + second: codec wf2 enc2 dec2
  for wf1 :: "'a \<Rightarrow> bool" and enc1 :: "'a \<Rightarrow> 'b" and dec1 :: "'b \<Rightarrow> 'a option"
    and wf2 :: "'b \<Rightarrow> bool" and enc2 :: "'b \<Rightarrow> 'c" and dec2 :: "'c \<Rightarrow> 'b option" +
  assumes wf2_enc1: "wf1 x \<Longrightarrow> wf2 (enc1 x)"
begin

lemma seq_dec_enc: "wf1 x \<Longrightarrow> Option.bind (dec2 (enc2 (enc1 x))) dec1 = Some x"
  by (simp add: first.dec_enc second.dec_enc wf2_enc1)

end

section \<open>Reachable states and invariants\<close>

inductive reachable :: "('s \<Rightarrow> bool) \<Rightarrow> ('s \<Rightarrow> 's \<Rightarrow> bool) \<Rightarrow> 's \<Rightarrow> bool"
  for init :: "'s \<Rightarrow> bool" and step :: "'s \<Rightarrow> 's \<Rightarrow> bool" where
  reach_init: "init s \<Longrightarrow> reachable init step s"
| reach_step: "reachable init step s \<Longrightarrow> step s t \<Longrightarrow> reachable init step t"

text \<open>A property that holds at the start and that every step keeps holds in every reachable state.\<close>

locale inductive_invariant =
  fixes init :: "'s \<Rightarrow> bool" and step :: "'s \<Rightarrow> 's \<Rightarrow> bool" and inv :: "'s \<Rightarrow> bool"
  assumes inv_init: "init s \<Longrightarrow> inv s"
    and inv_step: "inv s \<Longrightarrow> step s t \<Longrightarrow> inv t"
begin

lemma reachable_inv: "reachable init step s \<Longrightarrow> inv s"
  by (induction rule: reachable.induct) (auto intro: inv_init inv_step)

end

text \<open>
  A system implements a specification when every step of it, from a state that has the invariant, is
  matched by at most one step of the specification.
\<close>

locale simulation = inductive_invariant init step inv
  for init :: "'s \<Rightarrow> bool" and step :: "'s \<Rightarrow> 's \<Rightarrow> bool" and inv :: "'s \<Rightarrow> bool" +
  fixes spec_init :: "'a \<Rightarrow> bool" and spec_step :: "'a \<Rightarrow> 'a \<Rightarrow> bool" and sim :: "'s \<Rightarrow> 'a \<Rightarrow> bool"
  assumes sim_init: "init s \<Longrightarrow> \<exists>a. spec_init a \<and> sim s a"
    and sim_step: "inv s \<Longrightarrow> step s t \<Longrightarrow> sim s a \<Longrightarrow> \<exists>b. spec_step\<^sup>=\<^sup>= a b \<and> sim t b"
begin

lemma reachable_sim: "reachable init step s \<Longrightarrow> \<exists>a. reachable spec_init spec_step a \<and> sim s a"
proof (induction rule: reachable.induct)
  case (reach_init s)
  with sim_init show ?case by (blast intro: reachable.reach_init)
next
  case (reach_step s t)
  with sim_step [OF reachable_inv] show ?case by (blast intro: reachable.reach_step)
qed

end

end
