(* ===== verification/Volume_Locks.thy ===== *)
theory Volume_Locks
  imports Go_Prelude
begin

text \<open>
  The locks of the driver: \<^verbatim>\<open>VolumeLocks\<close> (\<^verbatim>\<open>pkg/util/idlocker.go\<close>), a
  \<^verbatim>\<open>sync.Map\<close> from volume IDs to mutexes, and \<^verbatim>\<open>TryLock\<close>
  (\<^verbatim>\<open>pkg/util/util.go\<close>). The operations are functions on the lock table; the interleavings
  of any number of goroutines that call \<^verbatim>\<open>Lock\<close> and the closure it returns are a step
  relation, whose steps are the atomic actions of \<^verbatim>\<open>Lock\<close>: the \<^verbatim>\<open>LoadOrStore\<close>,
  the acquisition of the mutex, and its release.
\<close>

section \<open>The lock table\<close>

text \<open>
  \<open>mutexes\<close> is the \<^verbatim>\<open>sync.Map\<close>, with mutexes named by address; \<open>mlocked\<close> the state of
  each mutex; \<open>mfresh\<close> the next address \<^verbatim>\<open>&sync.Mutex{}\<close> is allocated at.
\<close>

record VolumeLocks =
  mutexes :: "string \<rightharpoonup> nat"
  mlocked :: "nat \<Rightarrow> bool"
  mfresh :: nat

definition NewVolumeLocks :: VolumeLocks where
  "NewVolumeLocks = \<lparr>mutexes = Map.empty, mlocked = (\<lambda>_. False), mfresh = 0\<rparr>"

text \<open>\<open>vl.mutexes.LoadOrStore(volumeID, &sync.Mutex{})\<close>: the mutex of the volume.\<close>

definition LoadOrStore :: "string \<Rightarrow> VolumeLocks \<Rightarrow> nat \<times> VolumeLocks" where
  "LoadOrStore volumeID vl =
     (let m = mfresh vl; vl' = vl\<lparr>mfresh := Suc m, mlocked := (mlocked vl)(m := False)\<rparr>
      in case mutexes vl volumeID of
           Some a \<Rightarrow> (a, vl')
         | None \<Rightarrow> (m, vl'\<lparr>mutexes := (mutexes vl)(volumeID \<mapsto> m)\<rparr>))"

text \<open>\<open>mtx.Lock()\<close>: \<open>None\<close> while another goroutine holds the mutex, which is when it waits.\<close>

definition mtx_Lock :: "nat \<Rightarrow> VolumeLocks \<Rightarrow> VolumeLocks option" where
  "mtx_Lock a vl = (if mlocked vl a then None else Some (vl\<lparr>mlocked := (mlocked vl)(a := True)\<rparr>))"

text \<open>\<open>mtx.Unlock()\<close>: \<open>None\<close> is the fatal error of unlocking a mutex that is not locked.\<close>

definition mtx_Unlock :: "nat \<Rightarrow> VolumeLocks \<Rightarrow> VolumeLocks option" where
  "mtx_Unlock a vl = (if mlocked vl a then Some (vl\<lparr>mlocked := (mlocked vl)(a := False)\<rparr>) else None)"

text \<open>
  \<open>vl.Lock(volumeID)\<close>. The closure it returns unlocks the mutex it captured, so it is represented by
  the address of that mutex.
\<close>

definition Lock :: "string \<Rightarrow> VolumeLocks \<Rightarrow> (nat \<times> VolumeLocks) option" where
  "Lock volumeID vl =
     (let (mtx, vl') = LoadOrStore volumeID vl in map_option (\<lambda>vl''. (mtx, vl'')) (mtx_Lock mtx vl'))"

lemmas lock_defs = NewVolumeLocks_def LoadOrStore_def mtx_Lock_def mtx_Unlock_def Lock_def

section \<open>The contract of a lock manager\<close>

text \<open>
  What a handler relies on: a free lock can be taken, taking it changes no other lock, and
  releasing it gives the state of all locks back.
\<close>

locale lock_manager =
  fixes lock :: "'id \<Rightarrow> 'st \<Rightarrow> ('h \<times> 'st) option"
    and unlock :: "'h \<Rightarrow> 'st \<Rightarrow> 'st option"
    and free :: "'st \<Rightarrow> 'id \<Rightarrow> bool"
    and inv :: "'st \<Rightarrow> bool"
  assumes lock_free: "inv st \<Longrightarrow> free st i \<Longrightarrow> lock i st \<noteq> None"
    and lock_held: "inv st \<Longrightarrow> \<not> free st i \<Longrightarrow> lock i st = None"
    and lock_inv: "inv st \<Longrightarrow> lock i st = Some (h, st') \<Longrightarrow> inv st'"
    and lock_effect: "inv st \<Longrightarrow> lock i st = Some (h, st') \<Longrightarrow> free st' j \<longleftrightarrow> j \<noteq> i \<and> free st j"
    and unlock_lock: "inv st \<Longrightarrow> lock i st = Some (h, st') \<Longrightarrow>
      \<exists>st''. unlock h st' = Some st'' \<and> inv st'' \<and> (\<forall>j. free st'' j = free st j)"
begin

text \<open>Lock, then unlock: possible from every state in which the lock is free, with no net effect.\<close>

lemma bracket:
  assumes "inv st" "free st i"
  obtains h st' st'' where "lock i st = Some (h, st')" "\<not> free st' i" "unlock h st' = Some st''"
    "inv st''" "free st'' = free st"
proof -
  from lock_free [OF assms] obtain h st' where l: "lock i st = Some (h, st')" by auto
  from unlock_lock [OF assms(1) l] obtain st'' where "unlock h st' = Some st''" "inv st''" "free st'' = free st"
    by blast
  with l lock_effect [OF assms(1) l, of i] that show ?thesis by blast
qed

text \<open>Holding one lock does not keep another from being taken.\<close>

lemma independent:
  assumes "inv st" "lock i st = Some (h, st')" "j \<noteq> i" "free st j"
  shows "lock j st' \<noteq> None"
  using assms lock_effect [OF assms(1,2), of j] lock_inv [OF assms(1,2)] lock_free by blast

end

text \<open>The table: every volume has a mutex of its own, and addresses above \<open>mfresh\<close> are unused.\<close>

definition locks_inv :: "VolumeLocks \<Rightarrow> bool" where
  "locks_inv vl \<longleftrightarrow>
     inj_on (mutexes vl) (dom (mutexes vl)) \<and> (\<forall>a \<in> ran (mutexes vl). a < mfresh vl)"

definition lock_free_at :: "VolumeLocks \<Rightarrow> string \<Rightarrow> bool" where
  "lock_free_at vl volumeID = (case mutexes vl volumeID of None \<Rightarrow> True | Some a \<Rightarrow> \<not> mlocked vl a)"

lemma NewVolumeLocks_inv [simp]: "locks_inv NewVolumeLocks"
  by (simp add: locks_inv_def NewVolumeLocks_def)

lemma NewVolumeLocks_free [simp]: "lock_free_at NewVolumeLocks i"
  by (simp add: lock_free_at_def NewVolumeLocks_def)

lemma locks_inv_mutex_less: "locks_inv vl \<Longrightarrow> mutexes vl i = Some a \<Longrightarrow> a < mfresh vl"
  by (auto simp: locks_inv_def ran_def)

lemma locks_inv_mutex_eq: "locks_inv vl \<Longrightarrow> mutexes vl i = Some a \<Longrightarrow> mutexes vl j = Some a \<Longrightarrow> i = j"
  by (metis domI inj_onD locks_inv_def)

lemma locks_inv_mlocked [simp]: "locks_inv (vl\<lparr>mlocked := f\<rparr>) = locks_inv vl"
  by (simp add: locks_inv_def)

lemma LoadOrStore_inv [invar_intros]: "locks_inv vl \<Longrightarrow> locks_inv (snd (LoadOrStore i vl))"
  by (auto simp: LoadOrStore_def locks_inv_def Let_def inj_on_def ran_def less_Suc_eq
      split: option.splits if_splits)

text \<open>After \<open>LoadOrStore\<close> the volume has the mutex returned, and no lock has changed its state.\<close>

lemma LoadOrStore_mutex: "LoadOrStore i vl = (a, vl') \<Longrightarrow> mutexes vl' i = Some a"
  by (auto simp: LoadOrStore_def Let_def split: option.splits)

lemma LoadOrStore_keeps: "LoadOrStore i vl = (a, vl') \<Longrightarrow> mutexes vl j = Some b \<Longrightarrow> mutexes vl' j = Some b"
  by (auto simp: LoadOrStore_def Let_def split: option.splits)

lemma LoadOrStore_mlocked: "LoadOrStore i vl = (a, vl') \<Longrightarrow> b < mfresh vl \<Longrightarrow> mlocked vl' b = mlocked vl b"
  by (auto simp: LoadOrStore_def Let_def split: option.splits)

lemma LoadOrStore_free:
  assumes "locks_inv vl" "LoadOrStore i vl = (a, vl')"
  shows "lock_free_at vl' j = lock_free_at vl j"
  using assms locks_inv_mutex_less [OF assms(1)]
  by (fastforce simp: LoadOrStore_def Let_def lock_free_at_def split: option.splits if_splits)

lemma lock_free_at_set:
  assumes "locks_inv vl" "mutexes vl i = Some a"
  shows "lock_free_at (vl\<lparr>mlocked := (mlocked vl)(a := b)\<rparr>) j = (if j = i then \<not> b else lock_free_at vl j)"
  using assms(2) by (auto simp: lock_free_at_def split: option.splits dest: locks_inv_mutex_eq [OF assms])

lemma LockE:
  assumes "Lock i vl = Some (a, vl'')"
  obtains vl' where "LoadOrStore i vl = (a, vl')" "\<not> mlocked vl' a"
    "vl'' = vl'\<lparr>mlocked := (mlocked vl')(a := True)\<rparr>"
  using assms by (auto simp: Lock_def mtx_Lock_def split: prod.splits if_splits)

interpretation vlocks: lock_manager Lock mtx_Unlock lock_free_at locks_inv
proof
  fix st :: VolumeLocks and i :: string
  assume inv: "locks_inv st"
  obtain a vl where l: "LoadOrStore i st = (a, vl)" by (cases "LoadOrStore i st")
  have free: "lock_free_at st i \<longleftrightarrow> \<not> mlocked vl a"
    using LoadOrStore_free [OF inv l, of i] LoadOrStore_mutex [OF l] by (simp add: lock_free_at_def)
  show "lock_free_at st i \<Longrightarrow> Lock i st \<noteq> None" "\<not> lock_free_at st i \<Longrightarrow> Lock i st = None"
    using l free by (simp_all add: Lock_def mtx_Lock_def)
next
  fix st st' :: VolumeLocks and i j :: string and h :: nat
  assume inv: "locks_inv st" and "Lock i st = Some (h, st')"
  then obtain vl where l: "LoadOrStore i st = (h, vl)" and un: "\<not> mlocked vl h"
    and st': "st' = vl\<lparr>mlocked := (mlocked vl)(h := True)\<rparr>" by (auto elim: LockE)
  have vl: "locks_inv vl" using LoadOrStore_inv [OF inv, of i] l by simp
  have m: "mutexes vl i = Some h" using l by (rule LoadOrStore_mutex)
  show "locks_inv st'" using vl st' by simp
  have i: "lock_free_at st i" using LoadOrStore_free [OF inv l, of i] m un by (simp add: lock_free_at_def)
  show "lock_free_at st' j = (j \<noteq> i \<and> lock_free_at st j)"
    using lock_free_at_set [OF vl m] LoadOrStore_free [OF inv l] st' by simp
  have "mtx_Unlock h st' = Some vl" using st' un by (simp add: mtx_Unlock_def fun_upd_idem)
  with vl LoadOrStore_free [OF inv l]
  show "\<exists>st''. mtx_Unlock h st' = Some st'' \<and> locks_inv st'' \<and> (\<forall>j. lock_free_at st'' j = lock_free_at st j)"
    by blast
qed

section \<open>Running a handler under a lock\<close>

text \<open>
  \<open>unlock := locks.Lock(id); defer unlock(); body\<close>: the body runs between the two, and the deferred
  unlock runs on every path out of it. \<open>Blocks\<close> is the run of a goroutine that has to wait for the
  mutex; \<open>Fatal\<close> the crash of an unlock of an unlocked mutex.
\<close>

datatype 'a run = Done 'a | Blocks | Fatal

definition with_lock :: "string \<Rightarrow> ('w, 'a) action \<Rightarrow> VolumeLocks \<times> 'w \<Rightarrow> ('a \<times> VolumeLocks \<times> 'w) run" where
  "with_lock volumeID body s = (case Lock volumeID (fst s) of
      None \<Rightarrow> Blocks
    | Some (mtx, vl) \<Rightarrow>
        (let (r, w) = run_state body (snd s)
         in case mtx_Unlock mtx vl of None \<Rightarrow> Fatal | Some vl' \<Rightarrow> Done (r, vl', w)))"

text \<open>A handler whose lock is free runs its body, and all locks are as before when it returns.\<close>

lemma with_lock_done:
  assumes "locks_inv vl" "lock_free_at vl i"
  obtains vl' where "with_lock i body (vl, w) = Done (fst (run_state body w), vl', snd (run_state body w))"
    "locks_inv vl'" "lock_free_at vl' = lock_free_at vl"
proof -
  from vlocks.bracket [OF assms] obtain h vl' vl'' where
    "Lock i vl = Some (h, vl')" "mtx_Unlock h vl' = Some vl''" "locks_inv vl''" "lock_free_at vl'' = lock_free_at vl"
    by blast
  then show ?thesis by (intro that [of vl'']) (simp_all add: with_lock_def case_prod_beta)
qed

text \<open>Run with all locks free, a handler under a lock is its body.\<close>

lemma with_lock_fresh:
  assumes "locks_inv vl" "lock_free_at vl = lock_free_at NewVolumeLocks" "run_state body w = (r, w')"
  shows "\<exists>vl'. with_lock i body (vl, w) = Done (r, vl', w') \<and> locks_inv vl' \<and>
    lock_free_at vl' = lock_free_at NewVolumeLocks"
  using with_lock_done [of vl i body w] assms by (metis NewVolumeLocks_free fst_conv snd_conv)

lemma with_lock_DoneD: "with_lock i body (vl, w) = Done (r, vl', w') \<Longrightarrow> run_state body w = (r, w')"
  by (auto simp: with_lock_def case_prod_beta Let_def prod_eq_iff split: option.splits prod.splits)

lemma with_lock_blocks:
  assumes "locks_inv vl" "\<not> lock_free_at vl i"
  shows "with_lock i body (vl, w) = Blocks"
  using vlocks.lock_held [OF assms] by (simp add: with_lock_def)

text \<open>
  How a handler should end: it returns with every lock as it was, or it waits, which it does only
  while some lock is held; it never crashes.
\<close>

definition returns_unlocked :: "VolumeLocks \<Rightarrow> ('a \<times> VolumeLocks \<times> 'w) run \<Rightarrow> bool" where
  "returns_unlocked vl r = (case r of
      Done (a, vl', w') \<Rightarrow> locks_inv vl' \<and> lock_free_at vl' = lock_free_at vl
    | Blocks \<Rightarrow> \<exists>i. \<not> lock_free_at vl i
    | Fatal \<Rightarrow> False)"

lemma with_lock_returns [invar_intros]:
  assumes "locks_inv vl"
  shows "returns_unlocked vl (with_lock i body (vl, w))"
proof (cases "lock_free_at vl i")
  case True
  obtain vl' where "with_lock i body (vl, w) = Done (fst (run_state body w), vl', snd (run_state body w))"
    "locks_inv vl'" "lock_free_at vl' = lock_free_at vl"
    by (rule with_lock_done [OF assms True])
  then show ?thesis by (simp add: returns_unlocked_def)
next
  case False
  with with_lock_blocks [OF assms False, of body w] show ?thesis by (auto simp: returns_unlocked_def)
qed

lemma Done_returns [invar_intros]: "locks_inv vl \<Longrightarrow> returns_unlocked vl (Done (a, vl, w))"
  by (simp add: returns_unlocked_def)

section \<open>Goroutines\<close>

text \<open>Where a goroutine stands in its use of \<open>Lock\<close>: the volume and the mutex it has loaded.\<close>

datatype pc = Idle | Waiting string nat | Holding string nat

record lock_sys =
  table :: VolumeLocks
  pcs :: "nat \<Rightarrow> pc"

definition lock_init :: lock_sys where
  "lock_init = \<lparr>table = NewVolumeLocks, pcs = (\<lambda>_. Idle)\<rparr>"

inductive lock_step :: "lock_sys \<Rightarrow> lock_sys \<Rightarrow> bool" where
  load: "pcs s t = Idle \<Longrightarrow> LoadOrStore i (table s) = (a, vl) \<Longrightarrow>
    lock_step s (s\<lparr>table := vl, pcs := (pcs s)(t := Waiting i a)\<rparr>)"
| acquire: "pcs s t = Waiting i a \<Longrightarrow> mtx_Lock a (table s) = Some vl \<Longrightarrow>
    lock_step s (s\<lparr>table := vl, pcs := (pcs s)(t := Holding i a)\<rparr>)"
| release: "pcs s t = Holding i a \<Longrightarrow> mtx_Unlock a (table s) = Some vl \<Longrightarrow>
    lock_step s (s\<lparr>table := vl, pcs := (pcs s)(t := Idle)\<rparr>)"

abbreviation lock_reachable :: "lock_sys \<Rightarrow> bool" where
  "lock_reachable \<equiv> reachable (\<lambda>s. s = lock_init) lock_step"

text \<open>
  The invariant: a goroutine that waits for or holds a volume has loaded the mutex of that volume,
  a mutex is locked exactly when some goroutine holds it, and no two goroutines hold the same one.
\<close>

definition loaded :: "pc \<Rightarrow> string \<Rightarrow> nat \<Rightarrow> bool" where
  "loaded p i a \<longleftrightarrow> p = Waiting i a \<or> p = Holding i a"

definition sys_inv :: "lock_sys \<Rightarrow> bool" where
  "sys_inv s \<longleftrightarrow> locks_inv (table s) \<and>
     (\<forall>t i a. loaded (pcs s t) i a \<longrightarrow> mutexes (table s) i = Some a) \<and>
     (\<forall>a. a < mfresh (table s) \<longrightarrow> mlocked (table s) a \<longrightarrow> (\<exists>t i. pcs s t = Holding i a)) \<and>
     (\<forall>t i a. pcs s t = Holding i a \<longrightarrow> mlocked (table s) a) \<and>
     (\<forall>t t' i i' a. pcs s t = Holding i a \<longrightarrow> pcs s t' = Holding i' a \<longrightarrow> t = t')"

lemma sys_invD:
  assumes "sys_inv s"
  shows "locks_inv (table s)"
    and "loaded (pcs s t) i a \<Longrightarrow> mutexes (table s) i = Some a"
    and "a < mfresh (table s) \<Longrightarrow> mlocked (table s) a \<Longrightarrow> \<exists>t i. pcs s t = Holding i a"
    and "pcs s t = Holding i a \<Longrightarrow> mlocked (table s) a"
    and "pcs s t = Holding i a \<Longrightarrow> pcs s t' = Holding i' a \<Longrightarrow> t = t'"
  using assms unfolding sys_inv_def by blast+

lemma sys_invI:
  assumes "locks_inv (table s)"
    and "\<And>t i a. loaded (pcs s t) i a \<Longrightarrow> mutexes (table s) i = Some a"
    and "\<And>a. a < mfresh (table s) \<Longrightarrow> mlocked (table s) a \<Longrightarrow> \<exists>t i. pcs s t = Holding i a"
    and "\<And>t i a. pcs s t = Holding i a \<Longrightarrow> mlocked (table s) a"
    and "\<And>t t' i i' a. pcs s t = Holding i a \<Longrightarrow> pcs s t' = Holding i' a \<Longrightarrow> t = t'"
  shows "sys_inv s"
  unfolding sys_inv_def using assms by blast

lemma sys_inv_init: "sys_inv lock_init"
  by (rule sys_invI) (simp_all add: lock_init_def loaded_def NewVolumeLocks_def locks_inv_def)

lemma sys_inv_less: "sys_inv s \<Longrightarrow> loaded (pcs s t) i a \<Longrightarrow> a < mfresh (table s)"
  by (blast dest: sys_invD(1,2) intro: locks_inv_mutex_less)

lemma LoadOrStore_fresh:
  "LoadOrStore i vl = (a, vl') \<Longrightarrow> mfresh vl' = Suc (mfresh vl) \<and> \<not> mlocked vl' (mfresh vl)"
  by (auto simp: LoadOrStore_def Let_def split: option.splits)

lemma load_inv:
  assumes inv: "sys_inv s" and idle: "pcs s t = Idle" and l: "LoadOrStore i (table s) = (a, vl)"
  shows "sys_inv (s\<lparr>table := vl, pcs := (pcs s)(t := Waiting i a)\<rparr>)"
proof (rule sys_invI)
  let ?s = "s\<lparr>table := vl, pcs := (pcs s)(t := Waiting i a)\<rparr>"
  have hold: "pcs ?s u = Holding j b \<longleftrightarrow> pcs s u = Holding j b" for u j b using idle by auto
  have less: "pcs s u = Holding j b \<Longrightarrow> b < mfresh (table s)" for u j b
    using sys_inv_less [OF inv] by (auto simp: loaded_def)
  show "locks_inv (table ?s)" using LoadOrStore_inv [OF sys_invD(1) [OF inv], of i] l by simp
  show "mutexes (table ?s) j = Some b" if "loaded (pcs ?s u) j b" for u j b
    using that LoadOrStore_mutex [OF l] LoadOrStore_keeps [OF l] sys_invD(2) [OF inv, of u j b]
    by (cases "u = t") (auto simp: loaded_def)
  show "\<exists>u j. pcs ?s u = Holding j b" if "b < mfresh (table ?s)" "mlocked (table ?s) b" for b
    unfolding hold using that LoadOrStore_fresh [OF l] LoadOrStore_mlocked [OF l, of b]
    by (intro sys_invD(3) [OF inv]) (auto simp: less_Suc_eq)
  show "mlocked (table ?s) b" if "pcs ?s u = Holding j b" for u j b
    using that [unfolded hold] LoadOrStore_mlocked [OF l less] sys_invD(4) [OF inv] by simp
  show "u = u'" if "pcs ?s u = Holding j b" "pcs ?s u' = Holding j' b" for u u' j j' b
    using that unfolding hold by (rule sys_invD(5) [OF inv])
qed

lemma acquire_inv:
  assumes inv: "sys_inv s" and w: "pcs s t = Waiting i a" and l: "mtx_Lock a (table s) = Some vl"
  shows "sys_inv (s\<lparr>table := vl, pcs := (pcs s)(t := Holding i a)\<rparr>)"
proof (rule sys_invI)
  let ?s = "s\<lparr>table := vl, pcs := (pcs s)(t := Holding i a)\<rparr>"
  from l have un: "\<not> mlocked (table s) a" and vl: "vl = (table s)\<lparr>mlocked := (mlocked (table s))(a := True)\<rparr>"
    by (auto simp: mtx_Lock_def split: if_splits)
  then have not_a: "pcs s u \<noteq> Holding j a" for u j using sys_invD(4) [OF inv] by blast
  show "locks_inv (table ?s)" using sys_invD(1) [OF inv] by (simp add: vl)
  show "mutexes (table ?s) j = Some b" if "loaded (pcs ?s u) j b" for u j b
    using that w sys_invD(2) [OF inv, of u j b] by (cases "u = t") (auto simp: loaded_def vl)
  show "\<exists>u j. pcs ?s u = Holding j b" if "b < mfresh (table ?s)" "mlocked (table ?s) b" for b
    using that w sys_invD(3) [OF inv, of b] by (cases "b = a") (auto simp: vl, metis pc.distinct(6))
  show "mlocked (table ?s) b" if "pcs ?s u = Holding j b" for u j b
    using that sys_invD(4) [OF inv, of u j b] by (cases "u = t") (auto simp: vl)
  show "u = u'" if "pcs ?s u = Holding j b" "pcs ?s u' = Holding j' b" for u u' j j' b
    using that not_a sys_invD(5) [OF inv, of u j b u' j'] by (auto split: if_splits)
qed

lemma release_inv:
  assumes inv: "sys_inv s" and h: "pcs s t = Holding i a" and l: "mtx_Unlock a (table s) = Some vl"
  shows "sys_inv (s\<lparr>table := vl, pcs := (pcs s)(t := Idle)\<rparr>)"
proof (rule sys_invI)
  let ?s = "s\<lparr>table := vl, pcs := (pcs s)(t := Idle)\<rparr>"
  from l have vl: "vl = (table s)\<lparr>mlocked := (mlocked (table s))(a := False)\<rparr>"
    by (auto simp: mtx_Unlock_def split: if_splits)
  have other: "b \<noteq> a \<and> pcs s u = Holding j b" if "pcs ?s u = Holding j b" for u j b
    using that sys_invD(5) [OF inv h, of u j] by (auto split: if_splits)
  show "locks_inv (table ?s)" using sys_invD(1) [OF inv] by (simp add: vl)
  show "mutexes (table ?s) j = Some b" if "loaded (pcs ?s u) j b" for u j b
    using that sys_invD(2) [OF inv, of u j b] by (cases "u = t") (auto simp: loaded_def vl)
  show "\<exists>u j. pcs ?s u = Holding j b" if "b < mfresh (table ?s)" "mlocked (table ?s) b" for b
    using that h sys_invD(3) [OF inv, of b] by (cases "b = a") (auto simp: vl, metis pc.inject(2))
  show "mlocked (table ?s) b" if "pcs ?s u = Holding j b" for u j b
    using other [OF that] sys_invD(4) [OF inv, of u j b] by (simp add: vl)
  show "u = u'" if "pcs ?s u = Holding j b" "pcs ?s u' = Holding j' b" for u u' j j' b
    using other [OF that(1)] other [OF that(2)] sys_invD(5) [OF inv] by blast
qed

interpretation lock_sys: inductive_invariant "\<lambda>s. s = lock_init" lock_step sys_inv
proof
  show "s = lock_init \<Longrightarrow> sys_inv s" for s by (simp add: sys_inv_init)
  show "sys_inv t" if "sys_inv s" "lock_step s t" for s t
    using that(2,1) by cases (blast intro: load_inv acquire_inv release_inv)+
qed

section \<open>Properties of the volume locks\<close>

text \<open>
  C14. Mutual exclusion: in every interleaving of any number of goroutines, two goroutines that are
  past \<open>Lock\<close> of the same volume ID and have not yet called the closure it returned are the
  same goroutine.
\<close>

theorem volume_mutual_exclusion:
  assumes "lock_reachable s" and "pcs s t = Holding i a" and "pcs s t' = Holding i b"
  shows "t = t'"
proof -
  from assms(1) have inv: "sys_inv s" by (rule lock_sys.reachable_inv)
  from assms(2,3) have "loaded (pcs s t) i a" "loaded (pcs s t') i b" by (simp_all add: loaded_def)
  then have "mutexes (table s) i = Some a" "mutexes (table s) i = Some b" by (blast dest: sys_invD(2) [OF inv])+
  with assms(2,3) sys_invD(5) [OF inv] show ?thesis by simp
qed

text \<open>Two goroutines in the table: one holds the volume, the other waits for it.\<close>

definition demo_locks :: lock_sys where
  "demo_locks = \<lparr>table = \<lparr>mutexes = [''vol'' \<mapsto> 0], mlocked = (\<lambda>_. False)(0 := True), mfresh = 1\<rparr>,
     pcs = (\<lambda>_. Idle)(7 := Holding ''vol'' 0)\<rparr>"

lemma demo_locks_reachable: "lock_reachable demo_locks"
proof -
  let ?s1 = "\<lparr>table = \<lparr>mutexes = [''vol'' \<mapsto> 0], mlocked = (\<lambda>_. False), mfresh = 1\<rparr>,
     pcs = (\<lambda>_. Idle)(7 := Waiting ''vol'' 0)\<rparr>"
  have "lock_step lock_init ?s1"
    using lock_step.load [of lock_init 7 "''vol''" 0 "table ?s1"]
    by (simp add: lock_init_def lock_defs fun_upd_idem)
  moreover have "lock_step ?s1 demo_locks"
    using lock_step.acquire [of ?s1 7 "''vol''" 0 "table demo_locks"]
    by (simp add: mtx_Lock_def demo_locks_def)
  ultimately show ?thesis by (blast intro: reachable.intros)
qed

theorem volume_mutual_exclusion_witness:
  "{t. \<exists>b. pcs demo_locks t = Holding ''vol'' b} = {7}"
proof -
  have h: "pcs demo_locks 7 = Holding ''vol'' 0" by (simp add: demo_locks_def)
  have "t = 7" if "pcs demo_locks t = Holding ''vol'' b" for t b
    by (rule volume_mutual_exclusion [OF demo_locks_reachable that h])
  with h show ?thesis by blast
qed

text \<open>
  C40. No needless waiting: a goroutine that waits for a volume no goroutine holds can take its
  lock at once, whatever the other goroutines hold. Operations on different volumes never wait for
  each other.
\<close>

theorem volume_lock_progress:
  assumes "lock_reachable s" and "pcs s t = Waiting i a" and "\<forall>t' b. pcs s t' \<noteq> Holding i b"
  shows "\<exists>s'. lock_step s s' \<and> pcs s' t = Holding i a"
proof -
  from assms(1) have inv: "sys_inv s" by (rule lock_sys.reachable_inv)
  from assms(2) have w: "loaded (pcs s t) i a" by (simp add: loaded_def)
  have "\<not> mlocked (table s) a"
  proof
    assume "mlocked (table s) a"
    with sys_invD(3) [OF inv sys_inv_less [OF inv w]] obtain u j where u: "pcs s u = Holding j a" by blast
    then have "loaded (pcs s u) j a" by (simp add: loaded_def)
    with sys_invD(2) [OF inv] w have "mutexes (table s) i = Some a" "mutexes (table s) j = Some a" by blast+
    with sys_invD(1) [OF inv] have "i = j" by (rule locks_inv_mutex_eq)
    with u assms(3) show False by blast
  qed
  then have "mtx_Lock a (table s) = Some ((table s)\<lparr>mlocked := (mlocked (table s))(a := True)\<rparr>)"
    by (simp add: mtx_Lock_def)
  from lock_step.acquire [OF assms(2) this] show ?thesis by auto
qed

definition demo_waiting :: lock_sys where
  "demo_waiting = \<lparr>table = \<lparr>mutexes = [''vol'' \<mapsto> 0, ''other'' \<mapsto> 1], mlocked = (\<lambda>_. False)(0 := True), mfresh = 2\<rparr>,
     pcs = (\<lambda>_. Idle)(7 := Holding ''vol'' 0, 8 := Waiting ''other'' 1)\<rparr>"

lemma demo_waiting_reachable: "lock_reachable demo_waiting"
proof -
  have "lock_step demo_locks demo_waiting"
    using lock_step.load [of demo_locks 8 "''other''" 1 "table demo_waiting"]
    by (simp add: demo_locks_def demo_waiting_def LoadOrStore_def fun_upd_def fun_eq_iff)
  with demo_locks_reachable show ?thesis by (rule reach_step)
qed

theorem volume_lock_progress_witness:
  "\<exists>s'. lock_step demo_waiting s' \<and> pcs s' 8 = Holding ''other'' 1"
  by (rule volume_lock_progress [OF demo_waiting_reachable]) (simp_all add: demo_waiting_def)

text \<open>
  The closure that \<open>Lock\<close> returns never unlocks a mutex that is not locked: in every reachable
  state a goroutine that holds a volume can release it.
\<close>

theorem volume_unlock_never_fatal:
  assumes "lock_reachable s" and "pcs s t = Holding i a"
  shows "mtx_Unlock a (table s) \<noteq> None"
proof -
  from assms(1) have "sys_inv s" by (rule lock_sys.reachable_inv)
  with assms(2) have "mlocked (table s) a" by (blast dest: sys_invD(4))
  then show ?thesis by (simp add: mtx_Unlock_def)
qed

theorem volume_unlock_never_fatal_witness: "mtx_Unlock 0 (table demo_locks) \<noteq> None"
  by (rule volume_unlock_never_fatal [OF demo_locks_reachable, of 7 "''vol''"]) (simp add: demo_locks_def)

section \<open>\<open>TryLock\<close>\<close>

record TryLock =
  tl_locked :: int32

text \<open>\<open>atomic.CompareAndSwapInt32\<close>.\<close>

definition CompareAndSwap :: "int32 \<Rightarrow> int32 \<Rightarrow> int32 \<Rightarrow> bool \<times> int32" where
  "CompareAndSwap v old new = (if v = old then (True, new) else (False, v))"

definition TryLock_Lock :: "TryLock \<Rightarrow> bool \<times> TryLock" where
  "TryLock_Lock l = (let (ok, v) = CompareAndSwap (tl_locked l) 0 1 in (ok, l\<lparr>tl_locked := v\<rparr>))"

definition TryLock_Unlock :: "TryLock \<Rightarrow> TryLock" where
  "TryLock_Unlock l = l\<lparr>tl_locked := 0\<rparr>"

text \<open>The outcomes of \<open>n\<close> attempts, in the order in which their atomic operations take effect.\<close>

fun try_many :: "nat \<Rightarrow> TryLock \<Rightarrow> bool list" where
  "try_many 0 l = []"
| "try_many (Suc n) l = (let (ok, l') = TryLock_Lock l in ok # try_many n l')"

lemma TryLock_Lock_taken: "tl_locked l \<noteq> 0 \<Longrightarrow> TryLock_Lock l = (False, l)"
  by (simp add: TryLock_Lock_def CompareAndSwap_def)

lemma try_many_taken: "tl_locked l \<noteq> 0 \<Longrightarrow> try_many n l = replicate n False"
  by (induction n) (simp_all add: TryLock_Lock_taken)

text \<open>
  Of any positive number of concurrent attempts on an unlocked \<open>TryLock\<close> exactly one, the
  first whose compare-and-swap takes effect, succeeds; and after \<open>Unlock\<close> an attempt succeeds again.
\<close>

theorem TryLock_exactly_one:
  "try_many (Suc n) (TryLock_Unlock l) = True # replicate n False"
  by (simp add: TryLock_Lock_def TryLock_Unlock_def CompareAndSwap_def try_many_taken)

end
