(* ===== verification/Go_UTF8.thy ===== *)
theory Go_UTF8
  imports Go_Prelude
begin

text \<open>
  UTF-8 as the Go library reads it (\<^verbatim>\<open>utf8.DecodeRune\<close> and \<^verbatim>\<open>utf8.AppendRune\<close>):
  which byte sequence at the head of a string is one encoded code point, which strings are valid,
  and how a code point is written. \<^verbatim>\<open>encoding/json\<close> quotes and unquotes text rune by rune.
\<close>

definition byte_in :: "nat \<Rightarrow> nat \<Rightarrow> char \<Rightarrow> bool" where
  "byte_in lo hi c = (lo \<le> of_char c \<and> of_char c \<le> hi)"

text \<open>A continuation byte, and the ranges the first byte allows for the second.\<close>

definition cont_byte :: "char \<Rightarrow> bool" where
  "cont_byte c = byte_in 0x80 0xBF c"

definition second_of_3 :: "char \<Rightarrow> char \<Rightarrow> bool" where
  "second_of_3 a b =
     (if a = CHR 0xE0 then byte_in 0xA0 0xBF b
      else if a = CHR 0xED then byte_in 0x80 0x9F b else cont_byte b)"

definition second_of_4 :: "char \<Rightarrow> char \<Rightarrow> bool" where
  "second_of_4 a b =
     (if a = CHR 0xF0 then byte_in 0x90 0xBF b
      else if a = CHR 0xF4 then byte_in 0x80 0x8F b else cont_byte b)"

text \<open>The number of bytes of the code point at the head of a string; \<open>None\<close> if there is no valid one.\<close>

definition rune_size :: "string \<Rightarrow> nat option" where
  "rune_size s = (case s of
      [] \<Rightarrow> None
    | a # t \<Rightarrow>
        if byte_in 0 0x7F a then Some 1
        else if byte_in 0xC2 0xDF a then
          (case t of b # _ \<Rightarrow> if cont_byte b then Some 2 else None | _ \<Rightarrow> None)
        else if byte_in 0xE0 0xEF a then
          (case t of b # c # _ \<Rightarrow> if second_of_3 a b \<and> cont_byte c then Some 3 else None | _ \<Rightarrow> None)
        else if byte_in 0xF0 0xF4 a then
          (case t of b # c # d # _ \<Rightarrow>
             if second_of_4 a b \<and> cont_byte c \<and> cont_byte d then Some 4 else None | _ \<Rightarrow> None)
        else None)"

fun valid_utf8 :: "string \<Rightarrow> bool" where
  "valid_utf8 [] = True"
| "valid_utf8 (c # s) =
     (case rune_size (c # s) of None \<Rightarrow> False | Some n \<Rightarrow> valid_utf8 (drop (n - 1) s))"

text \<open>The bytes of a code point; one that is a surrogate or too large is written as U+FFFD.\<close>

definition rune_error :: string where
  "rune_error = [CHR 0xEF, CHR 0xBF, CHR 0xBD]"

definition encode_rune :: "nat \<Rightarrow> string" where
  "encode_rune r =
     (if r < 0x80 then [char_of r]
      else if r < 0x800 then [char_of (0xC0 + r div 64), char_of (0x80 + r mod 64)]
      else if 0xD800 \<le> r \<and> r < 0xE000 \<or> 0x10FFFF < r then rune_error
      else if r < 0x10000 then
        [char_of (0xE0 + r div 4096), char_of (0x80 + r div 64 mod 64), char_of (0x80 + r mod 64)]
      else [char_of (0xF0 + r div 262144), char_of (0x80 + r div 4096 mod 64),
            char_of (0x80 + r div 64 mod 64), char_of (0x80 + r mod 64)])"

lemma rune_size_Nil [simp]: "rune_size [] = None"
  by (simp add: rune_size_def)

lemma rune_size_ascii [simp]: "of_char c < (0x80 :: nat) \<Longrightarrow> rune_size (c # s) = Some 1"
  by (simp add: rune_size_def byte_in_def)

text \<open>The four shapes of an encoded code point.\<close>

lemma rune_size_cases:
  assumes "rune_size s = Some n"
  obtains (one) a u where "n = 1" "s = a # u" "byte_in 0 0x7F a"
    | (two) a b u where "n = 2" "s = a # b # u" "\<not> byte_in 0 0x7F a" "byte_in 0xC2 0xDF a" "cont_byte b"
    | (three) a b c u where "n = 3" "s = a # b # c # u" "\<not> byte_in 0 0x7F a" "\<not> byte_in 0xC2 0xDF a"
        "byte_in 0xE0 0xEF a" "second_of_3 a b" "cont_byte c"
    | (four) a b c d u where "n = 4" "s = a # b # c # d # u" "\<not> byte_in 0 0x7F a"
        "\<not> byte_in 0xC2 0xDF a" "\<not> byte_in 0xE0 0xEF a" "byte_in 0xF0 0xF4 a" "second_of_4 a b"
        "cont_byte c" "cont_byte d"
  using assms by (simp add: rune_size_def split: list.splits if_splits)

lemma rune_size_bounds:
  assumes "rune_size s = Some n"
  shows "1 \<le> n" and "n \<le> length s"
  using assms by (auto elim: rune_size_cases)

text \<open>The size is decided by the bytes of the code point alone.\<close>

lemma rune_size_take:
  assumes "rune_size s = Some n"
  shows "rune_size (take n s @ t) = Some n"
  using assms by (cases rule: rune_size_cases) (simp_all add: rune_size_def)

text \<open>A code point of more than one byte has no byte below 80 in it.\<close>

definition high_byte :: "char \<Rightarrow> bool" where
  "high_byte c = (\<not> of_char c < (0x80 :: nat))"

lemma high_byteI:
  "byte_in lo hi c \<Longrightarrow> 0x80 \<le> lo \<Longrightarrow> high_byte c"
  "cont_byte c \<Longrightarrow> high_byte c"
  by (simp_all add: high_byte_def byte_in_def cont_byte_def)

lemma high_second: "second_of_3 a c \<Longrightarrow> high_byte c" "second_of_4 a c \<Longrightarrow> high_byte c"
  by (simp_all add: second_of_3_def second_of_4_def high_byteI split: if_splits)

lemma high_not_ascii: "high_byte c \<Longrightarrow> \<not> byte_in 0 0x7F c"
  by (simp add: high_byte_def byte_in_def)

lemma rune_size_non_ascii:
  assumes "rune_size (c # s) = Some n" and "high_byte c"
  shows "\<forall>b \<in> set (take n (c # s)). high_byte b"
  using assms(1) high_not_ascii [OF assms(2)] assms(2)
  by (cases rule: rune_size_cases) (auto simp: high_byteI high_second)

lemma valid_utf8_ascii: "(\<forall>c \<in> set s. of_char c < (0x80 :: nat)) \<Longrightarrow> valid_utf8 s"
  by (induction s) auto

lemma valid_utf8_drop:
  assumes "valid_utf8 (c # s)" and "rune_size (c # s) = Some n"
  shows "valid_utf8 (drop (n - 1) s)"
  using assms by simp

declare valid_utf8.simps(2) [simp del]

text \<open>A string is its first code point followed by the rest.\<close>

lemma take_rune: "1 \<le> n \<Longrightarrow> take n (c # s) @ drop (n - 1) s = c # s"
  by (metis append_take_drop_id diff_Suc_1 drop_Suc_Cons not_one_le_zero old.nat.exhaust)

end
