(* ===== verification/Go_JSON_String.thy ===== *)
theory Go_JSON_String
  imports Go_UTF8
begin

text \<open>
  String literals of \<^verbatim>\<open>encoding/json\<close>: how \<^verbatim>\<open>json.Marshal\<close> quotes a Go string
  (with its HTML escaping and the replacement of invalid UTF-8) and how the decoder reads a literal
  back. Unquoting undoes quoting on every valid UTF-8 string.
\<close>

abbreviation dquote :: char where "dquote \<equiv> CHR 0x22"
abbreviation bslash :: char where "bslash \<equiv> CHR 0x5C"

section \<open>Hexadecimal digits\<close>

definition hex_char :: "nat \<Rightarrow> char" where
  "hex_char d = char_of (if d < 10 then 48 + d else 87 + d)"

definition hex_val :: "char \<Rightarrow> nat option" where
  "hex_val c = (let n = of_char c :: nat in
     if 48 \<le> n \<and> n \<le> 57 then Some (n - 48)
     else if 97 \<le> n \<and> n \<le> 102 then Some (n - 87)
     else if 65 \<le> n \<and> n \<le> 70 then Some (n - 55)
     else None)"

lemma hex_val_char [simp]: "d < 16 \<Longrightarrow> hex_val (hex_char d) = Some d"
  by (simp add: hex_val_def hex_char_def Let_def)

text \<open>Four hexadecimal digits at the head of a string.\<close>

fun hex4 :: "string \<Rightarrow> nat option" where
  "hex4 (a # b # c # d # s) =
     (case (hex_val a, hex_val b, hex_val c, hex_val d) of
        (Some p, Some q, Some r, Some t) \<Rightarrow> Some (((p * 16 + q) * 16 + r) * 16 + t)
      | _ \<Rightarrow> None)"
| "hex4 _ = None"

section \<open>Quoting\<close>

text \<open>The escape of a byte below 80, as \<^verbatim>\<open>json.Marshal\<close> writes it.\<close>

definition esc_ascii :: "char \<Rightarrow> string" where
  "esc_ascii c = (let n = of_char c :: nat in
     if c = dquote \<or> c = bslash then [bslash, c]
     else if n = 8 then [bslash, CHR ''b'']
     else if n = 12 then [bslash, CHR ''f'']
     else if n = 10 then [bslash, CHR ''n'']
     else if n = 13 then [bslash, CHR ''r'']
     else if n = 9 then [bslash, CHR ''t'']
     else if n < 32 \<or> c = CHR ''<'' \<or> c = CHR ''>'' \<or> c = CHR ''&''
       then [bslash, CHR ''u'', CHR ''0'', CHR ''0'', hex_char (n div 16), hex_char (n mod 16)]
     else [c])"

text \<open>U+2028 and U+2029 are escaped too; every other valid code point is copied.\<close>

definition esc_rune :: "string \<Rightarrow> string" where
  "esc_rune r =
     (if r = [CHR 0xE2, CHR 0x80, CHR 0xA8] then [bslash] @ ''u2028''
      else if r = [CHR 0xE2, CHR 0x80, CHR 0xA9] then [bslash] @ ''u2029''
      else r)"

fun quote_body :: "string \<Rightarrow> string" where
  "quote_body [] = []"
| "quote_body (c # s) =
     (if of_char c < (0x80 :: nat) then esc_ascii c @ quote_body s
      else (case rune_size (c # s) of
              None \<Rightarrow> [bslash] @ ''ufffd'' @ quote_body s
            | Some n \<Rightarrow> esc_rune (take n (c # s)) @ quote_body (drop (n - 1) s)))"

definition quote :: "string \<Rightarrow> string" where
  "quote s = [dquote] @ quote_body s @ [dquote]"

section \<open>Unquoting\<close>

text \<open>
  An escape, from the byte after the backslash: the bytes it stands for and how many bytes of the
  source it takes. A surrogate pair is one code point; a lone surrogate is U+FFFD.
\<close>

definition hi_surrogate :: "nat \<Rightarrow> bool" where
  "hi_surrogate r = (0xD800 \<le> r \<and> r < 0xDC00)"

definition lo_surrogate :: "nat \<Rightarrow> bool" where
  "lo_surrogate r = (0xDC00 \<le> r \<and> r < 0xE000)"

definition unesc_u :: "string \<Rightarrow> (string \<times> nat) option" where
  "unesc_u t = (case hex4 t of
      None \<Rightarrow> None
    | Some r \<Rightarrow>
        if hi_surrogate r \<or> lo_surrogate r then
          (case (HasPrefix (drop 4 t) [bslash, CHR ''u''], hex4 (drop 6 t)) of
             (True, Some r') \<Rightarrow>
               if hi_surrogate r \<and> lo_surrogate r'
               then Some (encode_rune (0x10000 + (r - 0xD800) * 0x400 + (r' - 0xDC00)), 11)
               else Some (rune_error, 5)
           | _ \<Rightarrow> Some (rune_error, 5))
        else Some (encode_rune r, 5))"

definition unesc :: "string \<Rightarrow> (string \<times> nat) option" where
  "unesc s = (case s of
      [] \<Rightarrow> None
    | e # t \<Rightarrow>
        if e = dquote \<or> e = bslash \<or> e = CHR ''/'' then Some ([e], 1)
        else if e = CHR ''b'' then Some ([char_of (8 :: nat)], 1)
        else if e = CHR ''f'' then Some ([char_of (12 :: nat)], 1)
        else if e = CHR ''n'' then Some ([char_of (10 :: nat)], 1)
        else if e = CHR ''r'' then Some ([char_of (13 :: nat)], 1)
        else if e = CHR ''t'' then Some ([char_of (9 :: nat)], 1)
        else if e = CHR ''u'' then unesc_u t
        else None)"

text \<open>From the byte after the opening quote: the string and what follows the closing quote.\<close>

fun unquote :: "string \<Rightarrow> (string \<times> string) option" where
  "unquote [] = None"
| "unquote (c # s) =
     (if c = dquote then Some ([], s)
      else if c = bslash then
        (case unesc s of
           None \<Rightarrow> None
         | Some (out, k) \<Rightarrow> map_option (\<lambda>(t, r). (out @ t, r)) (unquote (drop k s)))
      else if of_char c < (0x20 :: nat) then None
      else (case rune_size (c # s) of
              None \<Rightarrow> map_option (\<lambda>(t, r). (rune_error @ t, r)) (unquote s)
            | Some n \<Rightarrow> map_option (\<lambda>(t, r). (take n (c # s) @ t, r)) (unquote (drop (n - 1) s))))"

declare quote_body.simps(2) [simp del] unquote.simps(2) [simp del]

lemma unquote_dquote [simp]: "unquote (dquote # s) = Some ([], s)"
  by (simp add: unquote.simps(2))

text \<open>Reading a literal consumes at least its closing quote.\<close>

lemma unquote_shorter: "unquote s = Some (t, r) \<Longrightarrow> length r < length s"
proof (induction s arbitrary: t rule: unquote.induct)
  case 1
  then show ?case by simp
next
  case (2 c s)
  have step: "length r < length (c # s)" if "map_option (\<lambda>(t, r). (out @ t, r)) (unquote (drop k s)) = Some (t, r)"
    and IH: "\<And>t. unquote (drop k s) = Some (t, r) \<Longrightarrow> length r < length (drop k s)" for out k
  proof -
    from that obtain t' where "unquote (drop k s) = Some (t', r)" by auto
    from IH [OF this] show ?thesis by simp
  qed
  consider "c = dquote" | "c = bslash" | "c \<noteq> dquote" "c \<noteq> bslash" by blast
  then show ?case
  proof cases
    case 1
    with "2.prems" show ?thesis by simp
  next
    case 2
    with "2.prems" obtain out k where u: "unesc s = Some (out, k)"
      by (auto simp: unquote.simps(2) split: option.splits)
    have "length r < length (drop k s)" if "unquote (drop k s) = Some (u, r)" for u
      using "2.IH"(1) [OF _ _ u refl that] 2 by simp
    with u 2 "2.prems" show ?thesis using step [of out k] by (simp add: unquote.simps(2))
  next
    case 3
    then have False: "\<not> (c = dquote \<or> c = bslash)" by simp
    with "2.prems" have hi: "\<not> of_char c < (0x20 :: nat)" by (auto simp: unquote.simps(2) split: if_splits)
    show ?thesis
    proof (cases "rune_size (c # s)")
      case None
      with False hi "2.prems" show ?thesis using step [of rune_error 0] "2.IH"(2)
        by (simp add: unquote.simps(2))
    next
      case (Some n)
      with False hi "2.prems" show ?thesis using step [of "take n (c # s)" "n - 1"] "2.IH"(3)
        by (simp add: unquote.simps(2))
    qed
  qed
qed

section \<open>Unquoting undoes quoting\<close>

lemma unquote_esc:
  assumes "unesc (e @ s) = Some (out, length e)"
  shows "unquote (bslash # e @ s) = map_option (\<lambda>(t, r). (out @ t, r)) (unquote s)"
  using assms by (simp add: unquote.simps(2))

lemma unesc_hex:
  assumes "n < 128"
  shows "unesc ([CHR ''u'', CHR ''0'', CHR ''0'', hex_char (n div 16), hex_char (n mod 16)] @ s)
    = Some ([char_of n], 5)"
proof -
  have "hex_val (CHR ''0'') = Some 0" by (simp add: hex_val_def)
  moreover have "n div 16 < 16" using assms by linarith
  ultimately have "hex4 ([CHR ''0'', CHR ''0'', hex_char (n div 16), hex_char (n mod 16)] @ s) = Some n"
    by simp
  then show ?thesis using assms
    by (simp add: unesc_def unesc_u_def hi_surrogate_def lo_surrogate_def encode_rune_def)
qed

lemma unquote_esc_ascii:
  assumes c: "of_char c < (0x80 :: nat)"
  shows "unquote (esc_ascii c @ s) = map_option (\<lambda>(t, r). (c # t, r)) (unquote s)"
proof -
  define n where "n = (of_char c :: nat)"
  then have cn: "c = char_of n" and n: "n < 128" and nc: "of_char c = n" using c by simp_all
  let ?short = "n = 8 \<or> n = 9 \<or> n = 10 \<or> n = 12 \<or> n = 13"
  let ?hex = "n < 32 \<or> c = CHR ''<'' \<or> c = CHR ''>'' \<or> c = CHR ''&''"
  consider (quoted) "c = dquote \<or> c = bslash" | (short) ?short
    | (hexed) "\<not> (c = dquote \<or> c = bslash)" "\<not> ?short" ?hex
    | (plain) "\<not> (c = dquote \<or> c = bslash)" "\<not> ?short" "\<not> ?hex"
    by blast
  then show ?thesis
  proof cases
    case quoted
    then show ?thesis by (auto simp: esc_ascii_def unquote.simps(2) unesc_def)
  next
    case short
    then show ?thesis by (auto simp: cn esc_ascii_def unquote.simps(2) unesc_def)
  next
    case hexed
    then have hex: "esc_ascii c = bslash # [CHR ''u'', CHR ''0'', CHR ''0'', hex_char (n div 16), hex_char (n mod 16)]"
      by (simp add: esc_ascii_def Let_def nc)
    from unesc_hex [OF n, of s]
    have "unesc ([CHR ''u'', CHR ''0'', CHR ''0'', hex_char (n div 16), hex_char (n mod 16)] @ s) =
      Some ([c], length [CHR ''u'', CHR ''0'', CHR ''0'', hex_char (n div 16), hex_char (n mod 16)])"
      by (simp add: cn)
    from unquote_esc [OF this] show ?thesis by (simp add: hex)
  next
    case plain
    then have "esc_ascii c = [c]" by (simp add: esc_ascii_def Let_def nc)
    with c nc plain show ?thesis by (simp add: unquote.simps(2))
  qed
qed

lemma unquote_esc_rune:
  assumes size: "rune_size (c # s) = Some n" and hi: "high_byte c"
  shows "unquote (esc_rune (take n (c # s)) @ t)
    = map_option (\<lambda>(u, r). (take n (c # s) @ u, r)) (unquote t)"
proof (cases "esc_rune (take n (c # s)) = take n (c # s)")
  case True
  from size have n: "1 \<le> n" "n \<le> length (c # s)" by (rule rune_size_bounds)+
  then obtain w where w: "take n (c # s) = c # w" "length w = n - 1" by (cases n) auto
  have "rune_size (c # w @ t) = Some n" using rune_size_take [OF size, of t] w by simp
  moreover have "c \<noteq> dquote" "c \<noteq> bslash" "\<not> of_char c < (0x20 :: nat)"
    using hi by (auto simp: high_byte_def)
  moreover have "take n (c # w @ t) = c # w" "drop (n - 1) (w @ t) = t" using w n by (auto simp: take_Cons')
  moreover have "esc_rune (take n (c # s)) = c # w" using True w(1) by simp
  ultimately show ?thesis using w(1) by (simp add: unquote.simps(2))
next
  case False
  define e where "e = take n (c # s)"
  from False consider
      "e = [CHR 0xE2, CHR 0x80, CHR 0xA8]" "esc_rune e = bslash # ''u2028''"
    | "e = [CHR 0xE2, CHR 0x80, CHR 0xA9]" "esc_rune e = bslash # ''u2029''"
    unfolding esc_rune_def e_def [symmetric] by (auto split: if_splits)
  then show ?thesis unfolding e_def [symmetric]
  proof cases
    case 1
    have "unesc (''u2028'' @ t) = Some (e, length ''u2028'')"
      by (simp add: 1 unesc_def unesc_u_def hex_val_def hi_surrogate_def lo_surrogate_def encode_rune_def
          char_of_eq_iff)
    from unquote_esc [OF this] show "unquote (esc_rune e @ t) = map_option (\<lambda>(u, r). (e @ u, r)) (unquote t)"
      by (simp add: 1(2))
  next
    case 2
    have "unesc (''u2029'' @ t) = Some (e, length ''u2029'')"
      by (simp add: 2 unesc_def unesc_u_def hex_val_def hi_surrogate_def lo_surrogate_def encode_rune_def
          char_of_eq_iff)
    from unquote_esc [OF this] show "unquote (esc_rune e @ t) = map_option (\<lambda>(u, r). (e @ u, r)) (unquote t)"
      by (simp add: 2(2))
  qed
qed

lemma unquote_quote_body: "valid_utf8 s \<Longrightarrow> unquote (quote_body s @ dquote # r) = Some (s, r)"
proof (induction s rule: quote_body.induct)
  case 1
  show ?case by simp
next
  case (2 c s)
  show ?case
  proof (cases "of_char c < (0x80 :: nat)")
    case True
    with "2.prems" have "valid_utf8 s" by (simp add: valid_utf8.simps(2))
    from "2.IH"(1) [OF True this] True show ?thesis
      by (simp add: quote_body.simps(2) unquote_esc_ascii)
  next
    case False
    then have hi: "high_byte c" by (simp add: high_byte_def)
    from "2.prems" obtain n where n: "rune_size (c # s) = Some n"
      by (auto simp: valid_utf8.simps(2) split: option.splits)
    from "2.prems" n have "valid_utf8 (drop (n - 1) s)" by (rule valid_utf8_drop)
    with "2.IH"(3) [OF False n] have "unquote (quote_body (drop (n - 1) s) @ dquote # r) = Some (drop (n - 1) s, r)" .
    moreover have "take n (c # s) @ drop (n - 1) s = c # s"
      by (rule take_rune [OF rune_size_bounds(1) [OF n]])
    moreover have "quote_body (c # s) = esc_rune (take n (c # s)) @ quote_body (drop (n - 1) s)"
      using False n by (simp add: quote_body.simps(2))
    ultimately show ?thesis
      by (simp only: append_assoc unquote_esc_rune [OF n hi] option.map prod.case)
  qed
qed

lemma unquote_quote [simp]: "valid_utf8 s \<Longrightarrow> unquote (tl (quote s) @ r) = Some (s, r)"
  by (simp add: quote_def unquote_quote_body)

interpretation json_string: codec valid_utf8 quote
  "\<lambda>t. case unquote (tl t) of Some (s, []) \<Rightarrow> Some s | _ \<Rightarrow> None"
  by unfold_locales (use unquote_quote [of _ "[]"] in simp)

end
