(* ===== verification/Go_JSON.thy ===== *)
theory Go_JSON
  imports Go_JSON_String
begin

text \<open>
  \<^verbatim>\<open>encoding/json\<close> as far as the driver uses it: JSON values, the compact text that
  \<^verbatim>\<open>json.Marshal\<close> writes, the reader with the grammar and the nesting limit of the Go
  scanner, and decoders that store a value into a Go variable the way \<^verbatim>\<open>json.Unmarshal\<close>
  does: a field is found by its exact name or else by a case-insensitive match, unknown fields are
  skipped, \<open>null\<close> leaves a variable of a basic type unchanged, and a value of the wrong type is
  remembered as an error while the rest is still decoded. The texts of the two kinds of error the
  reader and the decoders report are fixed here; in Go they name the place.
\<close>

section \<open>Values and their text\<close>

datatype json =
    JNull
  | JBool bool
  | JNum string
  | JStr string
  | JArr "json list"
  | JObj "(string \<times> json) list"

fun render :: "json \<Rightarrow> string"
  and render_elems :: "json list \<Rightarrow> string"
  and render_mems :: "(string \<times> json) list \<Rightarrow> string" where
  "render JNull = ''null''"
| "render (JBool b) = (if b then ''true'' else ''false'')"
| "render (JNum n) = n"
| "render (JStr s) = quote s"
| "render (JArr vs) = ''['' @ render_elems vs @ '']''"
| "render (JObj ms) = ''{'' @ render_mems ms @ ''}''"
| "render_elems [] = []"
| "render_elems [v] = render v"
| "render_elems (v # w # vs) = render v @ '','' @ render_elems (w # vs)"
| "render_mems [] = []"
| "render_mems [(k, v)] = quote k @ '':'' @ render v"
| "render_mems ((k, v) # m # ms) = quote k @ '':'' @ render v @ '','' @ render_mems (m # ms)"

text \<open>How deeply arrays and objects are nested.\<close>

fun json_depth :: "json \<Rightarrow> nat"
  and depth_elems :: "json list \<Rightarrow> nat"
  and depth_mems :: "(string \<times> json) list \<Rightarrow> nat" where
  "json_depth (JArr vs) = Suc (depth_elems vs)"
| "json_depth (JObj ms) = Suc (depth_mems ms)"
| "json_depth _ = 0"
| "depth_elems [] = 0"
| "depth_elems (v # vs) = max (json_depth v) (depth_elems vs)"
| "depth_mems [] = 0"
| "depth_mems ((k, v) # ms) = max (json_depth v) (depth_mems ms)"

section \<open>The reader\<close>

definition json_ws :: "char \<Rightarrow> bool" where
  "json_ws c = (c = CHR '' '' \<or> c = CHR 9 \<or> c = CHR 10 \<or> c = CHR 13)"

definition skip_ws :: "string \<Rightarrow> string" where
  "skip_ws s = dropWhile json_ws s"

text \<open>The next byte that is not white space is \<open>c\<close>.\<close>

definition expect :: "char \<Rightarrow> string \<Rightarrow> string option" where
  "expect c s = (case skip_ws s of [] \<Rightarrow> None | d # t \<Rightarrow> if d = c then Some t else None)"

text \<open>A number literal: sign, integer part without leading zeros, fraction, exponent.\<close>

definition read_digits :: "string \<Rightarrow> (string \<times> string) option" where
  "read_digits s = (let ds = takeWhile is_digit s in
     if ds = [] then None else Some (ds, dropWhile is_digit s))"

definition read_int :: "string \<Rightarrow> (string \<times> string) option" where
  "read_int s = (case s of
      [] \<Rightarrow> None
    | c # t \<Rightarrow> if c = CHR ''0'' then Some ([c], t) else read_digits s)"

definition read_frac :: "string \<Rightarrow> (string \<times> string) option" where
  "read_frac s = (case s of
      [] \<Rightarrow> Some ([], [])
    | c # t \<Rightarrow>
        if c = CHR ''.'' then map_option (\<lambda>(ds, r). (c # ds, r)) (read_digits t)
        else Some ([], s))"

definition read_exp :: "string \<Rightarrow> (string \<times> string) option" where
  "read_exp s = (case s of
      [] \<Rightarrow> Some ([], [])
    | c # t \<Rightarrow>
        if c = CHR ''e'' \<or> c = CHR ''E'' then
          (case t of
             d # u \<Rightarrow>
               if d = CHR ''+'' \<or> d = CHR ''-''
               then map_option (\<lambda>(ds, r). (c # d # ds, r)) (read_digits u)
               else map_option (\<lambda>(ds, r). (c # ds, r)) (read_digits t)
           | [] \<Rightarrow> None)
        else Some ([], s))"

definition read_num :: "string \<Rightarrow> (string \<times> string) option" where
  "read_num s = (let (sg, s') = (case s of c # t \<Rightarrow> if c = CHR ''-'' then ([c], t) else ([], s) | [] \<Rightarrow> ([], s)) in
     Option.bind (read_int s') (\<lambda>(i, r1).
     Option.bind (read_frac r1) (\<lambda>(f, r2).
     Option.bind (read_exp r2) (\<lambda>(e, r3). Some (sg @ i @ f @ e, r3)))))"

text \<open>A literal word of the grammar, once its first byte is known.\<close>

definition read_word :: "string \<Rightarrow> 'a \<Rightarrow> string \<Rightarrow> ('a \<times> string) option" where
  "read_word w v s = (if HasPrefix s w then Some (v, drop (length w) s) else None)"

definition read_scalar :: "string \<Rightarrow> (json \<times> string) option" where
  "read_scalar s = (case s of
      [] \<Rightarrow> None
    | c # t \<Rightarrow>
        if c = dquote then map_option (\<lambda>(x, r). (JStr x, r)) (unquote t)
        else if c = CHR ''t'' then read_word ''true'' (JBool True) s
        else if c = CHR ''f'' then read_word ''false'' (JBool False) s
        else if c = CHR ''n'' then read_word ''null'' JNull s
        else map_option (\<lambda>(x, r). (JNum x, r)) (read_num s))"

abbreviation max_depth :: nat where "max_depth \<equiv> 10000"

text \<open>
  Each call spends one unit of the first argument (fuel), so the recursion is structural; the
  lemmas below show that two units for every byte and one more are always enough. The second
  argument is the number of arrays and objects that are open.
\<close>

fun read_value :: "nat \<Rightarrow> nat \<Rightarrow> string \<Rightarrow> (json \<times> string) option"
  and read_elems :: "nat \<Rightarrow> nat \<Rightarrow> string \<Rightarrow> (json list \<times> string) option"
  and read_mems :: "nat \<Rightarrow> nat \<Rightarrow> string \<Rightarrow> ((string \<times> json) list \<times> string) option" where
  "read_value 0 d s = None"
| "read_value (Suc n) d s = (case skip_ws s of
      [] \<Rightarrow> None
    | c # t \<Rightarrow>
        if c = CHR ''{'' then
          if max_depth \<le> d then None
          else (case expect (CHR ''}'') t of
                  Some r \<Rightarrow> Some (JObj [], r)
                | None \<Rightarrow> map_option (\<lambda>(ms, r). (JObj ms, r)) (read_mems n (Suc d) t))
        else if c = CHR ''['' then
          if max_depth \<le> d then None
          else (case expect (CHR '']'') t of
                  Some r \<Rightarrow> Some (JArr [], r)
                | None \<Rightarrow> map_option (\<lambda>(vs, r). (JArr vs, r)) (read_elems n (Suc d) t))
        else read_scalar (c # t))"
| "read_elems 0 d s = None"
| "read_elems (Suc n) d s =
     Option.bind (read_value n d s) (\<lambda>(v, r).
       case expect (CHR '','') r of
         Some t \<Rightarrow> map_option (\<lambda>(vs, u). (v # vs, u)) (read_elems n d t)
       | None \<Rightarrow> map_option (\<lambda>t. ([v], t)) (expect (CHR '']'') r))"
| "read_mems 0 d s = None"
| "read_mems (Suc n) d s =
     Option.bind (expect dquote s) (\<lambda>s1.
     Option.bind (unquote s1) (\<lambda>(k, s2).
     Option.bind (expect (CHR '':'') s2) (\<lambda>s3.
     Option.bind (read_value n d s3) (\<lambda>(v, r).
       case expect (CHR '','') r of
         Some t \<Rightarrow> map_option (\<lambda>(ms, u). ((k, v) # ms, u)) (read_mems n d t)
       | None \<Rightarrow> map_option (\<lambda>t. ([(k, v)], t)) (expect (CHR ''}'') r)))))"

text \<open>The first value of a text, as \<^verbatim>\<open>json.Decoder\<close> reads it, and a text that is one value.\<close>

definition json_first :: "string \<Rightarrow> (json \<times> string) option" where
  "json_first s = read_value (Suc (2 * length s)) 0 s"

definition json_parse :: "string \<Rightarrow> json option" where
  "json_parse s = (case json_first s of
      Some (v, r) \<Rightarrow> if skip_ws r = [] then Some v else None
    | None \<Rightarrow> None)"

section \<open>Fuel\<close>

text \<open>Every reader consumes input.\<close>

lemma skip_ws_le: "length (skip_ws s) \<le> length s"
  by (simp add: skip_ws_def length_dropWhile_le)

lemma skip_ws_shorter: "skip_ws s = c # t \<Longrightarrow> length t < length s"
  using skip_ws_le [of s] by simp

lemma expect_shorter: "expect c s = Some t \<Longrightarrow> length t < length s"
  by (auto simp: expect_def split: list.splits if_splits dest: skip_ws_shorter)

lemma read_digits_shorter: "read_digits s = Some (x, r) \<Longrightarrow> length r < length s"
  using length_append [of "takeWhile is_digit s" "dropWhile is_digit s"]
  by (auto simp: read_digits_def Let_def split: if_splits)

lemma read_int_shorter: "read_int s = Some (x, r) \<Longrightarrow> length r < length s"
  by (auto simp: read_int_def split: list.splits if_splits dest: read_digits_shorter)

lemma read_frac_le: "read_frac s = Some (x, r) \<Longrightarrow> length r \<le> length s"
  by (auto simp: read_frac_def split: list.splits if_splits dest!: read_digits_shorter)

lemma read_exp_le: "read_exp s = Some (x, r) \<Longrightarrow> length r \<le> length s"
  by (auto simp: read_exp_def split: list.splits if_splits dest!: read_digits_shorter)

lemma read_num_shorter: "read_num s = Some (x, r) \<Longrightarrow> length r < length s"
  by (auto simp: read_num_def bind_eq_Some_conv split: list.splits if_splits
      dest!: read_int_shorter read_frac_le read_exp_le)

lemma read_word_shorter: "read_word (a # w) v (c # t) = Some (x, r) \<Longrightarrow> length r < length (c # t)"
  by (auto simp: read_word_def split: if_splits)

lemma read_scalar_shorter: "read_scalar s = Some (v, r) \<Longrightarrow> length r < length s"
  by (cases s) (auto simp: read_scalar_def split: if_splits
      dest!: unquote_shorter read_num_shorter read_word_shorter)

lemma read_value_shorter:
  "read_value n d s = Some (v, r) \<Longrightarrow> length r < length s"
  "read_elems n d s = Some (vs, r) \<Longrightarrow> length r < length s"
  "read_mems n d s = Some (ms, r) \<Longrightarrow> length r < length s"
proof (induction n arbitrary: d s v r vs ms)
  case 0
  { case 1 then show ?case by simp }
  { case 2 then show ?case by simp }
  { case 3 then show ?case by simp }
next
  case (Suc n)
  { case 1
    from 1 obtain c t where ct: "skip_ws s = c # t" by (auto split: list.splits)
    have le: "length (c # t) \<le> length s" using skip_ws_le [of s] ct by simp
    from 1 consider
        "read_scalar (c # t) = Some (v, r)"
      | x where "expect x t = Some r"
      | ms where "read_mems n (Suc d) t = Some (ms, r)"
      | vs where "read_elems n (Suc d) t = Some (vs, r)"
      unfolding read_value.simps ct list.case by (auto split: if_splits option.splits)
    then have "length r < length (c # t)"
    proof cases
      case 1
      then show ?thesis by (rule read_scalar_shorter)
    next
      case 2
      from expect_shorter [OF this] show ?thesis by simp
    next
      case 3
      from Suc.IH(3) [OF this] show ?thesis by simp
    next
      case 4
      from Suc.IH(2) [OF this] show ?thesis by simp
    qed
    with le show ?case by simp }
  { case 2
    then obtain v r1 where v: "read_value n d s = Some (v, r1)"
      and "(\<exists>t vs'. expect (CHR '','') r1 = Some t \<and> read_elems n d t = Some (vs', r)) \<or>
        expect (CHR '']'') r1 = Some r"
      by (auto simp: bind_eq_Some_conv split: option.splits)
    then have "length r < length r1"
      using Suc.IH(2) expect_shorter by (metis less_trans)
    with Suc.IH(1) [OF v] show ?case by simp }
  { case 3
    then obtain s1 k s2 s3 v r1 where k: "expect dquote s = Some s1" "unquote s1 = Some (k, s2)"
      "expect (CHR '':'') s2 = Some s3" and v: "read_value n d s3 = Some (v, r1)"
      and "(\<exists>t ms'. expect (CHR '','') r1 = Some t \<and> read_mems n d t = Some (ms', r)) \<or>
        expect (CHR ''}'') r1 = Some r"
      by (auto simp: bind_eq_Some_conv split: option.splits)
    then have "length r < length r1"
      using Suc.IH(3) expect_shorter by (metis less_trans)
    with Suc.IH(1) [OF v] expect_shorter [OF k(1)] unquote_shorter [OF k(2)] expect_shorter [OF k(3)]
    show ?case by simp }
qed

text \<open>With two units for every byte, the amount of fuel does not matter.\<close>

lemma read_value_fuel:
  "2 * length s < n \<Longrightarrow> 2 * length s < m \<Longrightarrow> read_value n d s = read_value m d s"
  "2 * length s + 1 < n \<Longrightarrow> 2 * length s + 1 < m \<Longrightarrow> read_elems n d s = read_elems m d s"
  "2 * length s + 1 < n \<Longrightarrow> 2 * length s + 1 < m \<Longrightarrow> read_mems n d s = read_mems m d s"
proof (induction n arbitrary: d s m)
  case 0
  { case 1 then show ?case by simp }
  { case 2 then show ?case by simp }
  { case 3 then show ?case by simp }
next
  case (Suc n)
  { case 1
    then obtain m' where m: "m = Suc m'" by (cases m) auto
    show ?case
    proof (cases "skip_ws s")
      case Nil
      then show ?thesis by (simp add: m)
    next
      case (Cons c t)
      from skip_ws_shorter [OF this] 1 m have "2 * length t + 1 < n" "2 * length t + 1 < m'" by simp_all
      from Suc.IH(2) [OF this, of "Suc d"] Suc.IH(3) [OF this, of "Suc d"] show ?thesis
        by (simp add: m Cons split: option.split)
    qed }
  { case 2
    then obtain m' where m: "m = Suc m'" by (cases m) auto
    have "read_value n d s = read_value m' d s" using 2 m by (intro Suc.IH(1)) simp_all
    moreover have "read_elems n d t = read_elems m' d t"
      if "read_value m' d s = Some (v, r)" "expect (CHR '','') r = Some t" for v r t
      using 2 m read_value_shorter(1) [OF that(1)] expect_shorter [OF that(2)] by (intro Suc.IH(2)) simp_all
    ultimately show ?case by (auto simp: m intro!: Option.bind_cong split: option.split) }
  { case 3
    then obtain m' where m: "m = Suc m'" by (cases m) auto
    have "read_value n d s3 = read_value m' d s3" if "length s3 < length s" for s3
      using 3 m that by (intro Suc.IH(1)) simp_all
    moreover have "read_mems n d t = read_mems m' d t" if "length t < length s" for t
      using 3 m that by (intro Suc.IH(3)) simp_all
    ultimately show ?case
      by (auto simp: m intro!: Option.bind_cong arg_cong2 [where f = map_option] split: option.split
          dest!: expect_shorter unquote_shorter read_value_shorter(1)) }
qed

lemma json_first_fuel: "2 * length s < n \<Longrightarrow> read_value n 0 s = json_first s"
  unfolding json_first_def by (rule read_value_fuel(1)) simp_all

section \<open>Reading back what was written\<close>

definition nat_lit :: "string \<Rightarrow> bool" where
  "nat_lit s = (s \<noteq> [] \<and> list_all is_digit s \<and> (hd s = CHR ''0'' \<longrightarrow> s = ''0''))"

definition int_lit :: "string \<Rightarrow> bool" where
  "int_lit s = (case s of [] \<Rightarrow> False | c # t \<Rightarrow> if c = CHR ''-'' then nat_lit t else nat_lit s)"

text \<open>The values the driver writes: integers, and strings that are valid UTF-8.\<close>

fun json_wf :: "json \<Rightarrow> bool"
  and wf_elems :: "json list \<Rightarrow> bool"
  and wf_mems :: "(string \<times> json) list \<Rightarrow> bool" where
  "json_wf JNull = True"
| "json_wf (JBool b) = True"
| "json_wf (JNum n) = int_lit n"
| "json_wf (JStr s) = valid_utf8 s"
| "json_wf (JArr vs) = wf_elems vs"
| "json_wf (JObj ms) = wf_mems ms"
| "wf_elems [] = True"
| "wf_elems (v # vs) = (json_wf v \<and> wf_elems vs)"
| "wf_mems [] = True"
| "wf_mems ((k, v) # ms) = (valid_utf8 k \<and> json_wf v \<and> wf_mems ms)"

text \<open>What may follow a number.\<close>

definition num_end :: "string \<Rightarrow> bool" where
  "num_end r = (case r of [] \<Rightarrow> True
     | c # _ \<Rightarrow> \<not> is_digit c \<and> c \<noteq> CHR ''.'' \<and> c \<noteq> CHR ''e'' \<and> c \<noteq> CHR ''E'')"

lemma num_end_simps [simp]:
  "num_end []" "num_end (CHR '','' # r)" "num_end (CHR '']'' # r)" "num_end (CHR ''}'' # r)"
  by (simp_all add: num_end_def is_digit_def)

lemma nat_lit_dec [simp]: "nat_lit (dec_of_nat n)"
proof (cases "n = 0")
  case True
  have "dec_of_nat 0 = ''0''" by (simp add: dec_of_nat.simps digit_char_def char_of_eq_iff)
  with True show ?thesis by (simp add: nat_lit_def is_digit_def)
next
  case False
  with hd_dec_of_nat [of n] show ?thesis by (simp add: nat_lit_def dec_of_nat_digits)
qed

lemma nat_lit_hd: "nat_lit s \<Longrightarrow> is_digit (hd s)"
  by (cases s) (simp_all add: nat_lit_def)

lemma is_digit_minus [simp]: "\<not> is_digit (CHR ''-'')"
  by (simp add: is_digit_def)

lemma int_lit_nat: "nat_lit s \<Longrightarrow> int_lit s"
  using nat_lit_hd [of s] by (cases s) (auto simp: int_lit_def nat_lit_def)

lemma int_lit_FormatInt [simp]: "int_lit (FormatInt i)"
  by (simp add: FormatInt_def int_lit_nat) (simp add: int_lit_def)

lemma read_digits_append:
  assumes "list_all is_digit ds" "ds \<noteq> []" "num_end r"
  shows "read_digits (ds @ r) = Some (ds, r)"
proof -
  have "takeWhile is_digit (ds @ r) = ds" "dropWhile is_digit (ds @ r) = r"
    using assms(1,3)
    by (cases r; simp add: num_end_def list_all_iff)+
  with assms(2) show ?thesis by (simp add: read_digits_def)
qed

lemma read_int_append:
  assumes "nat_lit ds" "num_end r"
  shows "read_int (ds @ r) = Some (ds, r)"
  using assms read_digits_append [of ds r]
  by (cases ds) (auto simp: nat_lit_def read_int_def)

lemma read_tail: "num_end r \<Longrightarrow> read_frac r = Some ([], r)" "num_end r \<Longrightarrow> read_exp r = Some ([], r)"
  by (auto simp: num_end_def read_frac_def read_exp_def split: list.splits)

lemma read_num_append: "int_lit x \<Longrightarrow> num_end r \<Longrightarrow> read_num (x @ r) = Some (x, r)"
  by (cases x)
     (auto simp: int_lit_def read_num_def read_int_append read_tail read_int_append [of "_ # _", simplified]
      split: if_splits)

text \<open>The first byte of a written value.\<close>

lemma int_lit_first:
  assumes "int_lit x"
  obtains c t where "x = c # t" "is_digit c \<or> c = CHR ''-''"
  using assms nat_lit_hd [of x] by (cases x) (auto simp: int_lit_def split: if_splits)

lemma digit_neq:
  assumes "is_digit c \<or> c = CHR ''-''"
  shows "\<not> json_ws c" "c \<noteq> CHR ''{''" "c \<noteq> CHR ''[''" "c \<noteq> CHR ''}''" "c \<noteq> CHR '']''" "c \<noteq> dquote"
    "c \<noteq> CHR ''t''" "c \<noteq> CHR ''f''" "c \<noteq> CHR ''n''"
  using assms by (auto simp: is_digit_def json_ws_def)

lemma render_first:
  assumes "json_wf v"
  obtains c t where "render v = c # t" "\<not> json_ws c" "c \<noteq> CHR '']''"
proof (cases v)
  case (JNum x)
  with assms obtain c t where "x = c # t" "is_digit c \<or> c = CHR ''-''" by (auto elim: int_lit_first)
  with JNum digit_neq [of c] that show ?thesis by simp
next
  case (JBool b)
  with that show ?thesis by (cases b) (simp_all add: json_ws_def)
qed (use that in \<open>simp_all add: json_ws_def quote_def\<close>)

lemma skip_ws_render: "json_wf v \<Longrightarrow> skip_ws (render v @ r) = render v @ r"
  by (elim render_first [of v]) (simp add: skip_ws_def)

lemma expect_render: "json_wf v \<Longrightarrow> expect (CHR '']'') (render v @ r) = None"
  by (elim render_first [of v]) (simp add: expect_def skip_ws_def)

lemma skip_ws_Cons: "\<not> json_ws c \<Longrightarrow> skip_ws (c # s) = c # s"
  by (simp add: skip_ws_def)

lemma expect_Cons: "\<not> json_ws c \<Longrightarrow> expect d (c # s) = (if c = d then Some s else None)"
  by (simp add: expect_def skip_ws_Cons)

lemma json_ws_punct [simp]:
  "\<not> json_ws (CHR ''{'')" "\<not> json_ws (CHR ''}'')" "\<not> json_ws (CHR ''['')" "\<not> json_ws (CHR '']'')"
  "\<not> json_ws (CHR '','')" "\<not> json_ws (CHR '':'')" "\<not> json_ws dquote"
  by (simp_all add: json_ws_def)

lemma read_scalar_render:
  assumes "json_wf v" "num_end r" "\<forall>vs. v \<noteq> JArr vs" "\<forall>ms. v \<noteq> JObj ms"
  shows "read_scalar (render v @ r) = Some (v, r)"
proof (cases v)
  case (JNum x)
  with assms obtain c t where x: "x = c # t" "is_digit c \<or> c = CHR ''-''" by (auto elim: int_lit_first)
  have "read_num (x @ r) = Some (x, r)" using JNum assms by (simp add: read_num_append)
  with JNum x digit_neq [OF x(2)] show ?thesis by (simp add: read_scalar_def)
next
  case (JStr x)
  with assms unquote_quote_body [of x r] show ?thesis by (simp add: read_scalar_def quote_def)
qed (use assms in \<open>auto simp: read_scalar_def read_word_def HasPrefix_def\<close>)

lemma render_scalar_first:
  assumes "json_wf v" "\<forall>vs. v \<noteq> JArr vs" "\<forall>ms. v \<noteq> JObj ms"
  obtains c t where "render v = c # t" "c \<noteq> CHR ''{''" "c \<noteq> CHR ''[''" "\<not> json_ws c"
proof (cases v)
  case (JNum x)
  with assms obtain c t where "x = c # t" "is_digit c \<or> c = CHR ''-''" by (auto elim: int_lit_first)
  with JNum digit_neq [of c] that show ?thesis by simp
next
  case (JBool b)
  with that show ?thesis by (cases b) (simp_all add: json_ws_def)
qed (use assms that in \<open>simp_all add: json_ws_def quote_def\<close>)

lemma read_value_scalar:
  assumes "json_wf v" "num_end r" "\<forall>vs. v \<noteq> JArr vs" "\<forall>ms. v \<noteq> JObj ms"
    and "0 < n"
  shows "read_value n d (render v @ r) = Some (v, r)"
proof -
  from assms(5) obtain n' where n: "n = Suc n'" by (cases n) auto
  obtain c t where ct: "render v = c # t" "c \<noteq> CHR ''{''" "c \<noteq> CHR ''[''" "\<not> json_ws c"
    using assms(1,3,4) by (rule render_scalar_first)
  then show ?thesis using read_scalar_render [OF assms(1-4)] by (simp add: skip_ws_Cons n)
qed

lemma read_mems_step:
  assumes "valid_utf8 k" "read_value n d (t @ r) = Some (v, r)"
  shows "read_mems (Suc n) d (quote k @ '':'' @ t @ r) = (case expect (CHR '','') r of
      Some t \<Rightarrow> map_option (\<lambda>(ms, u). ((k, v) # ms, u)) (read_mems n d t)
    | None \<Rightarrow> map_option (\<lambda>t. ([(k, v)], t)) (expect (CHR ''}'') r))"
  using assms unquote_quote_body [of k "CHR '':'' # t @ r"]
  by (simp add: quote_def expect_Cons)

lemma render_mems_first: "ms \<noteq> [] \<Longrightarrow> \<exists>t. render_mems ms = dquote # t"
  by (cases ms rule: render_mems.cases) (auto simp: quote_def)

lemma read_value_render:
  "json_wf v \<Longrightarrow> num_end r \<Longrightarrow> d + json_depth v \<le> max_depth \<Longrightarrow> 2 * length (render v) < n \<Longrightarrow>
    read_value n d (render v @ r) = Some (v, r)"
  "vs \<noteq> [] \<Longrightarrow> wf_elems vs \<Longrightarrow> d + depth_elems vs \<le> max_depth \<Longrightarrow> 2 * length (render_elems vs) + 1 < n \<Longrightarrow>
    read_elems n d (render_elems vs @ CHR '']'' # r) = Some (vs, r)"
  "ms \<noteq> [] \<Longrightarrow> wf_mems ms \<Longrightarrow> d + depth_mems ms \<le> max_depth \<Longrightarrow> 2 * length (render_mems ms) + 1 < n \<Longrightarrow>
    read_mems n d (render_mems ms @ CHR ''}'' # r) = Some (ms, r)"
proof (induction v and vs and ms arbitrary: d n r and d n r and d n r
    rule: render_render_elems_render_mems.induct)
  case (5 vs)
  then obtain n' where n: "n = Suc n'" by (cases n) auto
  show ?case
  proof (cases vs)
    case Nil
    with 5 show ?thesis by (simp add: n skip_ws_Cons expect_Cons)
  next
    case (Cons v ws)
    then have "\<exists>u. render_elems vs = render v @ u" by (cases ws) auto
    then have "expect (CHR '']'') (render_elems vs @ CHR '']'' # r) = None"
      using 5 Cons by (auto simp: expect_render)
    moreover have "read_elems n' (Suc d) (render_elems vs @ CHR '']'' # r) = Some (vs, r)"
      using 5 Cons n by (intro 5) simp_all
    ultimately show ?thesis using 5 by (simp add: n skip_ws_Cons)
  qed
next
  case (6 ms)
  then obtain n' where n: "n = Suc n'" by (cases n) auto
  show ?case
  proof (cases "ms = []")
    case True
    with 6 show ?thesis by (simp add: n skip_ws_Cons expect_Cons)
  next
    case False
    from render_mems_first [OF this] have "expect (CHR ''}'') (render_mems ms @ CHR ''}'' # r) = None"
      by (auto simp: expect_Cons)
    moreover have "read_mems n' (Suc d) (render_mems ms @ CHR ''}'' # r) = Some (ms, r)"
      using 6 False n by (intro 6) simp_all
    ultimately show ?thesis using 6 by (simp add: n skip_ws_Cons)
  qed
next
  case (8 v)
  then obtain n' where n: "n = Suc n'" by (cases n) auto
  have "read_value n' d (render v @ CHR '']'' # r) = Some (v, CHR '']'' # r)"
    using 8 n by (intro 8) simp_all
  then show ?case by (simp add: n expect_Cons)
next
  case (9 v w vs)
  then obtain n' where n: "n = Suc n'" by (cases n) auto
  let ?rest = "render_elems (w # vs) @ CHR '']'' # r"
  have "read_value n' d (render v @ CHR '','' # ?rest) = Some (v, CHR '','' # ?rest)"
    using 9 n by (intro 9) simp_all
  moreover have "read_elems n' d ?rest = Some (w # vs, r)"
    using 9 n by (intro 9) simp_all
  ultimately show ?case by (simp add: n expect_Cons)
next
  case (11 k v)
  then obtain n' where n: "n = Suc n'" by (cases n) auto
  have "read_value n' d (render v @ CHR ''}'' # r) = Some (v, CHR ''}'' # r)"
    using 11 n by (intro 11) (simp_all add: quote_def)
  with 11 show ?case by (simp add: n read_mems_step [simplified] expect_Cons)
next
  case (12 k v m ms)
  then obtain n' where n: "n = Suc n'" by (cases n) auto
  let ?rest = "render_mems (m # ms) @ CHR ''}'' # r"
  have "read_value n' d (render v @ CHR '','' # ?rest) = Some (v, CHR '','' # ?rest)"
    using 12 n by (intro 12) (simp_all add: quote_def)
  moreover have "read_mems n' d ?rest = Some (m # ms, r)"
    using 12 n by (intro 12) (simp_all add: quote_def)
  ultimately show ?case using 12 by (simp add: n read_mems_step [simplified] expect_Cons)
next
  case 1
  then show ?case by (intro read_value_scalar) simp_all
next
  case (2 b)
  then show ?case by (intro read_value_scalar) simp_all
next
  case (3 x)
  then show ?case by (intro read_value_scalar) simp_all
next
  case (4 x)
  then show ?case by (intro read_value_scalar) simp_all
qed simp_all

text \<open>The reader undoes the writer: JSON is a codec on well-formed values.\<close>

lemma json_parse_render:
  assumes "json_wf v" "json_depth v \<le> max_depth"
  shows "json_parse (render v) = Some v"
proof -
  have "read_value (Suc (2 * length (render v))) 0 (render v @ []) = Some (v, [])"
    using assms by (intro read_value_render) simp_all
  then show ?thesis by (simp add: json_parse_def json_first_def skip_ws_def)
qed

interpretation json_text: codec "\<lambda>v. json_wf v \<and> json_depth v \<le> max_depth" render json_parse
  by unfold_locales (simp add: json_parse_render)

section \<open>Decoding into Go variables\<close>

text \<open>
  A decoder takes the JSON value and the present content of the variable; it gives the new content
  and whether a type error was met.
\<close>

type_synonym 'a decoder = "json \<Rightarrow> 'a \<Rightarrow> 'a \<times> bool"

definition dec_string :: "string decoder" where
  "dec_string v x = (case v of JStr s \<Rightarrow> (s, False) | JNull \<Rightarrow> (x, False) | _ \<Rightarrow> (x, True))"

definition dec_bool :: "bool decoder" where
  "dec_bool v x = (case v of JBool b \<Rightarrow> (b, False) | JNull \<Rightarrow> (x, False) | _ \<Rightarrow> (x, True))"

text \<open>\<open>strconv.ParseInt\<close> and \<open>strconv.ParseUint\<close> on a number literal, in the range of the variable.\<close>

definition lit_int :: "string \<Rightarrow> int option" where
  "lit_int s = (case s of
      [] \<Rightarrow> None
    | c # t \<Rightarrow>
        if c = CHR ''-'' then (if t \<noteq> [] \<and> list_all is_digit t then Some (- int (nat_of_dec t)) else None)
        else if list_all is_digit s then Some (int (nat_of_dec s)) else None)"

definition lit_nat :: "string \<Rightarrow> nat option" where
  "lit_nat s = (if s \<noteq> [] \<and> list_all is_digit s then Some (nat_of_dec s) else None)"

definition dec_int :: "'w::len word decoder" where
  "dec_int v x = (case v of
      JNum n \<Rightarrow>
        (case lit_int n of
           Some i \<Rightarrow> if sint (word_of_int i :: 'w word) = i then (word_of_int i, False) else (x, True)
         | None \<Rightarrow> (x, True))
    | JNull \<Rightarrow> (x, False)
    | _ \<Rightarrow> (x, True))"

definition dec_uint :: "'w::len word decoder" where
  "dec_uint v x = (case v of
      JNum n \<Rightarrow>
        (case lit_nat n of
           Some i \<Rightarrow> if i < 2 ^ LENGTH('w) then (word_of_nat i, False) else (x, True)
         | None \<Rightarrow> (x, True))
    | JNull \<Rightarrow> (x, False)
    | _ \<Rightarrow> (x, True))"

text \<open>A slice: element \<open>i\<close> is decoded into what the slice holds there, or into the zero value.\<close>

fun dec_elems :: "'a \<Rightarrow> 'a decoder \<Rightarrow> json list \<Rightarrow> 'a list \<Rightarrow> 'a list \<times> bool" where
  "dec_elems zero d [] xs = ([], False)"
| "dec_elems zero d (v # vs) xs =
     (let (y, e) = d v (case xs of [] \<Rightarrow> zero | x # _ \<Rightarrow> x); (ys, e') = dec_elems zero d vs (tl xs)
      in (y # ys, e \<or> e'))"

definition dec_slice :: "'a \<Rightarrow> 'a decoder \<Rightarrow> 'a list decoder" where
  "dec_slice zero d v xs = (case v of
      JArr vs \<Rightarrow> dec_elems zero d vs xs
    | JNull \<Rightarrow> ([], False)
    | _ \<Rightarrow> (xs, True))"

text \<open>A pointer: \<open>null\<close> makes it nil, any other value is decoded into what it points to.\<close>

definition dec_ptr :: "'a \<Rightarrow> 'a decoder \<Rightarrow> 'a option decoder" where
  "dec_ptr zero d v p = (case v of
      JNull \<Rightarrow> (None, False)
    | _ \<Rightarrow> (let (y, e) = d v (case p of None \<Rightarrow> zero | Some x \<Rightarrow> x) in (Some y, e)))"

text \<open>
  Case-insensitive field names: ASCII letters, and the two code points outside ASCII that fold to an
  ASCII letter, U+017F (bytes C5 BF) to \<open>s\<close> and U+212A (bytes E2 84 AA) to \<open>k\<close>.
\<close>

fun fold_name :: "string \<Rightarrow> string" where
  "fold_name [] = []"
| "fold_name (c # s) =
     (if HasPrefix (c # s) [CHR 0xE2, CHR 0x84, CHR 0xAA] then CHR ''k'' # fold_name (drop 2 s)
      else if HasPrefix (c # s) [CHR 0xC5, CHR 0xBF] then CHR ''s'' # fold_name (drop 1 s)
      else lower_byte c # fold_name s)"

type_synonym 'a fields = "(string \<times> 'a decoder) list"

definition find_field :: "'a fields \<Rightarrow> string \<Rightarrow> 'a decoder option" where
  "find_field fs k = (case map_of fs k of
      Some d \<Rightarrow> Some d
    | None \<Rightarrow> map_option snd (find (\<lambda>(n, d). fold_name n = fold_name k) fs))"

fun dec_mems :: "'a fields \<Rightarrow> (string \<times> json) list \<Rightarrow> 'a \<Rightarrow> 'a \<times> bool" where
  "dec_mems fs [] x = (x, False)"
| "dec_mems fs ((k, v) # ms) x =
     (let (y, e) = (case find_field fs k of None \<Rightarrow> (x, False) | Some d \<Rightarrow> d v x);
          (z, e') = dec_mems fs ms y
      in (z, e \<or> e'))"

definition dec_struct :: "'a fields \<Rightarrow> 'a decoder" where
  "dec_struct fs v x = (case v of
      JObj ms \<Rightarrow> dec_mems fs ms x
    | JNull \<Rightarrow> (x, False)
    | _ \<Rightarrow> (x, True))"

text \<open>A field of a struct, from the decoder of its type, its selector and its update.\<close>

definition field :: "'b decoder \<Rightarrow> ('a \<Rightarrow> 'b) \<Rightarrow> (('b \<Rightarrow> 'b) \<Rightarrow> 'a \<Rightarrow> 'a) \<Rightarrow> 'a decoder" where
  "field d sel upd v x = (let (y, e) = d v (sel x) in (upd (\<lambda>_. y) x, e))"

section \<open>\<open>json.Unmarshal\<close>\<close>

definition json_syntax_error :: go_error where
  "json_syntax_error = LibErr False ''invalid JSON''"

definition json_type_error :: go_error where
  "json_type_error = LibErr False ''json: cannot unmarshal value into Go value''"

definition json_finish :: "'a \<times> bool \<Rightarrow> 'a \<times> go_error option" where
  "json_finish r = (fst r, if snd r then Some json_type_error else None)"

definition json_Unmarshal :: "'a decoder \<Rightarrow> string \<Rightarrow> 'a \<Rightarrow> 'a \<times> go_error option" where
  "json_Unmarshal d s x = (case json_parse s of
      None \<Rightarrow> (x, Some json_syntax_error)
    | Some v \<Rightarrow> json_finish (d v x))"

text \<open>\<open>json.NewDecoder(r).Decode\<close>: the first value of the stream; what follows it is not looked at.\<close>

definition json_Decode :: "'a decoder \<Rightarrow> string \<Rightarrow> 'a \<Rightarrow> 'a \<times> go_error option" where
  "json_Decode d s x = (case json_first s of
      None \<Rightarrow> (x, Some json_syntax_error)
    | Some (v, r) \<Rightarrow> json_finish (d v x))"

lemmas dec_defs = dec_string_def dec_bool_def dec_int_def dec_uint_def dec_slice_def dec_ptr_def
  dec_struct_def field_def find_field_def json_finish_def

lemma lit_nat_dec [simp]: "lit_nat (dec_of_nat n) = Some n"
  by (simp add: lit_nat_def dec_of_nat_digits)

lemma dec_uint_dec [simp]: "dec_uint (JNum (dec_of_nat (unat w))) x = (w, False)"
  by (simp add: dec_uint_def)

lemma json_Unmarshal_render:
  "json_wf v \<Longrightarrow> json_depth v \<le> max_depth \<Longrightarrow> json_Unmarshal d (render v) x = json_finish (d v x)"
  by (simp add: json_Unmarshal_def json_parse_render)

lemma json_Decode_render:
  assumes "json_wf v" "json_depth v \<le> max_depth"
  shows "json_Decode d (render v) x = json_finish (d v x)"
proof -
  obtain r where "json_first (render v) = Some (v, r)"
    using json_parse_render [OF assms] by (auto simp: json_parse_def split: option.splits if_splits)
  then show ?thesis by (simp add: json_Decode_def)
qed

lemma lit_int_FormatInt [simp]: "lit_int (FormatInt i) = Some i"
proof -
  have no_minus: "hd (dec_of_nat n) \<noteq> CHR ''-''" for n
    using dec_of_nat_digits [of n] by (cases "dec_of_nat n") auto
  obtain c t where ct: "dec_of_nat (nat i) = c # t" by (cases "dec_of_nat (nat i)") auto
  then have "nat_of_dec (c # t) = nat i" by (metis nat_of_dec_of_nat)
  then show ?thesis
    using no_minus [of "nat i"] dec_of_nat_digits [of "nat i"] dec_of_nat_digits [of "nat (- i)"]
    by (auto simp: FormatInt_def lit_int_def ct)
qed

lemma dec_int_FormatInt [simp]: "dec_int (JNum (FormatInt (sint w))) x = (w, False)"
  by (simp add: dec_int_def)

end
