(* ===== verification/Go_Base64.thy ===== *)
theory Go_Base64
  imports Go_Prelude
begin

text \<open>
  \<^verbatim>\<open>base64.StdEncoding\<close> of the Go standard library, which the controller uses to turn a
  volume identifier into a CSI volume ID: \<open>EncodeToString\<close> with padding, and the decoder that
  accepts its output (and skips carriage returns and line feeds, as the library does). The text of
  the decoder's error carries the offset of the bad byte in Go; here it is a fixed text.
\<close>

section \<open>The alphabet\<close>

definition b64_char :: "nat \<Rightarrow> char" where
  "b64_char n = char_of
     (if n < 26 then n + 65 else if n < 52 then n + 71 else if n < 62 then n - 4
      else if n = 62 then 43 else 47)"

definition b64_val :: "char \<Rightarrow> nat option" where
  "b64_val c = (let n = of_char c :: nat in
     if 65 \<le> n \<and> n \<le> 90 then Some (n - 65)
     else if 97 \<le> n \<and> n \<le> 122 then Some (n - 71)
     else if 48 \<le> n \<and> n \<le> 57 then Some (n + 4)
     else if n = 43 then Some 62
     else if n = 47 then Some 63
     else None)"

lemma b64_val_char [simp]: "n < 64 \<Longrightarrow> b64_val (b64_char n) = Some n"
proof -
  assume "n < 64"
  then consider "n < 26" | "26 \<le> n" "n < 52" | "52 \<le> n" "n < 62" | "n = 62" | "n = 63" by linarith
  then show ?thesis by cases (simp add: b64_val_def b64_char_def Let_def; linarith?)+
qed

lemma b64_val_less: "b64_val c = Some n \<Longrightarrow> n < 64"
  by (auto simp: b64_val_def Let_def split: if_splits)

lemma b64_char_not_special:
  assumes "n < 64"
  shows "b64_char n \<noteq> CHR ''=''" and "b64_char n \<noteq> CHR 10" and "b64_char n \<noteq> CHR 13" and "b64_char n \<noteq> CHR ''.''"
proof -
  have "b64_val (b64_char n) \<noteq> None" using assms by simp
  then show "b64_char n \<noteq> CHR ''=''" "b64_char n \<noteq> CHR 10" "b64_char n \<noteq> CHR 13" "b64_char n \<noteq> CHR ''.''"
    by (auto simp: b64_val_def)
qed

section \<open>Encoder and decoder\<close>

fun b64_encode :: "string \<Rightarrow> string" where
  "b64_encode [] = []"
| "b64_encode [x] =
     (let a = of_char x :: nat
      in [b64_char (a div 4), b64_char (a mod 4 * 16), CHR ''='', CHR ''=''])"
| "b64_encode [x, y] =
     (let a = of_char x :: nat; b = of_char y :: nat
      in [b64_char (a div 4), b64_char (a mod 4 * 16 + b div 16), b64_char (b mod 16 * 4), CHR ''=''])"
| "b64_encode (x # y # z # s) =
     (let a = of_char x :: nat; b = of_char y :: nat; c = of_char z :: nat
      in [b64_char (a div 4), b64_char (a mod 4 * 16 + b div 16),
          b64_char (b mod 16 * 4 + c div 64), b64_char (c mod 64)] @ b64_encode s)"

text \<open>One quantum of two, three or four symbols. Left-over bits are dropped (the decoder is not strict).\<close>

definition quantum2 :: "nat \<Rightarrow> nat \<Rightarrow> string" where
  "quantum2 p q = [char_of (p * 4 + q div 16)]"

definition quantum3 :: "nat \<Rightarrow> nat \<Rightarrow> nat \<Rightarrow> string" where
  "quantum3 p q r = [char_of (p * 4 + q div 16), char_of (q mod 16 * 16 + r div 4)]"

definition quantum4 :: "nat \<Rightarrow> nat \<Rightarrow> nat \<Rightarrow> nat \<Rightarrow> string" where
  "quantum4 p q r t =
     [char_of (p * 4 + q div 16), char_of (q mod 16 * 16 + r div 4), char_of (r mod 4 * 64 + t)]"

fun b64_quanta :: "string \<Rightarrow> string option" where
  "b64_quanta [] = Some []"
| "b64_quanta (w # x # y # z # s) =
     (case (b64_val w, b64_val x) of
        (Some p, Some q) \<Rightarrow>
          (if y = CHR ''='' then (if z = CHR ''='' \<and> s = [] then Some (quantum2 p q) else None)
           else (case b64_val y of
                   None \<Rightarrow> None
                 | Some r \<Rightarrow>
                     (if z = CHR ''='' then (if s = [] then Some (quantum3 p q r) else None)
                      else (case b64_val z of
                              None \<Rightarrow> None
                            | Some t \<Rightarrow> map_option (\<lambda>out. quantum4 p q r t @ out) (b64_quanta s)))))
      | _ \<Rightarrow> None)"
| "b64_quanta _ = None"

definition b64_newline :: "char \<Rightarrow> bool" where
  "b64_newline c = (c = CHR 10 \<or> c = CHR 13)"

definition b64_decode :: "string \<Rightarrow> string option" where
  "b64_decode s = b64_quanta (filter (\<lambda>c. \<not> b64_newline c) s)"

definition b64_error :: go_error where
  "b64_error = LibErr False ''illegal base64 data''"

section \<open>Decoding undoes encoding\<close>

lemma quantum2_bytes:
  "quantum2 (of_char x div 4) (of_char x mod 4 * 16) = [x]"
proof -
  have "(of_char x div 4) * 4 + (of_char x mod 4 * 16) div 16 = (of_char x :: nat)" by simp
  then show ?thesis by (simp add: quantum2_def)
qed

lemma quantum3_bytes:
  "quantum3 (of_char x div 4) (of_char x mod 4 * 16 + of_char y div 16) (of_char y mod 16 * 4) = [x, y]"
proof -
  have y: "of_char y div 16 < (16 :: nat)" by (simp add: less_mult_imp_div_less)
  then have "(of_char x mod 4 * 16 + of_char y div 16) div 16 = (of_char x :: nat) mod 4"
    and "(of_char x mod 4 * 16 + of_char y div 16) mod 16 = (of_char y :: nat) div 16" by simp_all
  then show ?thesis by (simp add: quantum3_def)
qed

lemma quantum4_bytes:
  "quantum4 (of_char x div 4) (of_char x mod 4 * 16 + of_char y div 16)
     (of_char y mod 16 * 4 + of_char z div 64) (of_char z mod 64) = [x, y, z]"
proof -
  have y: "of_char y div 16 < (16 :: nat)" and z: "of_char z div 64 < (4 :: nat)"
    by (simp_all add: less_mult_imp_div_less)
  from y have "(of_char x mod 4 * 16 + of_char y div 16) div 16 = (of_char x :: nat) mod 4"
    and "(of_char x mod 4 * 16 + of_char y div 16) mod 16 = (of_char y :: nat) div 16" by simp_all
  moreover from z have "(of_char y mod 16 * 4 + of_char z div 64) div 4 = (of_char y :: nat) mod 16"
    and "(of_char y mod 16 * 4 + of_char z div 64) mod 4 = (of_char z :: nat) div 64" by simp_all
  ultimately show ?thesis by (simp add: quantum4_def)
qed

lemma sextet_bounds:
  fixes x y z :: char
  shows "of_char x div 4 < (64 :: nat)"
    and "of_char x mod 4 * 16 < (64 :: nat)"
    and "of_char x mod 4 * 16 + of_char y div 16 < (64 :: nat)"
    and "of_char y mod 16 * 4 < (64 :: nat)"
    and "of_char y mod 16 * 4 + of_char z div 64 < (64 :: nat)"
    and "of_char z mod 64 < (64 :: nat)"
proof -
  have b: "of_char x < (256 :: nat)" "of_char y < (256 :: nat)" "of_char z < (256 :: nat)" by simp_all
  show "of_char x div 4 < (64 :: nat)" using b by (simp add: less_mult_imp_div_less)
  show "of_char x mod 4 * 16 < (64 :: nat)" "of_char y mod 16 * 4 < (64 :: nat)"
    "of_char z mod 64 < (64 :: nat)" by simp_all
  show "of_char x mod 4 * 16 + of_char y div 16 < (64 :: nat)"
    "of_char y mod 16 * 4 + of_char z div 64 < (64 :: nat)" using b by linarith+
qed

lemmas sextet_simps = sextet_bounds b64_char_not_special [OF sextet_bounds(1)]
  b64_char_not_special [OF sextet_bounds(2)] b64_char_not_special [OF sextet_bounds(3)]
  b64_char_not_special [OF sextet_bounds(4)] b64_char_not_special [OF sextet_bounds(5)]
  b64_char_not_special [OF sextet_bounds(6)]

lemma b64_encode_no_newline: "filter (\<lambda>c. \<not> b64_newline c) (b64_encode s) = b64_encode s"
  by (induction s rule: b64_encode.induct) (simp_all add: Let_def b64_newline_def sextet_simps)

lemma b64_encode_no_dot: "\<forall>c \<in> set (b64_encode s). c \<noteq> CHR ''.''"
  by (induction s rule: b64_encode.induct) (simp_all add: Let_def sextet_simps)

lemma b64_quanta_encode: "b64_quanta (b64_encode s) = Some s"
proof (induction s rule: b64_encode.induct)
  case 1
  show ?case by simp
next
  case (2 x)
  show ?case by (simp add: Let_def sextet_simps quantum2_bytes)
next
  case (3 x y)
  show ?case by (simp add: Let_def sextet_simps quantum3_bytes)
next
  case (4 x y z s)
  then show ?case by (simp add: Let_def sextet_simps quantum4_bytes)
qed

lemma b64_decode_encode [simp]: "b64_decode (b64_encode s) = Some s"
  by (simp add: b64_decode_def b64_encode_no_newline b64_quanta_encode)

interpretation b64: codec "\<lambda>_. True" b64_encode b64_decode
  by unfold_locales simp

lemma b64_encode_eq_Nil [simp]: "b64_encode s = [] \<longleftrightarrow> s = []"
  by (cases s rule: b64_encode.cases) (simp_all add: Let_def)

text \<open>The encoded text has four symbols for every three bytes begun.\<close>

lemma length_b64_encode: "length (b64_encode s) = 4 * ((length s + 2) div 3)"
proof (induction s rule: b64_encode.induct)
  case (4 x y z s)
  have "(length s + 2 + 3) div 3 = (length s + 2) div 3 + 1" by simp
  with 4 show ?case by (simp add: Let_def)
qed (simp_all add: Let_def)

end
