(* ===== verification/Volume_Id.thy ===== *)
theory Volume_Id
  imports Go_JSON Go_Base64
begin

text \<open>
  The CSI volume ID (\<^verbatim>\<open>pkg/driver/controllerserver.go\<close>, \<^verbatim>\<open>VolumeIdentifier\<close>,
  \<^verbatim>\<open>encodeVolumeID\<close>, \<^verbatim>\<open>decodeVolumeID\<close>): the namespace ID, the NQN of its
  subsystem and the name of the volume, as base64 of a JSON object. It is all the controller knows
  about a volume when it has to delete it.
\<close>

record VolumeIdentifier =
  NSID :: uint32
  NQN :: string
  VolumeName :: string

text \<open>The fields in the order \<^verbatim>\<open>json.Marshal\<close> writes them, and as \<^verbatim>\<open>json.Unmarshal\<close> finds them.\<close>

definition json_of_VolumeIdentifier :: "VolumeIdentifier \<Rightarrow> json" where
  "json_of_VolumeIdentifier v = JObj
     [(''nsid'', JNum (dec_of_nat (unat (NSID v)))),
      (''nqn'', JStr (NQN v)),
      (''volume_name'', JStr (VolumeName v))]"

definition VolumeIdentifier_fields :: "VolumeIdentifier fields" where
  "VolumeIdentifier_fields =
     [(''nsid'', field dec_uint NSID NSID_update),
      (''nqn'', field dec_string NQN NQN_update),
      (''volume_name'', field dec_string VolumeName VolumeName_update)]"

definition zero_VolumeIdentifier :: VolumeIdentifier where
  "zero_VolumeIdentifier = \<lparr>NSID = 0, NQN = [], VolumeName = []\<rparr>"

text \<open>\<open>json.Marshal\<close> of this struct cannot fail, so the error branch of the source is never taken.\<close>

definition encodeVolumeID :: "VolumeIdentifier \<Rightarrow> string res" where
  "encodeVolumeID identifier = Inr (b64_encode (render (json_of_VolumeIdentifier identifier)))"

definition decodeVolumeID :: "string \<Rightarrow> VolumeIdentifier res" where
  "decodeVolumeID volumeID = (case b64_decode volumeID of
      None \<Rightarrow> Inl (Wrapf ''failed to decode volume ID: '' b64_error)
    | Some jsonData \<Rightarrow>
        (case json_Unmarshal (dec_struct VolumeIdentifier_fields) jsonData zero_VolumeIdentifier of
           (identifier, Some err) \<Rightarrow> Inl (Wrapf ''failed to unmarshal volume identifier: '' err)
         | (identifier, None) \<Rightarrow> Inr identifier))"

section \<open>Decoding undoes encoding\<close>

text \<open>Protocol buffers carry valid UTF-8 only, so the names the controller is given satisfy this.\<close>

definition identifier_ok :: "VolumeIdentifier \<Rightarrow> bool" where
  "identifier_ok v = (valid_utf8 (NQN v) \<and> valid_utf8 (VolumeName v))"

definition VolumeIdentifier_of_text :: "string \<Rightarrow> VolumeIdentifier option" where
  "VolumeIdentifier_of_text s =
     (case json_Unmarshal (dec_struct VolumeIdentifier_fields) s zero_VolumeIdentifier of
        (v, None) \<Rightarrow> Some v | _ \<Rightarrow> None)"

lemma valid_utf8_names [simp]:
  "valid_utf8 ''nsid''" "valid_utf8 ''nqn''" "valid_utf8 ''volume_name''"
  by (simp_all add: valid_utf8_ascii)

lemma json_of_VolumeIdentifier_wf:
  "identifier_ok v \<Longrightarrow> json_wf (json_of_VolumeIdentifier v)"
  by (simp add: json_of_VolumeIdentifier_def identifier_ok_def int_lit_nat)

lemma json_of_VolumeIdentifier_depth [simp]: "json_depth (json_of_VolumeIdentifier v) = 1"
  by (simp add: json_of_VolumeIdentifier_def)

lemma find_VolumeIdentifier:
  "find_field VolumeIdentifier_fields ''nsid'' = Some (field dec_uint NSID NSID_update)"
  "find_field VolumeIdentifier_fields ''nqn'' = Some (field dec_string NQN NQN_update)"
  "find_field VolumeIdentifier_fields ''volume_name'' = Some (field dec_string VolumeName VolumeName_update)"
  by (simp_all add: find_field_def VolumeIdentifier_fields_def)

lemma dec_VolumeIdentifier:
  "dec_struct VolumeIdentifier_fields (json_of_VolumeIdentifier v) zero_VolumeIdentifier = (v, False)"
  by (simp add: dec_struct_def json_of_VolumeIdentifier_def find_VolumeIdentifier field_def dec_string_def
      zero_VolumeIdentifier_def)

lemma Unmarshal_VolumeIdentifier:
  "identifier_ok v \<Longrightarrow>
    json_Unmarshal (dec_struct VolumeIdentifier_fields) (render (json_of_VolumeIdentifier v)) zero_VolumeIdentifier
      = (v, None)"
  by (simp add: json_Unmarshal_render json_of_VolumeIdentifier_wf dec_VolumeIdentifier json_finish_def)

text \<open>The volume ID is the text codec followed by base64.\<close>

interpretation volume_id: codec_seq
  identifier_ok "\<lambda>v. render (json_of_VolumeIdentifier v)" VolumeIdentifier_of_text
  "\<lambda>_. True" b64_encode b64_decode
  by unfold_locales (simp_all add: VolumeIdentifier_of_text_def Unmarshal_VolumeIdentifier)

lemma decodeVolumeID_eq:
  "decodeVolumeID s = Inr v \<longleftrightarrow> Option.bind (b64_decode s) VolumeIdentifier_of_text = Some v"
  by (auto simp: decodeVolumeID_def VolumeIdentifier_of_text_def bind_eq_Some_conv split: option.splits prod.splits)

lemma decode_encode_id: "identifier_ok v \<Longrightarrow> encodeVolumeID v = Inr s \<Longrightarrow> decodeVolumeID s = Inr v"
  using volume_id.seq_dec_enc [of v] by (auto simp: encodeVolumeID_def decodeVolumeID_eq)

lemma encodeVolumeID_not_empty: "encodeVolumeID v = Inr s \<Longrightarrow> s \<noteq> []"
  by (auto simp: encodeVolumeID_def json_of_VolumeIdentifier_def)

lemma encodeVolumeID_no_dot: "encodeVolumeID v = Inr s \<Longrightarrow> CHR ''.'' \<notin> set s"
  using b64_encode_no_dot by (auto simp: encodeVolumeID_def)

text \<open>
  C9. The volume ID round trip: for an identifier whose texts are valid UTF-8, encoding succeeds
  with a non-empty ID, and decoding that ID gives the identifier back, so that \<open>DeleteVolume\<close>
  addresses the namespace and takes the lock that \<open>CreateVolume\<close> recorded.
\<close>

theorem volume_id_roundtrip:
  assumes "valid_utf8 (NQN v)" and "valid_utf8 (VolumeName v)"
  shows "\<exists>s. encodeVolumeID v = Inr s \<and> s \<noteq> [] \<and> decodeVolumeID s = Inr v"
proof -
  have "identifier_ok v" using assms by (simp add: identifier_ok_def)
  moreover obtain s where "encodeVolumeID v = Inr s" by (simp add: encodeVolumeID_def)
  ultimately show ?thesis using decode_encode_id encodeVolumeID_not_empty by blast
qed

definition demo_identifier :: VolumeIdentifier where
  "demo_identifier = \<lparr>NSID = 3, NQN = ''nqn.2016-06.io.spdk:cnode1'', VolumeName = ''pvc-1''\<rparr>"

theorem volume_id_roundtrip_witness:
  "\<exists>s. encodeVolumeID demo_identifier = Inr s \<and> s \<noteq> [] \<and> decodeVolumeID s = Inr demo_identifier"
  by (rule volume_id_roundtrip) (simp_all add: demo_identifier_def valid_utf8_ascii)

text \<open>
  Two volumes never share an ID: identifiers with valid UTF-8 texts that differ in the
  namespace ID, in the NQN or in the name are encoded differently.
\<close>

lemma volume_id_injective:
  assumes "identifier_ok v" and "identifier_ok v'" and "encodeVolumeID v = encodeVolumeID v'"
  shows "v = v'"
proof -
  obtain s where s: "encodeVolumeID v = Inr s" by (simp add: encodeVolumeID_def)
  with assms(3) have s': "encodeVolumeID v' = Inr s" by simp
  from decode_encode_id [OF assms(1) s] decode_encode_id [OF assms(2) s'] show ?thesis by simp
qed

lemma volume_id_injective_demo:
  "encodeVolumeID demo_identifier \<noteq> encodeVolumeID (demo_identifier\<lparr>NSID := 4\<rparr>)"
proof
  assume "encodeVolumeID demo_identifier = encodeVolumeID (demo_identifier\<lparr>NSID := 4\<rparr>)"
  from volume_id_injective [OF _ _ this] have "demo_identifier = demo_identifier\<lparr>NSID := 4\<rparr>"
    by (simp add: identifier_ok_def demo_identifier_def valid_utf8_ascii)
  then show False by (simp add: demo_identifier_def)
qed

text \<open>
  A namespace ID that does not fit in 32 bits is rejected, never cut down to 32 bits: an ID
  whose JSON text gives \<open>nsid\<close> such a number, with any NQN and name, decodes to the unmarshal error.
\<close>

theorem decodeVolumeID_nsid_range:
  assumes "2 ^ 32 \<le> n" and "valid_utf8 q" and "valid_utf8 m"
  shows "decodeVolumeID (b64_encode (render
      (JObj [(''nsid'', JNum (dec_of_nat n)), (''nqn'', JStr q), (''volume_name'', JStr m)])))
    = Inl (Wrapf ''failed to unmarshal volume identifier: '' json_type_error)"
proof -
  let ?v = "JObj [(''nsid'', JNum (dec_of_nat n)), (''nqn'', JStr q), (''volume_name'', JStr m)]"
  have "json_wf ?v" "json_depth ?v \<le> max_depth" using assms by (simp_all add: int_lit_nat)
  moreover have "snd (dec_struct VolumeIdentifier_fields ?v zero_VolumeIdentifier)"
    using assms(1)
    by (simp add: dec_struct_def find_VolumeIdentifier field_def dec_uint_def case_prod_beta Let_def)
  ultimately show ?thesis
    by (simp add: decodeVolumeID_def json_Unmarshal_render json_finish_def del: render.simps)
qed

theorem decodeVolumeID_nsid_range_witness:
  "decodeVolumeID (b64_encode (render
      (JObj [(''nsid'', JNum (dec_of_nat 4294967296)), (''nqn'', JStr ''q''), (''volume_name'', JStr ''m'')])))
    = Inl (Wrapf ''failed to unmarshal volume identifier: '' json_type_error)"
  by (rule decodeVolumeID_nsid_range) (simp_all add: valid_utf8_ascii)

end
