(* ===== verification/Csi_Common.thy ===== *)
theory Csi_Common
  imports Go_Prelude
begin

text \<open>
  The package \<^verbatim>\<open>pkg/csi-common\<close>: the driver object with its capabilities, the default
  identity, controller and node servers, the parser of the endpoint flag, and the gRPC server that
  registers the services. The enumerations of the CSI specification are 32-bit integers, as in the
  generated Go code; their \<^verbatim>\<open>String\<close> method is a parameter where the code prints one.
\<close>

section \<open>Messages of the CSI specification\<close>

text \<open>The enumeration values the driver names.\<close>

abbreviation (input) RPC_UNKNOWN :: int32 where "RPC_UNKNOWN \<equiv> 0"
abbreviation (input) RPC_CREATE_DELETE_VOLUME :: int32 where "RPC_CREATE_DELETE_VOLUME \<equiv> 1"
abbreviation (input) RPC_PUBLISH_UNPUBLISH_VOLUME :: int32 where "RPC_PUBLISH_UNPUBLISH_VOLUME \<equiv> 2"
abbreviation (input) RPC_CREATE_DELETE_SNAPSHOT :: int32 where "RPC_CREATE_DELETE_SNAPSHOT \<equiv> 5"
abbreviation (input) SINGLE_NODE_WRITER :: int32 where "SINGLE_NODE_WRITER \<equiv> 1"
abbreviation (input) NODE_RPC_UNKNOWN :: int32 where "NODE_RPC_UNKNOWN \<equiv> 0"
abbreviation (input) NODE_RPC_STAGE_UNSTAGE_VOLUME :: int32 where "NODE_RPC_STAGE_UNSTAGE_VOLUME \<equiv> 1"
abbreviation (input) SERVICE_CONTROLLER :: int32 where "SERVICE_CONTROLLER \<equiv> 1"
abbreviation (input) VOLUME_EXPANSION_UNKNOWN :: int32 where "VOLUME_EXPANSION_UNKNOWN \<equiv> 0"

text \<open>A capability of the controller service; \<open>None\<close> where the union holds no RPC type.\<close>

record ControllerServiceCapability =
  csc_Rpc :: "int32 option"

definition GetRpc_GetType :: "ControllerServiceCapability \<Rightarrow> int32" where
  "GetRpc_GetType c = (case csc_Rpc c of None \<Rightarrow> RPC_UNKNOWN | Some t \<Rightarrow> t)"

record AccessMode =
  Mode :: int32

text \<open>
  A volume capability: how the volume is to be accessed (nothing, as a block device, or mounted with a
  file system and mount flags) and the access mode. A message of the specification has nil-safe getters.
\<close>

datatype AccessType = AccessBlock | AccessMount string "string list"

record VolumeCapability =
  vcap_AccessType :: "AccessType option"
  vcap_AccessMode :: "AccessMode option"

definition GetAccessMode_GetMode :: "VolumeCapability option \<Rightarrow> int32" where
  "GetAccessMode_GetMode c =
     (case c of None \<Rightarrow> 0 | Some vc \<Rightarrow> (case vcap_AccessMode vc of None \<Rightarrow> 0 | Some m \<Rightarrow> Mode m))"

text \<open>\<open>c.GetBlock() != nil\<close>.\<close>

definition GetBlock :: "VolumeCapability option \<Rightarrow> bool" where
  "GetBlock c = (case c of None \<Rightarrow> False | Some vc \<Rightarrow> vcap_AccessType vc = Some AccessBlock)"

datatype PluginCapability = Service int32 | VolumeExpansion int32

record PluginInfo =
  pi_Name :: string
  pi_VendorVersion :: string

section \<open>The driver object (\<open>driver.go\<close>)\<close>

record CSIDriver =
  drv_name :: string
  drv_nodeID :: string
  drv_version :: string
  drv_cap :: "ControllerServiceCapability list"
  drv_vc :: "AccessMode list"

definition NewCSIDriver :: "string \<Rightarrow> string \<Rightarrow> string \<Rightarrow> CSIDriver option" where
  "NewCSIDriver name v nodeID =
     (if name = [] then None
      else if nodeID = [] then None
      else if v = [] then None
      else Some \<lparr>drv_name = name, drv_nodeID = nodeID, drv_version = v, drv_cap = [], drv_vc = []\<rparr>)"

definition NewControllerServiceCapability :: "int32 \<Rightarrow> ControllerServiceCapability" where
  "NewControllerServiceCapability captype = \<lparr>csc_Rpc = Some captype\<rparr>"

definition NewVolumeCapabilityAccessMode :: "int32 \<Rightarrow> AccessMode" where
  "NewVolumeCapabilityAccessMode m = \<lparr>Mode = m\<rparr>"

text \<open>The loop over \<open>d.cap\<close>; \<open>str\<close> is the \<^verbatim>\<open>String\<close> method of the enumeration.\<close>

fun cap_listed :: "int32 \<Rightarrow> ControllerServiceCapability list \<Rightarrow> bool" where
  "cap_listed c [] = False"
| "cap_listed c (x # xs) = (if c = GetRpc_GetType x then True else cap_listed c xs)"

definition ValidateControllerServiceRequest :: "(int32 \<Rightarrow> string) \<Rightarrow> CSIDriver \<Rightarrow> int32 \<Rightarrow> go_error option" where
  "ValidateControllerServiceRequest str d c =
     (if c = RPC_UNKNOWN then None
      else if cap_listed c (drv_cap d) then None
      else Some (Status InvalidArgument (str c)))"

text \<open>The append loop of the source, with the slice built so far.\<close>

fun append_caps :: "ControllerServiceCapability list \<Rightarrow> int32 list \<Rightarrow> ControllerServiceCapability list" where
  "append_caps csc [] = csc"
| "append_caps csc (c # cl) = append_caps (csc @ [NewControllerServiceCapability c]) cl"

definition AddControllerServiceCapabilities :: "int32 list \<Rightarrow> CSIDriver \<Rightarrow> CSIDriver" where
  "AddControllerServiceCapabilities cl d = d\<lparr>drv_cap := append_caps [] cl\<rparr>"

fun append_modes :: "AccessMode list \<Rightarrow> int32 list \<Rightarrow> AccessMode list" where
  "append_modes vca [] = vca"
| "append_modes vca (c # vc) = append_modes (vca @ [NewVolumeCapabilityAccessMode c]) vc"

definition AddVolumeCapabilityAccessModes :: "int32 list \<Rightarrow> CSIDriver \<Rightarrow> AccessMode list \<times> CSIDriver" where
  "AddVolumeCapabilityAccessModes vc d = (let vca = append_modes [] vc in (vca, d\<lparr>drv_vc := vca\<rparr>))"

definition GetVolumeCapabilityAccessModes :: "CSIDriver \<Rightarrow> AccessMode list" where
  "GetVolumeCapabilityAccessModes d = drv_vc d"

lemma cap_listed_iff: "cap_listed c xs \<longleftrightarrow> (\<exists>x \<in> set xs. GetRpc_GetType x = c)"
  by (induction xs) auto

lemma append_caps_eq: "append_caps csc cl = csc @ map NewControllerServiceCapability cl"
  by (induction cl arbitrary: csc) simp_all

lemma append_modes_eq: "append_modes vca vc = vca @ map NewVolumeCapabilityAccessMode vc"
  by (induction vc arbitrary: vca) simp_all

text \<open>
  After the driver has been given a list of capabilities, a request is accepted exactly if its
  capability is in that list or is the unknown one; every other request gets \<open>InvalidArgument\<close>
  with the name of the capability.
\<close>

theorem ValidateControllerServiceRequest_exact:
  "ValidateControllerServiceRequest str (AddControllerServiceCapabilities cl d) c =
     (if c = RPC_UNKNOWN \<or> c \<in> set cl then None else Some (Status InvalidArgument (str c)))"
  by (auto simp: ValidateControllerServiceRequest_def AddControllerServiceCapabilities_def cap_listed_iff
      append_caps_eq NewControllerServiceCapability_def GetRpc_GetType_def)

section \<open>The default servers\<close>

text \<open>Each default server holds the driver object (the constructors are in \<open>utils.go\<close>).\<close>

record DefaultIdentityServer =
  dis_Driver :: CSIDriver

record DefaultControllerServer =
  dcs_Driver :: CSIDriver

record DefaultNodeServer =
  dns_Driver :: CSIDriver

definition NewDefaultNodeServer :: "CSIDriver \<Rightarrow> DefaultNodeServer" where
  "NewDefaultNodeServer d = \<lparr>dns_Driver = d\<rparr>"

definition NewDefaultIdentityServer :: "CSIDriver \<Rightarrow> DefaultIdentityServer" where
  "NewDefaultIdentityServer d = \<lparr>dis_Driver = d\<rparr>"

definition NewDefaultControllerServer :: "CSIDriver \<Rightarrow> DefaultControllerServer" where
  "NewDefaultControllerServer d = \<lparr>dcs_Driver = d\<rparr>"

lemmas default_server_defs = NewDefaultNodeServer_def NewDefaultIdentityServer_def NewDefaultControllerServer_def

text \<open>Identity (\<open>identityserver-default.go\<close>).\<close>

definition Default_GetPluginInfo :: "DefaultIdentityServer \<Rightarrow> PluginInfo res" where
  "Default_GetPluginInfo ids =
     (if drv_name (dis_Driver ids) = [] then Inl (Status Unavailable ''Driver name not configured'')
      else if drv_version (dis_Driver ids) = [] then Inl (Status Unavailable ''Driver is missing version'')
      else Inr \<lparr>pi_Name = drv_name (dis_Driver ids), pi_VendorVersion = drv_version (dis_Driver ids)\<rparr>)"

definition Default_Probe :: "DefaultIdentityServer \<Rightarrow> unit res" where
  "Default_Probe ids = Inr ()"

definition Default_GetPluginCapabilities :: "DefaultIdentityServer \<Rightarrow> PluginCapability list res" where
  "Default_GetPluginCapabilities ids = Inr [Service SERVICE_CONTROLLER]"

text \<open>
  Controller and node (\<open>controllerserver-default.go\<close>, \<open>nodeserver-default.go\<close>): the methods that only
  report that they are not implemented, by name, and the ones that answer.
\<close>

datatype default_method =
    CM_CreateVolume | CM_DeleteVolume | CM_ControllerPublishVolume | CM_ControllerUnpublishVolume
  | CM_ValidateVolumeCapabilities | CM_ListVolumes | CM_GetCapacity | CM_ControllerGetVolume
  | CM_CreateSnapshot | CM_DeleteSnapshot | CM_ListSnapshots | CM_ControllerExpandVolume

definition Default_controller_call :: "DefaultControllerServer \<Rightarrow> default_method \<Rightarrow> 'a res" where
  "Default_controller_call cs m = Inl (Status Unimplemented [])"

datatype default_node_method =
    NM_NodePublishVolume | NM_NodeUnpublishVolume | NM_NodeGetVolumeStats | NM_NodeStageVolume
  | NM_NodeUnstageVolume | NM_NodeExpandVolume

definition Default_node_call :: "DefaultNodeServer \<Rightarrow> default_node_method \<Rightarrow> 'a res" where
  "Default_node_call ns m = Inl (Status Unimplemented [])"

definition Default_ControllerGetCapabilities :: "DefaultControllerServer \<Rightarrow> ControllerServiceCapability list res" where
  "Default_ControllerGetCapabilities cs = Inr (drv_cap (dcs_Driver cs))"

definition Default_NodeGetInfo :: "DefaultNodeServer \<Rightarrow> string res" where
  "Default_NodeGetInfo ns = Inr (drv_nodeID (dns_Driver ns))"

definition Default_NodeGetCapabilities :: "DefaultNodeServer \<Rightarrow> int32 list res" where
  "Default_NodeGetCapabilities ns = Inr [NODE_RPC_UNKNOWN]"

text \<open>
  Construction and identity agree: a driver object exists exactly if name, version and node ID
  are all given, and the object that is built always answers \<open>GetPluginInfo\<close> with that name and
  version and \<open>NodeGetInfo\<close> with that node ID, also after capabilities and access modes were added.
\<close>

theorem NewCSIDriver_identity:
  "(NewCSIDriver name v nodeID = None \<longleftrightarrow> name = [] \<or> v = [] \<or> nodeID = []) \<and>
   (case NewCSIDriver name v nodeID of
      None \<Rightarrow> True
    | Some d \<Rightarrow>
        (let d' = snd (AddVolumeCapabilityAccessModes vc (AddControllerServiceCapabilities cl d)) in
         Default_GetPluginInfo (NewDefaultIdentityServer d') = Inr \<lparr>pi_Name = name, pi_VendorVersion = v\<rparr> \<and>
         Default_NodeGetInfo (NewDefaultNodeServer d') = Inr nodeID \<and>
         Default_ControllerGetCapabilities (NewDefaultControllerServer d') = Inr (map NewControllerServiceCapability cl)))"
  by (simp add: NewCSIDriver_def AddVolumeCapabilityAccessModes_def AddControllerServiceCapabilities_def
      Default_GetPluginInfo_def Default_NodeGetInfo_def Default_ControllerGetCapabilities_def default_server_defs append_caps_eq Let_def)

section \<open>The endpoint (\<open>utils.go\<close>)\<close>

text \<open>
  \<open>None\<close> is the panic of the index \<^verbatim>\<open>s[1]\<close> on a slice of one element.
\<close>

definition parseEndpoint :: "string \<Rightarrow> (string \<times> string) res option" where
  "parseEndpoint ep =
     (let invalid = Some (Inl (Errorf (''invalid endpoint: '' @ ep))) in
      if HasPrefix (ToLower ep) ''unix://'' \<or> HasPrefix (ToLower ep) ''tcp://'' then
        (let s = SplitN2 ep ''://'' in
         if 1 < length s then
           (if s ! 1 \<noteq> [] then Some (Inr (s ! 0, s ! 1)) else invalid)
         else None)
      else invalid)"

text \<open>\<open>logGRPC\<close>: the interceptor logs and hands the handler's result through.\<close>

definition logGRPC :: "('w, 'a res) action \<Rightarrow> ('w, 'a res) action" where
  "logGRPC handler = do {
     r \<leftarrow> handler;
     case r of Inl err \<Rightarrow> State_Monad.return (Inl err) | Inr resp \<Rightarrow> State_Monad.return (Inr resp)
   }"

text \<open>
  Lower-casing moves neither the colon nor the slash, so splitting commutes with it.
\<close>

lemma lower_byte_mark: "c \<in> {CHR '':'', CHR ''/''} \<Longrightarrow> lower_byte d = c \<longleftrightarrow> d = c"
  by (auto simp: lower_byte_def Let_def char_of_eq_iff take_bit_eq_mod)

lemma HasPrefix_Cons: "HasPrefix s (c # p) \<longleftrightarrow> (\<exists>t. s = c # t \<and> HasPrefix t p)"
  by (auto simp: HasPrefix_iff)

lemma HasPrefix_ToLower_mark:
  "set p \<subseteq> {CHR '':'', CHR ''/''} \<Longrightarrow> HasPrefix (ToLower s) p \<longleftrightarrow> HasPrefix s p"
proof (induction p arbitrary: s)
  case (Cons c p)
  then have c: "c \<in> {CHR '':'', CHR ''/''}" and IH: "HasPrefix (ToLower t) p \<longleftrightarrow> HasPrefix t p" for t by auto
  show ?case
  proof (cases s)
    case (Cons d t)
    consider "HasPrefix (d # t) [CHR 0xE2, CHR 0x84, CHR 0xAA]" | "HasPrefix (d # t) [CHR 0xC4, CHR 0xB0]"
      | "\<not> HasPrefix (d # t) [CHR 0xE2, CHR 0x84, CHR 0xAA]" "\<not> HasPrefix (d # t) [CHR 0xC4, CHR 0xB0]"
      by blast
    then show ?thesis
      by cases (use c IH in \<open>auto simp: Cons HasPrefix_Cons lower_byte_mark\<close>)
  qed (simp add: HasPrefix_Cons)
qed simp

lemma ToLower_drop_mark:
  assumes "set p \<subseteq> {CHR '':'', CHR ''/''}" and "HasPrefix s p"
  shows "ToLower (drop (length p) s) = drop (length p) (ToLower s)"
  using assms
proof (induction p arbitrary: s)
  case (Cons c p)
  then obtain t where t: "s = c # t" "HasPrefix t p" by (auto simp: HasPrefix_Cons)
  with Cons.prems have "ToLower s = c # ToLower t" by (auto simp: HasPrefix_Cons lower_byte_mark)
  with Cons t show ?case by simp
qed simp

lemma split_at_ToLower:
  "split_at (ToLower s) ''://'' = map_option (\<lambda>(a, b). (ToLower a, ToLower b)) (split_at s ''://'')"
proof (induction s rule: length_induct)
  case (1 s)
  have sep: "set ''://'' \<subseteq> {CHR '':'', CHR ''/''}" by simp
  show ?case
  proof (cases "HasPrefix s ''://''")
    case True
    then obtain t where "s = ''://'' @ t" by (auto simp: HasPrefix_iff)
    with ToLower_drop_mark [OF sep True] HasPrefix_ToLower_mark [OF sep, of s] True
    show ?thesis by (cases "ToLower s") (auto simp: HasPrefix_Cons)
  next
    case no: False
    show ?thesis
    proof (cases s)
      case (Cons d t)
      consider (kelvin) u where "s = [CHR 0xE2, CHR 0x84, CHR 0xAA] @ u" | (dotted) u where "s = [CHR 0xC4, CHR 0xB0] @ u"
        | (byte) "\<not> HasPrefix (d # t) [CHR 0xE2, CHR 0x84, CHR 0xAA]" "\<not> HasPrefix (d # t) [CHR 0xC4, CHR 0xB0]"
        unfolding Cons HasPrefix_iff by blast
      then show ?thesis
      proof cases
        case (kelvin u)
        then have "split_at (ToLower u) ''://'' = map_option (\<lambda>(a, b). (ToLower a, ToLower b)) (split_at u ''://'')"
          using 1 by simp
        then show ?thesis
          by (simp add: kelvin HasPrefix_Cons option.map_comp o_def case_prod_unfold)
      next
        case (dotted u)
        then have "split_at (ToLower u) ''://'' = map_option (\<lambda>(a, b). (ToLower a, ToLower b)) (split_at u ''://'')"
          using 1 by simp
        then show ?thesis
          by (simp add: dotted HasPrefix_Cons option.map_comp o_def case_prod_unfold)
      next
        case byte
        have IH: "split_at (ToLower t) ''://'' = map_option (\<lambda>(a, b). (ToLower a, ToLower b)) (split_at t ''://'')"
          using 1 Cons by simp
        have low: "ToLower (d # a) = lower_byte d # ToLower a" if "split_at t ''://'' = Some (a, b)" for a b
          using byte split_at_SomeD [OF that] by (auto simp: HasPrefix_iff)
        have "\<not> HasPrefix (lower_byte d # ToLower t) ''://''"
          using no HasPrefix_ToLower_mark [OF sep, of s] byte by (simp add: Cons)
        then show ?thesis
          using byte no low by (cases "split_at t ''://''") (auto simp: Cons IH)
      qed
    qed simp
  qed
qed

lemma HasPrefix_scheme:
  assumes "CHR '':'' \<notin> set p"
  shows "HasPrefix s (p @ ''://'') \<longleftrightarrow> (\<exists>b. split_at s ''://'' = Some (p, b))"
  using assms
proof (induction p arbitrary: s)
  case Nil
  show ?case by (cases s) (auto simp: HasPrefix_Cons)
next
  case (Cons c p)
  then show ?case by (cases s) (auto simp: HasPrefix_Cons)
qed

lemma HasPrefix_ToLower_scheme:
  assumes "CHR '':'' \<notin> set p"
  shows "HasPrefix (ToLower s) (p @ ''://'') \<longleftrightarrow>
    (\<exists>a b. split_at s ''://'' = Some (a, b) \<and> ToLower a = p)"
  by (auto simp: HasPrefix_scheme [OF assms] split_at_ToLower)

text \<open>
  C37. The endpoint parser never panics, and it accepts exactly the endpoints whose scheme, the
  text before the first \<open>://\<close>, is \<open>unix\<close> or \<open>tcp\<close> in any mix of upper and lower case and whose
  address is not empty; it returns the two parts as they stand in the flag.
\<close>

theorem parseEndpoint_exact:
  "parseEndpoint ep = Some
     (case split_at ep ''://'' of
        None \<Rightarrow> Inl (Errorf (''invalid endpoint: '' @ ep))
      | Some (proto, addr) \<Rightarrow>
          if ToLower proto \<in> {''unix'', ''tcp''} \<and> addr \<noteq> [] then Inr (proto, addr)
          else Inl (Errorf (''invalid endpoint: '' @ ep)))"
  using HasPrefix_ToLower_scheme [of "''unix''" ep] HasPrefix_ToLower_scheme [of "''tcp''" ep]
  by (cases "split_at ep ''://''") (auto simp: parseEndpoint_def SplitN2_def Let_def)

section \<open>The gRPC server (\<open>server.go\<close>)\<close>

text \<open>
  A Go interface value: nil, or a dynamic type with a pointer, which itself may be nil (\<open>None\<close>).
  Comparing the interface with nil looks at the first case only.
\<close>

datatype 'a iface = NilIface | Iface "'a option"

datatype ('i, 'c, 'n) service = IdentityService "'i option" | ControllerService "'c option" | NodeService "'n option"

text \<open>
  The operating-system and gRPC calls of the server, as the code calls them; they are parameters.
\<close>

text \<open>A gRPC server is given by the services registered with it; a pointer to one may be nil.\<close>

type_synonym ('i, 'c, 'n) grpc_server = "('i, 'c, 'n) service list option"

record ('w, 'i, 'c, 'n) net_env =
  ne_Remove :: "string \<Rightarrow> ('w, go_error option) action"
  ne_Listen :: "string \<Rightarrow> string \<Rightarrow> ('w, nat res) action"
  ne_Serve :: "('i, 'c, 'n) service list \<Rightarrow> nat \<Rightarrow> ('w, go_error option) action"
  ne_GracefulStop :: "('i, 'c, 'n) grpc_server \<Rightarrow> ('w, unit) action"
  ne_Stop :: "('i, 'c, 'n) grpc_server \<Rightarrow> ('w, unit) action"

record ('i, 'c, 'n) nonBlockingGRPCServer =
  wg :: nat
  server :: "('i, 'c, 'n) grpc_server"

definition NewNonBlockingGRPCServer :: "('i, 'c, 'n) nonBlockingGRPCServer" where
  "NewNonBlockingGRPCServer = \<lparr>wg = 0, server = None\<rparr>"

text \<open>How a goroutine of the server ends: \<^verbatim>\<open>klog.Fatal\<close> ends the whole process.\<close>

datatype serve_end = Exited string | Served | Panicked

definition register_services ::
    "'i iface \<Rightarrow> 'c iface \<Rightarrow> 'n iface \<Rightarrow> ('i, 'c, 'n) service list" where
  "register_services ids cs ns =
     (case ids of NilIface \<Rightarrow> [] | Iface p \<Rightarrow> [IdentityService p]) @
     (case cs of NilIface \<Rightarrow> [] | Iface p \<Rightarrow> [ControllerService p]) @
     (case ns of NilIface \<Rightarrow> [] | Iface p \<Rightarrow> [NodeService p])"

text \<open>
  From \<^verbatim>\<open>net.Listen\<close> to the end of the function. The first part of the result is what the field
  \<open>server\<close> holds then.
\<close>

definition serve_listen ::
    "('w, 'i, 'c, 'n) net_env \<Rightarrow> string \<Rightarrow> string \<Rightarrow> 'i iface \<Rightarrow> 'c iface \<Rightarrow> 'n iface \<Rightarrow>
     ('i, 'c, 'n) nonBlockingGRPCServer \<Rightarrow> ('w, ('i, 'c, 'n) grpc_server \<times> serve_end) action" where
  "serve_listen env proto addr ids cs ns s = do {
     listener \<leftarrow> ne_Listen env proto addr;
     case listener of
       Inl err \<Rightarrow> State_Monad.return (server s, Exited (''Failed to listen: '' @ Error err))
     | Inr l \<Rightarrow> do {
         let services = register_services ids cs ns;
         err \<leftarrow> ne_Serve env services l;
         case err of
           Some e \<Rightarrow> State_Monad.return (Some services, Exited (''Failed to start GRPC server: '' @ Error e))
         | None \<Rightarrow> State_Monad.return (Some services, Served)
       }
   }"

definition serve ::
    "('w, 'i, 'c, 'n) net_env \<Rightarrow> string \<Rightarrow> 'i iface \<Rightarrow> 'c iface \<Rightarrow> 'n iface \<Rightarrow>
     ('i, 'c, 'n) nonBlockingGRPCServer \<Rightarrow> ('w, ('i, 'c, 'n) grpc_server \<times> serve_end) action" where
  "serve env endpoint ids cs ns s =
     (case parseEndpoint endpoint of
        None \<Rightarrow> State_Monad.return (server s, Panicked)
      | Some (Inl err) \<Rightarrow> State_Monad.return (server s, Exited (Error err))
      | Some (Inr (proto, addr)) \<Rightarrow>
          if proto = ''unix'' then do {
            let addr = ''/'' @ addr;
            err \<leftarrow> ne_Remove env addr;
            case err of
              Some e \<Rightarrow>
                if \<not> os_IsNotExist (Some e)
                then State_Monad.return (server s, Exited (''Failed to remove '' @ addr @ '', error: '' @ Error e))
                else serve_listen env proto addr ids cs ns s
            | None \<Rightarrow> serve_listen env proto addr ids cs ns s
          }
          else serve_listen env proto addr ids cs ns s)"

text \<open>\<open>Start\<close> counts the server in the wait group and starts \<open>serve\<close> in a goroutine of its own.\<close>

definition Start ::
    "('w, 'i, 'c, 'n) net_env \<Rightarrow> string \<Rightarrow> 'i iface \<Rightarrow> 'c iface \<Rightarrow> 'n iface \<Rightarrow>
     ('i, 'c, 'n) nonBlockingGRPCServer \<Rightarrow>
     ('i, 'c, 'n) nonBlockingGRPCServer \<times> ('w, ('i, 'c, 'n) grpc_server \<times> serve_end) action" where
  "Start env endpoint ids cs ns s =
     (let s' = s\<lparr>wg := wg s + 1\<rparr> in (s', serve env endpoint ids cs ns s'))"

text \<open>The two ways to stop call the library on the field as it is, and leave the wait group alone.\<close>

definition Stop ::
    "('w, 'i, 'c, 'n) net_env \<Rightarrow> ('i, 'c, 'n) nonBlockingGRPCServer \<Rightarrow>
     ('w, ('i, 'c, 'n) nonBlockingGRPCServer) action" where
  "Stop env s = do { ne_GracefulStop env (server s); State_Monad.return s }"

definition ForceStop ::
    "('w, 'i, 'c, 'n) net_env \<Rightarrow> ('i, 'c, 'n) nonBlockingGRPCServer \<Rightarrow>
     ('w, ('i, 'c, 'n) nonBlockingGRPCServer) action" where
  "ForceStop env s = do { ne_Stop env (server s); State_Monad.return s }"

text \<open>\<open>Wait\<close> returns when the counter of the wait group is 0.\<close>

definition Wait_returns :: "('i, 'c, 'n) nonBlockingGRPCServer \<Rightarrow> bool" where
  "Wait_returns s = (wg s = 0)"

text \<open>
  C39. An endpoint whose scheme is not in lower case is accepted and then cannot be served: on a system
  whose \<open>net.Listen\<close> knows networks by their lower-case names only, every endpoint that the parser
  accepts with another spelling of \<open>unix\<close> or \<open>tcp\<close> ends the process with a failure to listen, and the old
  socket is not removed.
\<close>

theorem serve_upper_case_fails:
  assumes "parseEndpoint ep = Some (Inr (proto, addr))" and "proto \<noteq> ToLower proto"
    and "\<forall>p a w. p \<noteq> ToLower p \<longrightarrow> (\<exists>err. run_state (ne_Listen env p a) w = (Inl err, w))"
  shows "\<exists>msg. run_state (serve env ep ids cs ns s) w = ((server s, Exited (''Failed to listen: '' @ msg)), w)"
proof -
  have "ToLower ''unix'' = ''unix''" by code_simp
  with assms(2) have "proto \<noteq> ''unix''" by auto
  moreover obtain err where "run_state (ne_Listen env proto addr) w = (Inl err, w)" using assms(2,3) by blast
  ultimately show ?thesis using assms(1) by (simp add: serve_def serve_listen_def)
qed

definition lower_net :: "(unit, unit, unit, unit) net_env" where
  "lower_net = \<lparr>ne_Remove = (\<lambda>_. State_Monad.return None),
     ne_Listen = (\<lambda>p _. State_Monad.return (if p = ToLower p then Inr 0 else Inl (LibErr False ''unknown network''))),
     ne_Serve = (\<lambda>_ _. State_Monad.return None), ne_GracefulStop = (\<lambda>_. State_Monad.return ()),
     ne_Stop = (\<lambda>_. State_Monad.return ())\<rparr>"

theorem serve_upper_case_fails_witness:
  "\<exists>msg. run_state (serve lower_net ''UNIX://csi.sock'' NilIface NilIface NilIface NewNonBlockingGRPCServer) () =
     ((server NewNonBlockingGRPCServer, Exited (''Failed to listen: '' @ msg)), ())"
proof (rule serve_upper_case_fails)
  show "parseEndpoint ''UNIX://csi.sock'' = Some (Inr (''UNIX'', ''csi.sock''))" by code_simp
  show "''UNIX'' \<noteq> ToLower ''UNIX''" by code_simp
qed (simp add: lower_net_def)

end
