(* ===== verification/Gateway_Client.thy ===== *)
theory Gateway_Client
  imports Go_Prelude
begin

text \<open>
  The client of the NVMe-oF gateway (\<^verbatim>\<open>proto/gateway.pb.go\<close>, \<^verbatim>\<open>proto/gateway_grpc.pb.go\<close>):
  the messages with the getters the driver calls, and the four methods over a gRPC connection. The
  gateway itself is another program: the connection is a parameter, a record of what
  \<^verbatim>\<open>Invoke\<close> does for each type of reply. A pointer to a message is an option, \<open>None\<close> the nil
  pointer, and so is a field of optional presence.
\<close>

section \<open>Requests\<close>

record NamespaceAddReq =
  nar_RbdPoolName :: string
  nar_RbdImageName :: string
  nar_SubsystemNqn :: string
  nar_Nsid :: "uint32 option"
  nar_BlockSize :: uint32
  nar_Uuid :: "string option"
  nar_Anagrpid :: "int32 option"
  nar_CreateImage :: "bool option"
  nar_Size :: "uint64 option"
  nar_Force :: "bool option"
  nar_NoAutoVisible :: "bool option"
  nar_TrashImage :: "bool option"
  nar_DisableAutoResize :: "bool option"

record NamespaceResizeReq =
  nrr_SubsystemNqn :: string
  nrr_Nsid :: uint32
  nrr_OBSOLETEUuid :: "string option"
  nrr_NewSize :: uint64

record NamespaceDeleteReq =
  ndr_SubsystemNqn :: string
  ndr_Nsid :: uint32
  ndr_OBSOLETEUuid :: "string option"
  ndr_IAmSure :: "bool option"

record ListNamespacesReq =
  lnr_Subsystem :: string
  lnr_Nsid :: "uint32 option"
  lnr_Uuid :: "string option"

section \<open>Replies\<close>

record ReqStatus =
  rs_Status :: int32
  rs_ErrorMessage :: string

record NsidStatus =
  nss_Status :: int32
  nss_ErrorMessage :: string
  nss_Nsid :: uint32

record NamespaceCli =
  nc_Nsid :: uint32
  nc_BdevName :: string
  nc_RbdImageName :: string
  nc_RbdPoolName :: string
  nc_LoadBalancingGroup :: uint32
  nc_BlockSize :: uint32
  nc_RbdImageSize :: uint64
  nc_Uuid :: string
  nc_RwIosPerSecond :: uint64
  nc_RwMbytesPerSecond :: uint64
  nc_RMbytesPerSecond :: uint64
  nc_WMbytesPerSecond :: uint64
  nc_AutoVisible :: bool
  nc_Hosts :: "string list"
  nc_NsSubsystemNqn :: "string option"
  nc_TrashImage :: "bool option"
  nc_DisableAutoResize :: "bool option"

record NamespacesInfo =
  ni_Status :: int32
  ni_ErrorMessage :: string
  ni_SubsystemNqn :: string
  ni_Namespaces :: "NamespaceCli option list"

text \<open>The getters; each gives the zero value on a nil pointer.\<close>

definition nil_get :: "('m \<Rightarrow> 'a) \<Rightarrow> 'a \<Rightarrow> 'm option \<Rightarrow> 'a" where
  "nil_get f z x = (case x of None \<Rightarrow> z | Some m \<Rightarrow> f m)"

lemma nil_get_simps [simp]: "nil_get f z None = z" "nil_get f z (Some m) = f m"
  by (simp_all add: nil_get_def)

definition ReqStatus_GetStatus :: "ReqStatus option \<Rightarrow> int32" where
  "ReqStatus_GetStatus = nil_get rs_Status 0"

definition ReqStatus_GetErrorMessage :: "ReqStatus option \<Rightarrow> string" where
  "ReqStatus_GetErrorMessage = nil_get rs_ErrorMessage []"

definition NsidStatus_GetStatus :: "NsidStatus option \<Rightarrow> int32" where
  "NsidStatus_GetStatus = nil_get nss_Status 0"

definition NsidStatus_GetErrorMessage :: "NsidStatus option \<Rightarrow> string" where
  "NsidStatus_GetErrorMessage = nil_get nss_ErrorMessage []"

definition NsidStatus_GetNsid :: "NsidStatus option \<Rightarrow> uint32" where
  "NsidStatus_GetNsid = nil_get nss_Nsid 0"

definition NamespaceCli_GetRbdImageName :: "NamespaceCli option \<Rightarrow> string" where
  "NamespaceCli_GetRbdImageName = nil_get nc_RbdImageName []"

definition NamespaceCli_GetUuid :: "NamespaceCli option \<Rightarrow> string" where
  "NamespaceCli_GetUuid = nil_get nc_Uuid []"

definition NamespacesInfo_GetNamespaces :: "NamespacesInfo option \<Rightarrow> NamespaceCli option list" where
  "NamespacesInfo_GetNamespaces = nil_get ni_Namespaces []"

lemmas getter_defs = ReqStatus_GetStatus_def ReqStatus_GetErrorMessage_def NsidStatus_GetStatus_def
  NsidStatus_GetErrorMessage_def NsidStatus_GetNsid_def NamespaceCli_GetRbdImageName_def
  NamespaceCli_GetUuid_def NamespacesInfo_GetNamespaces_def

section \<open>The client\<close>

abbreviation Gateway_NamespaceAdd_FullMethodName :: string where
  "Gateway_NamespaceAdd_FullMethodName \<equiv> ''/Gateway/namespace_add''"
abbreviation Gateway_NamespaceResize_FullMethodName :: string where
  "Gateway_NamespaceResize_FullMethodName \<equiv> ''/Gateway/namespace_resize''"
abbreviation Gateway_NamespaceDelete_FullMethodName :: string where
  "Gateway_NamespaceDelete_FullMethodName \<equiv> ''/Gateway/namespace_delete''"
abbreviation Gateway_ListNamespaces_FullMethodName :: string where
  "Gateway_ListNamespaces_FullMethodName \<equiv> ''/Gateway/list_namespaces''"

datatype gateway_request =
    AddReq NamespaceAddReq
  | ResizeReq NamespaceResizeReq
  | DeleteReq NamespaceDeleteReq
  | ListReq ListNamespacesReq

text \<open>
  \<open>cc.Invoke(ctx, method, in, out)\<close> for the three types of \<open>out\<close>: it fills a fresh reply or fails.
\<close>

record 'w ClientConn =
  Invoke_NsidStatus :: "string \<Rightarrow> gateway_request \<Rightarrow> ('w, NsidStatus res) action"
  Invoke_ReqStatus :: "string \<Rightarrow> gateway_request \<Rightarrow> ('w, ReqStatus res) action"
  Invoke_NamespacesInfo :: "string \<Rightarrow> gateway_request \<Rightarrow> ('w, NamespacesInfo res) action"

text \<open>The interface \<^verbatim>\<open>GatewayClient\<close>, whose methods return a pointer or an error.\<close>

record 'w GatewayClient =
  NamespaceAdd :: "NamespaceAddReq \<Rightarrow> ('w, NsidStatus option res) action"
  NamespaceResize :: "NamespaceResizeReq \<Rightarrow> ('w, ReqStatus option res) action"
  NamespaceDelete :: "NamespaceDeleteReq \<Rightarrow> ('w, ReqStatus option res) action"
  ListNamespaces :: "ListNamespacesReq \<Rightarrow> ('w, NamespacesInfo option res) action"

text \<open>\<open>if err != nil { return nil, err }; return out, nil\<close>.\<close>

definition client_result :: "('w, 'm res) action \<Rightarrow> ('w, 'm option res) action" where
  "client_result invoke = do {
     r \<leftarrow> invoke;
     case r of Inl err \<Rightarrow> State_Monad.return (Inl err) | Inr out \<Rightarrow> State_Monad.return (Inr (Some out))
   }"

definition gatewayClient_NamespaceAdd ::
    "'w ClientConn \<Rightarrow> NamespaceAddReq \<Rightarrow> ('w, NsidStatus option res) action" where
  "gatewayClient_NamespaceAdd cc i =
     client_result (Invoke_NsidStatus cc Gateway_NamespaceAdd_FullMethodName (AddReq i))"

definition gatewayClient_NamespaceResize ::
    "'w ClientConn \<Rightarrow> NamespaceResizeReq \<Rightarrow> ('w, ReqStatus option res) action" where
  "gatewayClient_NamespaceResize cc i =
     client_result (Invoke_ReqStatus cc Gateway_NamespaceResize_FullMethodName (ResizeReq i))"

definition gatewayClient_NamespaceDelete ::
    "'w ClientConn \<Rightarrow> NamespaceDeleteReq \<Rightarrow> ('w, ReqStatus option res) action" where
  "gatewayClient_NamespaceDelete cc i =
     client_result (Invoke_ReqStatus cc Gateway_NamespaceDelete_FullMethodName (DeleteReq i))"

definition gatewayClient_ListNamespaces ::
    "'w ClientConn \<Rightarrow> ListNamespacesReq \<Rightarrow> ('w, NamespacesInfo option res) action" where
  "gatewayClient_ListNamespaces cc i =
     client_result (Invoke_NamespacesInfo cc Gateway_ListNamespaces_FullMethodName (ListReq i))"

definition NewGatewayClient :: "'w ClientConn \<Rightarrow> 'w GatewayClient" where
  "NewGatewayClient cc =
     \<lparr>NamespaceAdd = gatewayClient_NamespaceAdd cc,
      NamespaceResize = gatewayClient_NamespaceResize cc,
      NamespaceDelete = gatewayClient_NamespaceDelete cc,
      ListNamespaces = gatewayClient_ListNamespaces cc\<rparr>"

section \<open>Running a call\<close>

lemma run_client_result [run_simps]:
  "run_state (client_result invoke) w = (map_sum id Some (fst (run_state invoke w)), snd (run_state invoke w))"
  by (simp add: client_result_def case_prod_beta Let_def split: sum.split)

lemmas gateway_client_defs = gatewayClient_NamespaceAdd_def gatewayClient_NamespaceResize_def
  gatewayClient_NamespaceDelete_def gatewayClient_ListNamespaces_def NewGatewayClient_def

end
