(* ===== verification/Gateway_Server.thy ===== *)
theory Gateway_Server
  imports Gateway_Client
begin

text \<open>
  The server half of \<^verbatim>\<open>proto/gateway_grpc.pb.go\<close>: the interface of a gateway, the server that
  implements no method, the four handlers and the description of the service by which the gRPC library
  finds them. The library itself is a parameter: the locale \<open>gateway_link\<close> says what the generated code
  relies on when a connection leads to a server. The driver has the client only; what is shown is that
  the two halves fit together, so that a client over such a connection is the server.
\<close>

section \<open>Servers\<close>

text \<open>The interface \<^verbatim>\<open>GatewayServer\<close>, whose methods return a pointer or an error.\<close>

record 'w GatewayServer =
  srv_NamespaceAdd :: "NamespaceAddReq \<Rightarrow> ('w, NsidStatus option res) action"
  srv_NamespaceResize :: "NamespaceResizeReq \<Rightarrow> ('w, ReqStatus option res) action"
  srv_NamespaceDelete :: "NamespaceDeleteReq \<Rightarrow> ('w, ReqStatus option res) action"
  srv_ListNamespaces :: "ListNamespacesReq \<Rightarrow> ('w, NamespacesInfo option res) action"

definition UnimplementedGatewayServer :: "'w GatewayServer" where
  "UnimplementedGatewayServer =
     \<lparr>srv_NamespaceAdd = (\<lambda>_. State_Monad.return (Inl (Status Unimplemented ''method NamespaceAdd not implemented''))),
      srv_NamespaceResize = (\<lambda>_. State_Monad.return (Inl (Status Unimplemented ''method NamespaceResize not implemented''))),
      srv_NamespaceDelete = (\<lambda>_. State_Monad.return (Inl (Status Unimplemented ''method NamespaceDelete not implemented''))),
      srv_ListNamespaces = (\<lambda>_. State_Monad.return (Inl (Status Unimplemented ''method ListNamespaces not implemented'')))\<rparr>"

section \<open>Handlers\<close>

text \<open>The zero values that the handlers decode into.\<close>

definition new_NamespaceAddReq :: NamespaceAddReq where
  "new_NamespaceAddReq =
     \<lparr>nar_RbdPoolName = [], nar_RbdImageName = [], nar_SubsystemNqn = [], nar_Nsid = None, nar_BlockSize = 0,
      nar_Uuid = None, nar_Anagrpid = None, nar_CreateImage = None, nar_Size = None, nar_Force = None,
      nar_NoAutoVisible = None, nar_TrashImage = None, nar_DisableAutoResize = None\<rparr>"

definition new_NamespaceResizeReq :: NamespaceResizeReq where
  "new_NamespaceResizeReq = \<lparr>nrr_SubsystemNqn = [], nrr_Nsid = 0, nrr_OBSOLETEUuid = None, nrr_NewSize = 0\<rparr>"

definition new_NamespaceDeleteReq :: NamespaceDeleteReq where
  "new_NamespaceDeleteReq = \<lparr>ndr_SubsystemNqn = [], ndr_Nsid = 0, ndr_OBSOLETEUuid = None, ndr_IAmSure = None\<rparr>"

definition new_ListNamespacesReq :: ListNamespacesReq where
  "new_ListNamespacesReq = \<lparr>lnr_Subsystem = [], lnr_Nsid = None, lnr_Uuid = None\<rparr>"

text \<open>The argument \<open>dec\<close> of a handler, which fills the message it is given or fails.\<close>

record decoder =
  dec_NamespaceAddReq :: "NamespaceAddReq \<Rightarrow> NamespaceAddReq res"
  dec_NamespaceResizeReq :: "NamespaceResizeReq \<Rightarrow> NamespaceResizeReq res"
  dec_NamespaceDeleteReq :: "NamespaceDeleteReq \<Rightarrow> NamespaceDeleteReq res"
  dec_ListNamespacesReq :: "ListNamespacesReq \<Rightarrow> ListNamespacesReq res"

text \<open>A reply as a value of an interface type, and what a handler comes to: \<open>None\<close> is a panic.\<close>

datatype gateway_reply =
    AddReply "NsidStatus option"
  | StatusReply "ReqStatus option"
  | ListReply "NamespacesInfo option"

type_synonym 'w handled = "('w, gateway_reply res option) action"

record 'w UnaryServerInfo =
  usi_Server :: "'w GatewayServer"
  usi_FullMethod :: string

type_synonym 'w UnaryServerInterceptor =
  "gateway_request \<Rightarrow> 'w UnaryServerInfo \<Rightarrow> (gateway_request \<Rightarrow> 'w handled) \<Rightarrow> 'w handled"

type_synonym 'w method_handler =
  "'w GatewayServer \<Rightarrow> decoder \<Rightarrow> 'w UnaryServerInterceptor option \<Rightarrow> 'w handled"

text \<open>The result of a method where an interface value is returned.\<close>

definition as_reply :: "('m option \<Rightarrow> gateway_reply) \<Rightarrow> ('w, 'm option res) action \<Rightarrow> 'w handled" where
  "as_reply C act = do {
     r \<leftarrow> act;
     State_Monad.return (Some (case r of Inl err \<Rightarrow> Inl err | Inr m \<Rightarrow> Inr (C m)))
   }"

definition Gateway_NamespaceAdd_Handler :: "'w method_handler" where
  "Gateway_NamespaceAdd_Handler srv dec interceptor = (case dec_NamespaceAddReq dec new_NamespaceAddReq of
      Inl err \<Rightarrow> State_Monad.return (Some (Inl err))
    | Inr i \<Rightarrow> (case interceptor of
        None \<Rightarrow> as_reply AddReply (srv_NamespaceAdd srv i)
      | Some f \<Rightarrow> f (AddReq i) \<lparr>usi_Server = srv, usi_FullMethod = Gateway_NamespaceAdd_FullMethodName\<rparr>
          (\<lambda>req. case req of
             AddReq r \<Rightarrow> as_reply AddReply (srv_NamespaceAdd srv r)
           | _ \<Rightarrow> State_Monad.return None)))"

definition Gateway_NamespaceResize_Handler :: "'w method_handler" where
  "Gateway_NamespaceResize_Handler srv dec interceptor = (case dec_NamespaceResizeReq dec new_NamespaceResizeReq of
      Inl err \<Rightarrow> State_Monad.return (Some (Inl err))
    | Inr i \<Rightarrow> (case interceptor of
        None \<Rightarrow> as_reply StatusReply (srv_NamespaceResize srv i)
      | Some f \<Rightarrow> f (ResizeReq i) \<lparr>usi_Server = srv, usi_FullMethod = Gateway_NamespaceResize_FullMethodName\<rparr>
          (\<lambda>req. case req of
             ResizeReq r \<Rightarrow> as_reply StatusReply (srv_NamespaceResize srv r)
           | _ \<Rightarrow> State_Monad.return None)))"

definition Gateway_NamespaceDelete_Handler :: "'w method_handler" where
  "Gateway_NamespaceDelete_Handler srv dec interceptor = (case dec_NamespaceDeleteReq dec new_NamespaceDeleteReq of
      Inl err \<Rightarrow> State_Monad.return (Some (Inl err))
    | Inr i \<Rightarrow> (case interceptor of
        None \<Rightarrow> as_reply StatusReply (srv_NamespaceDelete srv i)
      | Some f \<Rightarrow> f (DeleteReq i) \<lparr>usi_Server = srv, usi_FullMethod = Gateway_NamespaceDelete_FullMethodName\<rparr>
          (\<lambda>req. case req of
             DeleteReq r \<Rightarrow> as_reply StatusReply (srv_NamespaceDelete srv r)
           | _ \<Rightarrow> State_Monad.return None)))"

definition Gateway_ListNamespaces_Handler :: "'w method_handler" where
  "Gateway_ListNamespaces_Handler srv dec interceptor = (case dec_ListNamespacesReq dec new_ListNamespacesReq of
      Inl err \<Rightarrow> State_Monad.return (Some (Inl err))
    | Inr i \<Rightarrow> (case interceptor of
        None \<Rightarrow> as_reply ListReply (srv_ListNamespaces srv i)
      | Some f \<Rightarrow> f (ListReq i) \<lparr>usi_Server = srv, usi_FullMethod = Gateway_ListNamespaces_FullMethodName\<rparr>
          (\<lambda>req. case req of
             ListReq r \<Rightarrow> as_reply ListReply (srv_ListNamespaces srv r)
           | _ \<Rightarrow> State_Monad.return None)))"

section \<open>The service\<close>

record 'w ServiceDesc =
  sd_ServiceName :: string
  sd_Methods :: "(string \<times> 'w method_handler) list"

definition Gateway_ServiceDesc :: "'w ServiceDesc" where
  "Gateway_ServiceDesc =
     \<lparr>sd_ServiceName = ''Gateway'',
      sd_Methods =
        [(''namespace_add'', Gateway_NamespaceAdd_Handler),
         (''namespace_resize'', Gateway_NamespaceResize_Handler),
         (''namespace_delete'', Gateway_NamespaceDelete_Handler),
         (''list_namespaces'', Gateway_ListNamespaces_Handler)]\<rparr>"

text \<open>
  How a server embeds \<^verbatim>\<open>UnimplementedGatewayServer\<close>. Calling a method of it through a nil pointer
  panics, which registering provokes early. \<open>register\<close> is \<open>s.RegisterService\<close>.
\<close>

datatype embedding = Embedded_value | Embedded_pointer | Embedded_nil | Not_embedded

definition RegisterGatewayServer ::
    "('w ServiceDesc \<Rightarrow> 'w GatewayServer \<Rightarrow> ('s, unit) action) \<Rightarrow> embedding \<Rightarrow> 'w GatewayServer \<Rightarrow> ('s, unit option) action" where
  "RegisterGatewayServer register e srv =
     (if e = Embedded_nil then State_Monad.return None
      else do { register Gateway_ServiceDesc srv; State_Monad.return (Some ()) })"

lemmas handler_defs = Gateway_NamespaceAdd_Handler_def Gateway_NamespaceResize_Handler_def
  Gateway_NamespaceDelete_Handler_def Gateway_ListNamespaces_Handler_def

section \<open>A connection to a server\<close>

text \<open>
  What gRPC promises of a connection to a server on which the service is registered: a call of the
  method \<open>/service/method\<close> runs the handler that the description has for it, with a decoder that fills in
  the message that was sent and with the interceptor of the server; a reply and a status error arrive
  as they are.
\<close>

locale gateway_link =
  fixes cc :: "'w ClientConn" and srv :: "'w GatewayServer" and itc :: "'w UnaryServerInterceptor option"
    and sent :: "gateway_request \<Rightarrow> decoder"
  assumes sent: "dec_NamespaceAddReq (sent (AddReq a)) a0 = Inr a"
      "dec_NamespaceResizeReq (sent (ResizeReq r)) r0 = Inr r"
      "dec_NamespaceDeleteReq (sent (DeleteReq d)) d0 = Inr d"
      "dec_ListNamespacesReq (sent (ListReq l)) l0 = Inr l"
    and add_reply: "map_of (sd_Methods Gateway_ServiceDesc) n = Some h \<Longrightarrow>
      run_state (h srv (sent req) itc) w = (Some (Inr (AddReply (Some m))), w') \<Longrightarrow>
      run_state (Invoke_NsidStatus cc (''/'' @ sd_ServiceName (Gateway_ServiceDesc :: 'w ServiceDesc) @ ''/'' @ n) req) w = (Inr m, w')"
    and add_error: "map_of (sd_Methods Gateway_ServiceDesc) n = Some h \<Longrightarrow>
      run_state (h srv (sent req) itc) w = (Some (Inl (Status c t)), w') \<Longrightarrow>
      run_state (Invoke_NsidStatus cc (''/'' @ sd_ServiceName (Gateway_ServiceDesc :: 'w ServiceDesc) @ ''/'' @ n) req) w = (Inl (Status c t), w')"
    and status_reply: "map_of (sd_Methods Gateway_ServiceDesc) n = Some h \<Longrightarrow>
      run_state (h srv (sent req) itc) w = (Some (Inr (StatusReply (Some s))), w') \<Longrightarrow>
      run_state (Invoke_ReqStatus cc (''/'' @ sd_ServiceName (Gateway_ServiceDesc :: 'w ServiceDesc) @ ''/'' @ n) req) w = (Inr s, w')"
    and status_error: "map_of (sd_Methods Gateway_ServiceDesc) n = Some h \<Longrightarrow>
      run_state (h srv (sent req) itc) w = (Some (Inl (Status c t)), w') \<Longrightarrow>
      run_state (Invoke_ReqStatus cc (''/'' @ sd_ServiceName (Gateway_ServiceDesc :: 'w ServiceDesc) @ ''/'' @ n) req) w = (Inl (Status c t), w')"
    and list_reply: "map_of (sd_Methods Gateway_ServiceDesc) n = Some h \<Longrightarrow>
      run_state (h srv (sent req) itc) w = (Some (Inr (ListReply (Some i))), w') \<Longrightarrow>
      run_state (Invoke_NamespacesInfo cc (''/'' @ sd_ServiceName (Gateway_ServiceDesc :: 'w ServiceDesc) @ ''/'' @ n) req) w = (Inr i, w')"
    and list_error: "map_of (sd_Methods Gateway_ServiceDesc) n = Some h \<Longrightarrow>
      run_state (h srv (sent req) itc) w = (Some (Inl (Status c t)), w') \<Longrightarrow>
      run_state (Invoke_NamespacesInfo cc (''/'' @ sd_ServiceName (Gateway_ServiceDesc :: 'w ServiceDesc) @ ''/'' @ n) req) w = (Inl (Status c t), w')"

text \<open>
  A server that answers each call with a reply or with a status error, and an interceptor that hands the
  handler's result through, as the driver's own \<open>logGRPC\<close> does.
\<close>

definition answers :: "('w, 'm option res) action \<Rightarrow> bool" where
  "answers act \<longleftrightarrow> (\<forall>w r w'. run_state act w = (r, w') \<longrightarrow> (\<exists>m. r = Inr (Some m)) \<or> (\<exists>c t. r = Inl (Status c t)))"

locale status_server =
  fixes srv :: "'w GatewayServer"
  assumes answers: "answers (srv_NamespaceAdd srv a)" "answers (srv_NamespaceResize srv r)"
    "answers (srv_NamespaceDelete srv d)" "answers (srv_ListNamespaces srv l)"

lemma service_methods:
  "map_of (sd_Methods Gateway_ServiceDesc) ''namespace_add'' = Some Gateway_NamespaceAdd_Handler"
  "map_of (sd_Methods Gateway_ServiceDesc) ''namespace_resize'' = Some Gateway_NamespaceResize_Handler"
  "map_of (sd_Methods Gateway_ServiceDesc) ''namespace_delete'' = Some Gateway_NamespaceDelete_Handler"
  "map_of (sd_Methods Gateway_ServiceDesc) ''list_namespaces'' = Some Gateway_ListNamespaces_Handler"
  by (simp_all add: Gateway_ServiceDesc_def)

lemma service_name [simp]: "sd_ServiceName Gateway_ServiceDesc = ''Gateway''"
  by (simp add: Gateway_ServiceDesc_def)

locale gateway_served = gateway_link + status_server +
  assumes transparent: "itc = Some f \<Longrightarrow> f req i h = h req"
begin

lemma handler_runs:
  "Gateway_NamespaceAdd_Handler srv (sent (AddReq a)) itc = as_reply AddReply (srv_NamespaceAdd srv a)"
  "Gateway_NamespaceResize_Handler srv (sent (ResizeReq r)) itc = as_reply StatusReply (srv_NamespaceResize srv r)"
  "Gateway_NamespaceDelete_Handler srv (sent (DeleteReq d)) itc = as_reply StatusReply (srv_NamespaceDelete srv d)"
  "Gateway_ListNamespaces_Handler srv (sent (ListReq l)) itc = as_reply ListReply (srv_ListNamespaces srv l)"
  by (simp_all add: handler_defs sent transparent split: option.split)

text \<open>The reply of a method of the server, run through the client.\<close>

lemma through_client:
  assumes ans: "answers act"
    and reply: "\<And>m w w'. run_state (as_reply C act) w = (Some (Inr (C (Some m))), w') \<Longrightarrow> run_state invoke w = (Inr m, w')"
    and err: "\<And>c t w w'. run_state (as_reply C act) w = (Some (Inl (Status c t)), w') \<Longrightarrow> run_state invoke w = (Inl (Status c t), w')"
  shows "client_result invoke = act"
proof -
  have "run_state (client_result invoke) w = run_state act w" for w
  proof -
    obtain r w' where run: "run_state act w = (r, w')" by fastforce
    from ans run consider m where "r = Inr (Some m)" | c t where "r = Inl (Status c t)"
      unfolding answers_def by blast
    then show ?thesis
    proof cases
      case 1
      with run have "run_state (as_reply C act) w = (Some (Inr (C (Some m))), w')" by (simp add: as_reply_def)
      from reply [OF this] 1 run show ?thesis by (simp add: run_client_result)
    next
      case 2
      with run have "run_state (as_reply C act) w = (Some (Inl (Status c t)), w')" by (simp add: as_reply_def)
      from err [OF this] 2 run show ?thesis by (simp add: run_client_result)
    qed
  qed
  then show ?thesis by (cases "client_result invoke"; cases act) (auto simp: fun_eq_iff)
qed

lemma client_is_server:
  "gatewayClient_NamespaceAdd cc a = srv_NamespaceAdd srv a"
  "gatewayClient_NamespaceResize cc r = srv_NamespaceResize srv r"
  "gatewayClient_NamespaceDelete cc d = srv_NamespaceDelete srv d"
  "gatewayClient_ListNamespaces cc l = srv_ListNamespaces srv l"
proof -
  note add = add_reply [OF service_methods(1), of "AddReq a", unfolded handler_runs service_name, simplified]
    add_error [OF service_methods(1), of "AddReq a", unfolded handler_runs service_name, simplified]
  show "gatewayClient_NamespaceAdd cc a = srv_NamespaceAdd srv a"
    unfolding gatewayClient_NamespaceAdd_def by (rule through_client [OF answers(1)]) (fact add)+
  note resize = status_reply [OF service_methods(2), of "ResizeReq r", unfolded handler_runs service_name, simplified]
    status_error [OF service_methods(2), of "ResizeReq r", unfolded handler_runs service_name, simplified]
  show "gatewayClient_NamespaceResize cc r = srv_NamespaceResize srv r"
    unfolding gatewayClient_NamespaceResize_def by (rule through_client [OF answers(2)]) (fact resize)+
  note delete = status_reply [OF service_methods(3), of "DeleteReq d", unfolded handler_runs service_name, simplified]
    status_error [OF service_methods(3), of "DeleteReq d", unfolded handler_runs service_name, simplified]
  show "gatewayClient_NamespaceDelete cc d = srv_NamespaceDelete srv d"
    unfolding gatewayClient_NamespaceDelete_def by (rule through_client [OF answers(3)]) (fact delete)+
  note list = list_reply [OF service_methods(4), of "ListReq l", unfolded handler_runs service_name, simplified]
    list_error [OF service_methods(4), of "ListReq l", unfolded handler_runs service_name, simplified]
  show "gatewayClient_ListNamespaces cc l = srv_ListNamespaces srv l"
    unfolding gatewayClient_ListNamespaces_def by (rule through_client [OF answers(4)]) (fact list)+
qed

end

section \<open>A gateway in memory\<close>

text \<open>
  A gateway that keeps its namespaces in a list and assigns increasing IDs, served over a connection
  that dispatches on the method name. It is the world in which the properties that quantify over a
  gateway are applied to concrete calls.
\<close>

record gateway_mem =
  gm_next :: uint32
  gm_namespaces :: "NamespaceCli list"

definition mem_namespace :: "NamespaceAddReq \<Rightarrow> uint32 \<Rightarrow> NamespaceCli" where
  "mem_namespace req nsid =
     \<lparr>nc_Nsid = nsid, nc_BdevName = [], nc_RbdImageName = nar_RbdImageName req,
      nc_RbdPoolName = nar_RbdPoolName req, nc_LoadBalancingGroup = 0, nc_BlockSize = nar_BlockSize req,
      nc_RbdImageSize = nil_get id 0 (nar_Size req), nc_Uuid = ''uuid-'' @ dec_of_nat (unat nsid),
      nc_RwIosPerSecond = 0, nc_RwMbytesPerSecond = 0, nc_RMbytesPerSecond = 0, nc_WMbytesPerSecond = 0,
      nc_AutoVisible = True, nc_Hosts = [], nc_NsSubsystemNqn = Some (nar_SubsystemNqn req),
      nc_TrashImage = None, nc_DisableAutoResize = None\<rparr>"

text \<open>An image that a namespace uses is refused unless the request forces it, and so is an ID in use.\<close>

definition mem_add :: "NamespaceAddReq \<Rightarrow> gateway_mem \<Rightarrow> NsidStatus \<times> gateway_mem" where
  "mem_add req g =
     (if nar_Force req \<noteq> Some True \<and>
         list_ex (\<lambda>n. nc_RbdPoolName n = nar_RbdPoolName req \<and> nc_RbdImageName n = nar_RbdImageName req) (gm_namespaces g)
      then (\<lparr>nss_Status = 17, nss_ErrorMessage = ''RBD image is already used by a namespace'', nss_Nsid = 0\<rparr>, g)
      else if list_ex (\<lambda>n. nc_Nsid n = gm_next g) (gm_namespaces g)
      then (\<lparr>nss_Status = 17, nss_ErrorMessage = ''Namespace ID is in use'', nss_Nsid = 0\<rparr>, g)
      else (\<lparr>nss_Status = 0, nss_ErrorMessage = [], nss_Nsid = gm_next g\<rparr>,
            \<lparr>gm_next = gm_next g + 1, gm_namespaces = gm_namespaces g @ [mem_namespace req (gm_next g)]\<rparr>))"

definition mem_delete :: "NamespaceDeleteReq \<Rightarrow> gateway_mem \<Rightarrow> ReqStatus \<times> gateway_mem" where
  "mem_delete req g =
     (let this = (\<lambda>n. nc_Nsid n = ndr_Nsid req \<and> nc_NsSubsystemNqn n = Some (ndr_SubsystemNqn req))
      in if list_ex this (gm_namespaces g)
         then (\<lparr>rs_Status = 0, rs_ErrorMessage = []\<rparr>,
               g\<lparr>gm_namespaces := filter (\<lambda>n. \<not> this n) (gm_namespaces g)\<rparr>)
         else (\<lparr>rs_Status = 2, rs_ErrorMessage = ''Can't find namespace''\<rparr>, g))"

definition mem_list :: "ListNamespacesReq \<Rightarrow> gateway_mem \<Rightarrow> NamespacesInfo" where
  "mem_list req g =
     \<lparr>ni_Status = 0, ni_ErrorMessage = [], ni_SubsystemNqn = lnr_Subsystem req,
      ni_Namespaces = map Some (filter (\<lambda>n. nc_NsSubsystemNqn n = Some (lnr_Subsystem req)) (gm_namespaces g))\<rparr>"

text \<open>
  The server embeds \<^verbatim>\<open>UnimplementedGatewayServer\<close> by value and implements three of the methods.
\<close>

definition mem_server :: "gateway_mem GatewayServer" where
  "mem_server = UnimplementedGatewayServer
     \<lparr>srv_NamespaceAdd := (\<lambda>a. State (\<lambda>g. let (s, g') = mem_add a g in (Inr (Some s), g'))),
      srv_NamespaceDelete := (\<lambda>d. State (\<lambda>g. let (s, g') = mem_delete d g in (Inr (Some s), g'))),
      srv_ListNamespaces := (\<lambda>l. State (\<lambda>g. (Inr (Some (mem_list l g)), g)))\<rparr>"

text \<open>
  A connection inside the process: a call goes to the handler of the method that is asked for, and the
  message itself is what the handler decodes.
\<close>

abbreviation no_message :: "'m res" where
  "no_message \<equiv> Inl (Status Internal ''unexpected message'')"

abbreviation no_method :: go_error where
  "no_method \<equiv> Status Unimplemented ''unknown method''"

definition loop_decoder :: "gateway_request \<Rightarrow> decoder" where
  "loop_decoder req =
     \<lparr>dec_NamespaceAddReq = (\<lambda>_. case req of AddReq a \<Rightarrow> Inr a | _ \<Rightarrow> no_message),
      dec_NamespaceResizeReq = (\<lambda>_. case req of ResizeReq r \<Rightarrow> Inr r | _ \<Rightarrow> no_message),
      dec_NamespaceDeleteReq = (\<lambda>_. case req of DeleteReq d \<Rightarrow> Inr d | _ \<Rightarrow> no_message),
      dec_ListNamespacesReq = (\<lambda>_. case req of ListReq l \<Rightarrow> Inr l | _ \<Rightarrow> no_message)\<rparr>"

definition loop_result :: "(gateway_reply \<Rightarrow> 'm option) \<Rightarrow> gateway_reply res option \<Rightarrow> 'm res" where
  "loop_result get r = (case r of
      Some (Inl err) \<Rightarrow> Inl err
    | Some (Inr reply) \<Rightarrow> (case get reply of Some m \<Rightarrow> Inr m | None \<Rightarrow> no_message)
    | None \<Rightarrow> Inl (Status Unavailable ''connection closed''))"

definition loop_invoke :: "'w GatewayServer \<Rightarrow> 'w UnaryServerInterceptor option \<Rightarrow> (gateway_reply \<Rightarrow> 'm option) \<Rightarrow>
    string \<Rightarrow> gateway_request \<Rightarrow> ('w, 'm res) action" where
  "loop_invoke srv itc get m req =
     (case map_of (map (\<lambda>(n, h). (''/'' @ sd_ServiceName (Gateway_ServiceDesc :: 'w ServiceDesc) @ ''/'' @ n, h))
         (sd_Methods Gateway_ServiceDesc)) m of
        None \<Rightarrow> State_Monad.return (Inl no_method)
      | Some h \<Rightarrow> do { r \<leftarrow> h srv (loop_decoder req) itc; State_Monad.return (loop_result get r) })"

definition loop_conn :: "'w GatewayServer \<Rightarrow> 'w UnaryServerInterceptor option \<Rightarrow> 'w ClientConn" where
  "loop_conn srv itc =
     \<lparr>Invoke_NsidStatus = loop_invoke srv itc (\<lambda>r. case r of AddReply m \<Rightarrow> m | _ \<Rightarrow> None),
      Invoke_ReqStatus = loop_invoke srv itc (\<lambda>r. case r of StatusReply m \<Rightarrow> m | _ \<Rightarrow> None),
      Invoke_NamespacesInfo = loop_invoke srv itc (\<lambda>r. case r of ListReply m \<Rightarrow> m | _ \<Rightarrow> None)\<rparr>"

lemma loop_decodes:
  "dec_NamespaceAddReq (loop_decoder (AddReq a)) z = Inr a"
  "dec_NamespaceResizeReq (loop_decoder (ResizeReq r)) zr = Inr r"
  "dec_NamespaceDeleteReq (loop_decoder (DeleteReq d)) zd = Inr d"
  "dec_ListNamespacesReq (loop_decoder (ListReq l)) zl = Inr l"
  by (simp_all add: loop_decoder_def)

lemma loop_method:
  fixes srv :: "'w GatewayServer"
  assumes "map_of (sd_Methods Gateway_ServiceDesc) n = Some h"
  shows "loop_invoke srv itc get (''/Gateway/'' @ n) req =
    do { r \<leftarrow> h srv (loop_decoder req) itc; State_Monad.return (loop_result get r) }"
proof -
  have "map_of (map (\<lambda>(n, h). (''/Gateway/'' @ n, h)) ms) (''/Gateway/'' @ n) = map_of ms n"
    for ms :: "(string \<times> 'w method_handler) list"
    by (induction ms) auto
  with assms show ?thesis by (simp add: loop_invoke_def)
qed

interpretation loop_link: gateway_link "loop_conn srv itc" srv itc loop_decoder for srv itc
  by unfold_locales (simp_all add: loop_decodes loop_conn_def loop_method [simplified] loop_result_def)

interpretation mem_serves: status_server mem_server
  by unfold_locales (auto simp: answers_def mem_server_def UnimplementedGatewayServer_def case_prod_beta Let_def)

text \<open>The connection that the controller has to the gateway in memory.\<close>

definition mem_conn :: "gateway_mem ClientConn" where
  "mem_conn = loop_conn mem_server None"

interpretation mem_served: gateway_served mem_conn mem_server None loop_decoder
  unfolding mem_conn_def by unfold_locales simp

lemma run_mem_client [run_simps]:
  "run_state (NamespaceAdd (NewGatewayClient mem_conn) a) g = (Inr (Some (fst (mem_add a g))), snd (mem_add a g))"
  "run_state (NamespaceDelete (NewGatewayClient mem_conn) d) g = (Inr (Some (fst (mem_delete d g))), snd (mem_delete d g))"
  "run_state (ListNamespaces (NewGatewayClient mem_conn) l) g = (Inr (Some (mem_list l g)), g)"
  by (simp_all add: NewGatewayClient_def mem_served.client_is_server mem_server_def case_prod_beta Let_def)

section \<open>The two halves fit\<close>

text \<open>
  C38. The client and the server that the interface description is compiled to fit together: over a
  connection that leads to a server, each method of the client does exactly what that method of the server
  does, in its effect, its reply and its error. So the names under which the client calls the methods are those under
  which the service registers them, and no handler calls the method of another.
\<close>

theorem gateway_client_is_server:
  assumes "gateway_served cc srv itc sent"
  shows "NewGatewayClient cc =
    \<lparr>NamespaceAdd = srv_NamespaceAdd srv, NamespaceResize = srv_NamespaceResize srv,
     NamespaceDelete = srv_NamespaceDelete srv, ListNamespaces = srv_ListNamespaces srv\<rparr>"
  by (simp add: NewGatewayClient_def fun_eq_iff gateway_served.client_is_server [OF assms])

text \<open>The server in memory does not implement resizing, and a client learns that and changes nothing.\<close>

theorem gateway_client_is_server_witness:
  "\<forall>g. run_state (NamespaceResize (NewGatewayClient mem_conn) new_NamespaceResizeReq) g =
     (Inl (Status Unimplemented ''method NamespaceResize not implemented''), g)"
  unfolding gateway_client_is_server [OF mem_served.gateway_served_axioms]
  by (simp add: mem_server_def UnimplementedGatewayServer_def)

end
