(* ===== verification/Controller_Server.thy ===== *)
theory Controller_Server
  imports Volume_Locks Volume_Id Csi_Common Gateway_Server
begin

text \<open>
  The controller service (\<^verbatim>\<open>pkg/driver/controllerserver.go\<close>). The handlers run on a pair of
  the lock table and the outside world: \<^verbatim>\<open>volumeLocks\<close> is shared by all handlers through a
  pointer, and the gateway client acts on the world. The context time-outs end in an error of the
  gateway call, which is one of the results the client may give.
\<close>

section \<open>Messages\<close>

record 'src CreateVolumeRequest =
  cvr_Name :: string
  cvr_CapacityRange :: "int64 option"
  cvr_Parameters :: "string go_map option"
  cvr_VolumeContentSource :: "'src option"

record 'src Volume =
  VolumeId :: string
  CapacityBytes :: int64
  VolumeContext :: "string go_map option"
  ContentSource :: "'src option"

record ControllerPublishVolumeRequest =
  cpr_VolumeId :: string
  cpr_NodeId :: string
  cpr_VolumeContext :: "string go_map option"

record ControllerUnpublishVolumeRequest =
  cur_VolumeId :: string
  cur_NodeId :: string

record DeleteVolumeRequest =
  dvr_VolumeId :: string

text \<open>\<open>Confirmed\<close> carries the capabilities of the request; \<open>Message\<close> is the other field.\<close>

record ValidateVolumeCapabilitiesResponse =
  Confirmed :: "VolumeCapability option list option"
  Message :: string

text \<open>\<open>req.GetCapacityRange().GetRequiredBytes()\<close>; the capacity range is given by its required bytes.\<close>

definition GetRequiredBytes :: "'src CreateVolumeRequest \<Rightarrow> int64" where
  "GetRequiredBytes req = (case cvr_CapacityRange req of None \<Rightarrow> 0 | Some b \<Rightarrow> b)"

section \<open>The server\<close>

record 'w controllerServer =
  cs_defaultImpl :: DefaultControllerServer
  cs_gatewayClient :: "'w GatewayClient"
  cs_grpcConn :: "'w ClientConn"

abbreviation param :: "'src CreateVolumeRequest \<Rightarrow> string \<Rightarrow> string" where
  "param req k \<equiv> go_index_nil (cvr_Parameters req) k"

definition volume_size :: "'src CreateVolumeRequest \<Rightarrow> int64" where
  "volume_size req =
     (let size = GetRequiredBytes req in if size = 0 then 1 * 200 * 1024 * 1024 else size)"

definition namespace_add_req :: "'src CreateVolumeRequest \<Rightarrow> NamespaceAddReq" where
  "namespace_add_req req =
     \<lparr>nar_RbdPoolName = param req ''RbdPoolName'',
      nar_RbdImageName = cvr_Name req,
      nar_SubsystemNqn = param req ''SubsystemNqn'',
      nar_Nsid = None,
      nar_BlockSize = 4096,
      nar_Uuid = None,
      nar_Anagrpid = None,
      nar_CreateImage = Some True,
      nar_Size = Some (ucast (volume_size req)),
      nar_Force = None,
      nar_NoAutoVisible = Some False,
      nar_TrashImage = None,
      nar_DisableAutoResize = Some False\<rparr>"

text \<open>The part of \<open>createVolume\<close> after the gateway's reply.\<close>

definition created_volume :: "'src CreateVolumeRequest \<Rightarrow> uint32 \<Rightarrow> 'src Volume res" where
  "created_volume req nsid =
     (case encodeVolumeID \<lparr>NSID = nsid, NQN = nar_SubsystemNqn (namespace_add_req req), VolumeName = cvr_Name req\<rparr> of
        Inl err \<Rightarrow> Inl (Wrapf ''failed to encode volume ID: '' err)
      | Inr volumeID \<Rightarrow> Inr
          \<lparr>VolumeId = volumeID,
           CapacityBytes = volume_size req,
           VolumeContext = Some
             [(''nqn'', nar_SubsystemNqn (namespace_add_req req)),
              (''traddr'', param req ''traddr''),
              (''trsvcid'', param req ''trsvcid''),
              (''transport'', param req ''transport''),
              (''image'', nar_RbdImageName (namespace_add_req req))],
           ContentSource = cvr_VolumeContentSource req\<rparr>)"

definition createVolume :: "'w controllerServer \<Rightarrow> 'src CreateVolumeRequest \<Rightarrow> ('w, 'src Volume res) action" where
  "createVolume cs req = do {
     r \<leftarrow> NamespaceAdd (cs_gatewayClient cs) (namespace_add_req req);
     case r of
       Inl err \<Rightarrow> State_Monad.return (Inl (Wrapf ''gateway NamespaceAdd failed: '' err))
     | Inr resp \<Rightarrow>
         if NsidStatus_GetStatus resp \<noteq> 0
         then State_Monad.return
           (Inl (Errorf (''gateway NamespaceAdd returned error: '' @ NsidStatus_GetErrorMessage resp)))
         else State_Monad.return (created_volume req (NsidStatus_GetNsid resp))
   }"

text \<open>The volume context with the parameters of the request copied over it.\<close>

definition add_parameters :: "'src CreateVolumeRequest \<Rightarrow> 'src Volume \<Rightarrow> 'src Volume" where
  "add_parameters req vol =
     (let ctx = (case VolumeContext vol of None \<Rightarrow> [] | Some m \<Rightarrow> m);
          params = (case cvr_Parameters req of None \<Rightarrow> [] | Some m \<Rightarrow> m)
      in vol\<lparr>VolumeContext := Some (go_copy params ctx)\<rparr>)"

definition CreateVolume_body ::
    "'w controllerServer \<Rightarrow> 'src CreateVolumeRequest \<Rightarrow> ('w, 'src Volume res) action" where
  "CreateVolume_body cs req = do {
     r \<leftarrow> createVolume cs req;
     case r of
       Inl err \<Rightarrow> State_Monad.return (Inl (Status Internal (Error err)))
     | Inr csiVolume \<Rightarrow> State_Monad.return (Inr (add_parameters req csiVolume))
   }"

definition CreateVolume ::
    "'w controllerServer \<Rightarrow> 'src CreateVolumeRequest \<Rightarrow> VolumeLocks \<times> 'w \<Rightarrow>
     ('src Volume res \<times> VolumeLocks \<times> 'w) run" where
  "CreateVolume cs req = with_lock (cvr_Name req) (CreateVolume_body cs req)"

text \<open>The two loops of \<open>ValidateVolumeCapabilities\<close>.\<close>

fun mode_supported :: "int32 \<Rightarrow> AccessMode list \<Rightarrow> bool" where
  "mode_supported m [] = False"
| "mode_supported m (a # as) = (if m = Mode a then True else mode_supported m as)"

fun all_supported :: "VolumeCapability option list \<Rightarrow> AccessMode list \<Rightarrow> bool" where
  "all_supported [] as = True"
| "all_supported (c # cs) as =
     (if \<not> mode_supported (GetAccessMode_GetMode c) as then False else all_supported cs as)"

definition ValidateVolumeCapabilities ::
    "'w controllerServer \<Rightarrow> VolumeCapability option list \<Rightarrow> ValidateVolumeCapabilitiesResponse res" where
  "ValidateVolumeCapabilities cs caps =
     (if \<not> all_supported caps (GetVolumeCapabilityAccessModes (dcs_Driver (cs_defaultImpl cs)))
      then Inr \<lparr>Confirmed = None, Message = []\<rparr>
      else Inr \<lparr>Confirmed = Some caps, Message = []\<rparr>)"

text \<open>The loop over the namespaces: the UUID of the first one with the image, empty if there is none.\<close>

fun find_uuid :: "string \<Rightarrow> NamespaceCli option list \<Rightarrow> string" where
  "find_uuid imageName [] = []"
| "find_uuid imageName (ns # nss) =
     (if NamespaceCli_GetRbdImageName ns = imageName then NamespaceCli_GetUuid ns else find_uuid imageName nss)"

definition ControllerPublishVolume ::
    "'w controllerServer \<Rightarrow> ControllerPublishVolumeRequest \<Rightarrow> ('w, string go_map res) action" where
  "ControllerPublishVolume cs req = do {
     let nqn = go_index_nil (cpr_VolumeContext req) ''nqn'';
     r \<leftarrow> ListNamespaces (cs_gatewayClient cs) \<lparr>lnr_Subsystem = nqn, lnr_Nsid = None, lnr_Uuid = None\<rparr>;
     case r of
       Inl err \<Rightarrow> State_Monad.return (Inl (Wrapf ''failed to list namespaces: '' err))
     | Inr nsListResp \<Rightarrow> do {
         let imageName = go_index_nil (cpr_VolumeContext req) ''image'';
         let targetUUID = find_uuid imageName (NamespacesInfo_GetNamespaces nsListResp);
         if targetUUID = []
         then State_Monad.return (Inl (Errorf (''UUID not found for volume '' @ cpr_VolumeId req)))
         else State_Monad.return (Inr
           [(''uuid'', targetUUID),
            (''nqn'', nqn),
            (''traddr'', go_index_nil (cpr_VolumeContext req) ''traddr''),
            (''trsvcid'', go_index_nil (cpr_VolumeContext req) ''trsvcid''),
            (''transport'', go_index_nil (cpr_VolumeContext req) ''transport'')])
       }
   }"

definition ControllerUnpublishVolume :: "'w controllerServer \<Rightarrow> ControllerUnpublishVolumeRequest \<Rightarrow> unit res" where
  "ControllerUnpublishVolume cs req = Inr ()"

definition DeleteVolume_body :: "'w controllerServer \<Rightarrow> VolumeIdentifier \<Rightarrow> ('w, unit res) action" where
  "DeleteVolume_body cs identifier = do {
     r \<leftarrow> NamespaceDelete (cs_gatewayClient cs)
       \<lparr>ndr_SubsystemNqn = NQN identifier, ndr_Nsid = NSID identifier, ndr_OBSOLETEUuid = None, ndr_IAmSure = None\<rparr>;
     case r of
       Inl err \<Rightarrow> State_Monad.return (Inl (Status Internal (''gateway NamespaceRemove failed: '' @ Error err)))
     | Inr resp \<Rightarrow>
         if ReqStatus_GetStatus resp \<noteq> 0
         then State_Monad.return
           (Inl (Status Internal (''gateway returned error: '' @ ReqStatus_GetErrorMessage resp)))
         else State_Monad.return (Inr ())
   }"

definition DeleteVolume ::
    "'w controllerServer \<Rightarrow> DeleteVolumeRequest \<Rightarrow> VolumeLocks \<times> 'w \<Rightarrow> (unit res \<times> VolumeLocks \<times> 'w) run" where
  "DeleteVolume cs req s =
     (if dvr_VolumeId req = [] then Done (Inl (Status InvalidArgument ''volume ID is required''), s)
      else case decodeVolumeID (dvr_VolumeId req) of
        Inl err \<Rightarrow> Done (Inl (Status InvalidArgument (''failed to decode volume ID: '' @ Error err)), s)
      | Inr identifier \<Rightarrow> with_lock (VolumeName identifier) (DeleteVolume_body cs identifier) s)"

text \<open>\<open>grpc.DialContext\<close> is a parameter; the new server starts with an empty lock table.\<close>

definition newControllerServer ::
    "(string \<Rightarrow> ('w, 'w ClientConn res) action) \<Rightarrow> CSIDriver \<Rightarrow> ('w, ('w controllerServer \<times> VolumeLocks) res) action" where
  "newControllerServer DialContext d = do {
     r \<leftarrow> DialContext ''10.242.64.32:5500'';
     case r of
       Inl err \<Rightarrow> State_Monad.return (Inl (Wrapf ''failed to connect to Gateway gRPC server: '' err))
     | Inr conn \<Rightarrow> State_Monad.return (Inr
         (\<lparr>cs_defaultImpl = NewDefaultControllerServer d, cs_gatewayClient = NewGatewayClient conn, cs_grpcConn = conn\<rparr>, NewVolumeLocks))
   }"

definition ControllerGetCapabilities :: "'w controllerServer \<Rightarrow> ControllerServiceCapability list res" where
  "ControllerGetCapabilities cs = Default_ControllerGetCapabilities (cs_defaultImpl cs)"

section \<open>Creating\<close>

text \<open>What the caller of \<open>CreateVolume\<close> gets for each reply of the gateway.\<close>

definition create_result :: "'src CreateVolumeRequest \<Rightarrow> NsidStatus option res \<Rightarrow> 'src Volume res" where
  "create_result req reply = (case reply of
      Inl err \<Rightarrow> Inl (Status Internal (''gateway NamespaceAdd failed: '' @ Error err))
    | Inr resp \<Rightarrow>
        if NsidStatus_GetStatus resp \<noteq> 0
        then Inl (Status Internal (''gateway NamespaceAdd returned error: '' @ NsidStatus_GetErrorMessage resp))
        else map_sum id (add_parameters req) (created_volume req (NsidStatus_GetNsid resp)))"

lemma encodeVolumeID_Inr: "encodeVolumeID v \<noteq> Inl e"
  by (simp add: encodeVolumeID_def)

lemma created_volume_Inr: "created_volume req nsid \<noteq> Inl e"
  by (auto simp: created_volume_def encodeVolumeID_def)

lemma run_CreateVolume_body [run_simps]:
  "run_state (CreateVolume_body cs req) w =
     (let (reply, w') = run_state (NamespaceAdd (cs_gatewayClient cs) (namespace_add_req req)) w
      in (create_result req reply, w'))"
  using created_volume_Inr
  by (auto simp: CreateVolume_body_def createVolume_def create_result_def case_prod_beta Let_def split: sum.split)

lemma CreateVolume_run:
  assumes "locks_inv vl" and "lock_free_at vl (cvr_Name req)"
    and "run_state (NamespaceAdd (cs_gatewayClient cs) (namespace_add_req req)) w = (reply, w')"
  obtains vl' where "CreateVolume cs req (vl, w) = Done (create_result req reply, vl', w')"
    "locks_inv vl'" "lock_free_at vl' = lock_free_at vl"
  using with_lock_done [OF assms(1,2), of "CreateVolume_body cs req" w] assms(3)
  by (auto simp: CreateVolume_def run_simps)

text \<open>A successful run of \<open>CreateVolume\<close>, seen backwards.\<close>

lemma CreateVolume_success:
  assumes inv: "locks_inv vl" and run: "CreateVolume cs req (vl, w) = Done (Inr vol, vl', w')"
  obtains resp vol0 where
    "run_state (NamespaceAdd (cs_gatewayClient cs) (namespace_add_req req)) w = (Inr resp, w')"
    "NsidStatus_GetStatus resp = 0" "created_volume req (NsidStatus_GetNsid resp) = Inr vol0"
    "vol = add_parameters req vol0" "locks_inv vl'" "lock_free_at vl' = lock_free_at vl"
proof -
  obtain reply w'' where rw: "run_state (NamespaceAdd (cs_gatewayClient cs) (namespace_add_req req)) w = (reply, w'')"
    by fastforce
  have "lock_free_at vl (cvr_Name req)"
    using run with_lock_blocks [OF inv, of "cvr_Name req" "CreateVolume_body cs req" w]
    by (cases "lock_free_at vl (cvr_Name req)") (simp_all add: CreateVolume_def)
  then obtain vl'' where "CreateVolume cs req (vl, w) = Done (create_result req reply, vl'', w'')"
    and keep: "locks_inv vl''" "lock_free_at vl'' = lock_free_at vl"
    using CreateVolume_run [OF inv _ rw] by metis
  with run have res: "create_result req reply = Inr vol" and eq: "w'' = w'" "vl'' = vl'" by simp_all
  from res obtain resp vol0 where "reply = Inr resp" "NsidStatus_GetStatus resp = 0"
    "created_volume req (NsidStatus_GetNsid resp) = Inr vol0" "vol = add_parameters req vol0"
    by (auto simp: create_result_def map_sum_eq_Inr split: sum.splits if_splits)
  with rw keep eq that show ?thesis by simp
qed

lemma created_volume_id:
  assumes "created_volume req nsid = Inr vol" and "valid_utf8 (cvr_Name req)" and "valid_utf8 (param req ''SubsystemNqn'')"
  shows "VolumeId vol \<noteq> []" and
    "decodeVolumeID (VolumeId vol) = Inr \<lparr>NSID = nsid, NQN = param req ''SubsystemNqn'', VolumeName = cvr_Name req\<rparr>"
proof -
  let ?id = "\<lparr>NSID = nsid, NQN = param req ''SubsystemNqn'', VolumeName = cvr_Name req\<rparr>"
  have "encodeVolumeID ?id = Inr (VolumeId vol)"
    using assms(1) by (auto simp: created_volume_def namespace_add_req_def split: sum.splits)
  moreover have "identifier_ok ?id" using assms(2,3) by (simp add: identifier_ok_def)
  ultimately show "VolumeId vol \<noteq> []" "decodeVolumeID (VolumeId vol) = Inr ?id"
    using decode_encode_id encodeVolumeID_not_empty by blast+
qed

lemma add_parameters_id [simp]:
  "VolumeId (add_parameters req vol) = VolumeId vol" "CapacityBytes (add_parameters req vol) = CapacityBytes vol"
  by (simp_all add: add_parameters_def Let_def)

section \<open>Deleting\<close>

definition delete_result :: "ReqStatus option res \<Rightarrow> unit res" where
  "delete_result reply = (case reply of
      Inl err \<Rightarrow> Inl (Status Internal (''gateway NamespaceRemove failed: '' @ Error err))
    | Inr resp \<Rightarrow>
        if ReqStatus_GetStatus resp \<noteq> 0
        then Inl (Status Internal (''gateway returned error: '' @ ReqStatus_GetErrorMessage resp))
        else Inr ())"

lemma run_DeleteVolume_body [run_simps]:
  "run_state (DeleteVolume_body cs i) w =
     (let (reply, w') = run_state (NamespaceDelete (cs_gatewayClient cs)
            \<lparr>ndr_SubsystemNqn = NQN i, ndr_Nsid = NSID i, ndr_OBSOLETEUuid = None, ndr_IAmSure = None\<rparr>) w
      in (delete_result reply, w'))"
  by (simp add: DeleteVolume_body_def delete_result_def case_prod_beta Let_def split: sum.split)

text \<open>Deleting a created volume takes the lock of its name and deletes the namespace it was given.\<close>

lemma DeleteVolume_created:
  assumes "created_volume req nsid = Inr vol0" "valid_utf8 (cvr_Name req)" "valid_utf8 (param req ''SubsystemNqn'')"
  shows "DeleteVolume cs \<lparr>dvr_VolumeId = VolumeId (add_parameters req vol0)\<rparr> s = with_lock (cvr_Name req)
    (DeleteVolume_body cs \<lparr>NSID = nsid, NQN = param req ''SubsystemNqn'', VolumeName = cvr_Name req\<rparr>) s"
  using created_volume_id [OF assms] by (simp add: DeleteVolume_def)

text \<open>
  C2. The life of a volume. When \<open>CreateVolume\<close> succeeded, the gateway had accepted the namespace,
  and a later \<open>DeleteVolume\<close> of the volume ID that was returned, in whatever state of locks and
  world, takes the lock of the name \<open>CreateVolume\<close> had locked (it waits while that lock is held),
  asks the gateway to delete exactly the namespace ID the gateway had assigned in exactly the
  subsystem it was created in, reports that call's outcome, and leaves all locks as they were.
\<close>

theorem create_then_delete:
  assumes inv: "locks_inv vl" and run: "CreateVolume cs req (vl, w) = Done (Inr vol, vl1, w1)"
    and utf8: "valid_utf8 (cvr_Name req)" "valid_utf8 (param req ''SubsystemNqn'')"
    and inv2: "locks_inv vl2"
  shows "\<exists>resp. run_state (NamespaceAdd (cs_gatewayClient cs) (namespace_add_req req)) w = (Inr resp, w1) \<and>
    NsidStatus_GetStatus resp = 0 \<and>
    (if lock_free_at vl2 (cvr_Name req)
     then (\<exists>vl3. locks_inv vl3 \<and> lock_free_at vl3 = lock_free_at vl2 \<and>
       (let (reply, w3) = run_state (NamespaceDelete (cs_gatewayClient cs)
              \<lparr>ndr_SubsystemNqn = param req ''SubsystemNqn'', ndr_Nsid = NsidStatus_GetNsid resp,
               ndr_OBSOLETEUuid = None, ndr_IAmSure = None\<rparr>) w2
        in DeleteVolume cs \<lparr>dvr_VolumeId = VolumeId vol\<rparr> (vl2, w2) = Done (delete_result reply, vl3, w3)))
     else DeleteVolume cs \<lparr>dvr_VolumeId = VolumeId vol\<rparr> (vl2, w2) = Blocks)"
proof -
  from CreateVolume_success [OF inv run] obtain resp vol0 where
    rw: "run_state (NamespaceAdd (cs_gatewayClient cs) (namespace_add_req req)) w = (Inr resp, w1)"
    and st: "NsidStatus_GetStatus resp = 0"
    and c: "created_volume req (NsidStatus_GetNsid resp) = Inr vol0" and vol: "vol = add_parameters req vol0"
    by metis
  let ?id = "\<lparr>NSID = NsidStatus_GetNsid resp, NQN = param req ''SubsystemNqn'', VolumeName = cvr_Name req\<rparr>"
  have del: "DeleteVolume cs \<lparr>dvr_VolumeId = VolumeId vol\<rparr> (vl2, w2) =
      with_lock (cvr_Name req) (DeleteVolume_body cs ?id) (vl2, w2)"
    using DeleteVolume_created [OF c utf8] by (simp add: vol)
  show ?thesis
  proof (cases "lock_free_at vl2 (cvr_Name req)")
    case True
    from with_lock_done [OF inv2 True, of "DeleteVolume_body cs ?id" w2] obtain vl3 where
      "with_lock (cvr_Name req) (DeleteVolume_body cs ?id) (vl2, w2) =
         Done (fst (run_state (DeleteVolume_body cs ?id) w2), vl3, snd (run_state (DeleteVolume_body cs ?id) w2))"
      "locks_inv vl3" "lock_free_at vl3 = lock_free_at vl2" by blast
    with True rw st del show ?thesis by (auto simp: run_simps case_prod_beta Let_def)
  next
    case False
    with with_lock_blocks [OF inv2 False] rw st del show ?thesis by simp
  qed
qed

text \<open>A controller on the gateway in memory.\<close>

definition demo_controller :: "gateway_mem controllerServer" where
  "demo_controller =
     \<lparr>cs_defaultImpl = NewDefaultControllerServer
        \<lparr>drv_name = ''csi.nvmeof.io'', drv_nodeID = ''node-1'', drv_version = ''0.1.0'',
         drv_cap = [], drv_vc = [\<lparr>Mode = SINGLE_NODE_WRITER\<rparr>]\<rparr>,
      cs_gatewayClient = NewGatewayClient mem_conn, cs_grpcConn = mem_conn\<rparr>"

definition demo_params :: "string go_map" where
  "demo_params = [(''RbdPoolName'', ''rbd''), (''SubsystemNqn'', ''nqn.1''), (''traddr'', ''10.0.0.1''),
     (''trsvcid'', ''4420''), (''transport'', ''TCP'')]"

definition demo_request :: "unit CreateVolumeRequest" where
  "demo_request = \<lparr>cvr_Name = ''pvc-1'', cvr_CapacityRange = None, cvr_Parameters = Some demo_params,
     cvr_VolumeContentSource = None\<rparr>"

definition demo_gateway :: gateway_mem where
  "demo_gateway = \<lparr>gm_next = 7, gm_namespaces = []\<rparr>"

lemma demo_client [simp]: "cs_gatewayClient demo_controller = NewGatewayClient mem_conn"
  by (simp add: demo_controller_def)

lemma demo_params_lookup [simp]:
  "go_index demo_params ''SubsystemNqn'' = ''nqn.1''" "go_map_ok demo_params"
  "cvr_Name demo_request = ''pvc-1''" "cvr_Parameters demo_request = Some demo_params"
  by (simp_all add: demo_request_def demo_params_def go_index_nil_def go_index_def go_map_ok_def)

text \<open>Creating the demo volume succeeds.\<close>

lemma demo_create:
  obtains vol vl1 where "CreateVolume demo_controller demo_request (NewVolumeLocks, demo_gateway) =
      Done (Inr vol, vl1, snd (mem_add (namespace_add_req demo_request) demo_gateway))"
    "locks_inv vl1" "lock_free_at vl1 = lock_free_at NewVolumeLocks"
proof -
  obtain vol where "create_result demo_request (Inr (Some (fst (mem_add (namespace_add_req demo_request) demo_gateway)))) = Inr vol"
    using created_volume_Inr [of demo_request "gm_next demo_gateway"]
    by (cases "created_volume demo_request (gm_next demo_gateway)") (auto simp: create_result_def mem_add_def demo_gateway_def getter_defs)
  moreover obtain vl1 where "CreateVolume demo_controller demo_request (NewVolumeLocks, demo_gateway) =
      Done (create_result demo_request (Inr (Some (fst (mem_add (namespace_add_req demo_request) demo_gateway)))), vl1,
        snd (mem_add (namespace_add_req demo_request) demo_gateway))"
    "locks_inv vl1" "lock_free_at vl1 = lock_free_at NewVolumeLocks"
    by (rule CreateVolume_run [of NewVolumeLocks demo_request demo_controller demo_gateway])
       (auto simp: run_mem_client)
  ultimately show ?thesis using that by simp
qed

theorem create_then_delete_witness:
  "\<exists>vol vl1 w1 vl3.
     CreateVolume demo_controller demo_request (NewVolumeLocks, demo_gateway) = Done (Inr vol, vl1, w1) \<and>
     map nc_RbdImageName (gm_namespaces w1) = [''pvc-1''] \<and>
     DeleteVolume demo_controller \<lparr>dvr_VolumeId = VolumeId vol\<rparr> (vl1, w1) = Done (Inr (), vl3, demo_gateway\<lparr>gm_next := 8\<rparr>)"
proof -
  let ?w1 = "snd (mem_add (namespace_add_req demo_request) demo_gateway)"
  obtain vol :: "unit Volume" and vl1 where
    c: "CreateVolume demo_controller demo_request (NewVolumeLocks, demo_gateway) = Done (Inr vol, vl1, ?w1)"
    and vl1: "locks_inv vl1" "lock_free_at vl1 = lock_free_at NewVolumeLocks"
    by (rule demo_create)
  have "\<exists>vl3. DeleteVolume demo_controller \<lparr>dvr_VolumeId = VolumeId vol\<rparr> (vl1, ?w1) =
      Done (Inr (), vl3, demo_gateway\<lparr>gm_next := 8\<rparr>)"
    using create_then_delete [OF _ c _ _ vl1(1), of ?w1] vl1(2)
    by (auto simp: valid_utf8_ascii run_mem_client mem_add_def mem_delete_def mem_namespace_def namespace_add_req_def
        demo_gateway_def delete_result_def getter_defs)
  moreover have "map nc_RbdImageName (gm_namespaces ?w1) = [''pvc-1'']"
    by (simp add: mem_add_def mem_namespace_def namespace_add_req_def demo_gateway_def)
  ultimately show ?thesis using c by (elim exE) (intro exI conjI)
qed

text \<open>
  C25. What the volume says is what the gateway was asked for: the capacity in the answer is the size
  of the image in the request to the gateway, it is never 0, it is the required size when one was
  given, and 200 MiB when none was.
\<close>

theorem CreateVolume_capacity:
  assumes "locks_inv vl" and "CreateVolume cs req (vl, w) = Done (Inr vol, vl1, w1)"
  shows "nar_Size (namespace_add_req req) = Some (CapacityBytes vol) \<and> CapacityBytes vol \<noteq> 0 \<and>
    CapacityBytes vol = (if GetRequiredBytes req = 0 then 209715200 else GetRequiredBytes req)"
proof -
  from CreateVolume_success [OF assms] obtain nsid vol0 where
    "created_volume req nsid = Inr vol0" "vol = add_parameters req vol0" by metis
  then have "CapacityBytes vol = volume_size req" by (auto simp: created_volume_def split: sum.splits)
  then show ?thesis by (simp add: namespace_add_req_def volume_size_def Let_def)
qed

theorem CreateVolume_capacity_witness:
  "\<exists>vol vl1 w1. CreateVolume demo_controller demo_request (NewVolumeLocks, demo_gateway) = Done (Inr vol, vl1, w1) \<and>
     CapacityBytes vol = 209715200"
proof -
  obtain vol :: "unit Volume" and vl1 w1 where
    c: "CreateVolume demo_controller demo_request (NewVolumeLocks, demo_gateway) = Done (Inr vol, vl1, w1)"
    by (metis demo_create)
  have "CapacityBytes vol = 209715200"
    using CreateVolume_capacity [OF _ c] by (simp add: GetRequiredBytes_def demo_request_def)
  with c show ?thesis by blast
qed

text \<open>The context of a created volume is the parameters of the request copied over five entries.\<close>

lemma created_context_eq:
  assumes "created_volume req nsid = Inr vol0" and "vol = add_parameters req vol0"
  shows "VolumeContext vol = Some (go_copy (case cvr_Parameters req of None \<Rightarrow> [] | Some m \<Rightarrow> m)
    [(''nqn'', param req ''SubsystemNqn''), (''traddr'', param req ''traddr''), (''trsvcid'', param req ''trsvcid''),
     (''transport'', param req ''transport''), (''image'', cvr_Name req)])"
  using assms by (auto simp: created_volume_def add_parameters_def namespace_add_req_def Let_def split: sum.splits)

lemma created_context:
  assumes "created_volume req nsid = Inr vol0" and "vol = add_parameters req vol0"
    and "cvr_Parameters req = Some params" and "go_map_ok params"
  obtains ctx where "VolumeContext vol = Some ctx" "go_map_ok ctx"
    "map_of ctx = [''nqn'' \<mapsto> go_index params ''SubsystemNqn'', ''traddr'' \<mapsto> go_index params ''traddr'',
      ''trsvcid'' \<mapsto> go_index params ''trsvcid'', ''transport'' \<mapsto> go_index params ''transport'',
      ''image'' \<mapsto> cvr_Name req] ++ map_of params"
proof -
  let ?five = "[(''nqn'', param req ''SubsystemNqn''), (''traddr'', param req ''traddr''),
    (''trsvcid'', param req ''trsvcid''), (''transport'', param req ''transport''), (''image'', cvr_Name req)]"
  have "VolumeContext vol = Some (go_copy params ?five)" using created_context_eq [OF assms(1,2)] assms(3) by simp
  moreover have "go_map_ok ?five" by (simp add: go_map_ok_def)
  moreover have "map_of ?five = [''nqn'' \<mapsto> go_index params ''SubsystemNqn'', ''traddr'' \<mapsto> go_index params ''traddr'',
      ''trsvcid'' \<mapsto> go_index params ''trsvcid'', ''transport'' \<mapsto> go_index params ''transport'',
      ''image'' \<mapsto> cvr_Name req]"
    using assms(3) by (auto simp: go_index_nil_def)
  ultimately show ?thesis using that [of "go_copy params ?five"] map_of_go_copy [OF assms(4)] go_copy_ok by metis
qed

lemma go_index_map_of: "go_index m k = (case map_of m k of None \<Rightarrow> [] | Some v \<Rightarrow> v)"
  by (simp add: go_index_def)

text \<open>Parameters that do not use the keys \<open>nqn\<close> and \<open>image\<close> leave the five keys as they are.\<close>

lemma created_context_look:
  assumes "created_volume req nsid = Inr vol0" and "vol = add_parameters req vol0"
    and "cvr_Parameters req = Some params" and "go_map_ok params"
    and "map_of params ''nqn'' = None" and "map_of params ''image'' = None"
  obtains ctx where "VolumeContext vol = Some ctx" "go_index ctx ''nqn'' = go_index params ''SubsystemNqn''"
    "go_index ctx ''image'' = cvr_Name req" "go_index ctx ''traddr'' = go_index params ''traddr''"
    "go_index ctx ''trsvcid'' = go_index params ''trsvcid''" "go_index ctx ''transport'' = go_index params ''transport''"
proof -
  obtain ctx where "VolumeContext vol = Some ctx" and m: "map_of ctx =
      [''nqn'' \<mapsto> go_index params ''SubsystemNqn'', ''traddr'' \<mapsto> go_index params ''traddr'',
       ''trsvcid'' \<mapsto> go_index params ''trsvcid'', ''transport'' \<mapsto> go_index params ''transport'',
       ''image'' \<mapsto> cvr_Name req] ++ map_of params"
    by (rule created_context [OF assms(1-4)])
  then show ?thesis using assms(5,6)
    by (intro that [of ctx]) (simp_all add: go_index_map_of m map_add_def split: option.split)
qed

text \<open>
  The context of a created volume: its keys are distinct, a key of the request's parameters has
  the value given there, and beside those it has the five keys the node needs, with the subsystem,
  the address, the port, the transport and the image of the namespace. The lookup does not depend on
  the order in which Go happens to iterate over the parameters.
\<close>

theorem CreateVolume_context:
  assumes "locks_inv vl" and "CreateVolume cs req (vl, w) = Done (Inr vol, vl1, w1)"
    and "cvr_Parameters req = Some params" and "go_map_ok params"
  shows "\<exists>ctx. VolumeContext vol = Some ctx \<and> go_map_ok ctx \<and>
    map_of ctx = [''nqn'' \<mapsto> go_index params ''SubsystemNqn'', ''traddr'' \<mapsto> go_index params ''traddr'',
      ''trsvcid'' \<mapsto> go_index params ''trsvcid'', ''transport'' \<mapsto> go_index params ''transport'',
      ''image'' \<mapsto> cvr_Name req] ++ map_of params"
proof -
  from CreateVolume_success [OF assms(1,2)] obtain nsid vol0 where
    "created_volume req nsid = Inr vol0" "vol = add_parameters req vol0" by metis
  then show ?thesis by (rule created_context [OF _ _ assms(3,4)]) blast
qed

theorem CreateVolume_context_witness:
  "\<exists>vol vl1 w1 ctx.
     CreateVolume demo_controller demo_request (NewVolumeLocks, demo_gateway) = Done (Inr vol, vl1, w1) \<and>
     VolumeContext vol = Some ctx \<and> map_of ctx ''image'' = Some ''pvc-1'' \<and> map_of ctx ''nqn'' = Some ''nqn.1'' \<and>
     map_of ctx ''RbdPoolName'' = Some ''rbd''"
proof -
  obtain vol :: "unit Volume" and vl1 w1 where
    c: "CreateVolume demo_controller demo_request (NewVolumeLocks, demo_gateway) = Done (Inr vol, vl1, w1)"
    by (metis demo_create)
  from CreateVolume_context [OF _ c, of demo_params] obtain ctx where
    "VolumeContext vol = Some ctx" and m: "map_of ctx =
      [''nqn'' \<mapsto> go_index demo_params ''SubsystemNqn'', ''traddr'' \<mapsto> go_index demo_params ''traddr'',
      ''trsvcid'' \<mapsto> go_index demo_params ''trsvcid'', ''transport'' \<mapsto> go_index demo_params ''transport'',
      ''image'' \<mapsto> ''pvc-1''] ++ map_of demo_params"
    by auto
  then show ?thesis using c by (intro exI conjI) (auto simp: m demo_params_def go_index_def map_add_def)
qed

section \<open>Capabilities and publishing\<close>

lemma mode_supported_iff: "mode_supported m as \<longleftrightarrow> m \<in> Mode ` set as"
  by (induction as) auto

lemma all_supported_iff: "all_supported cs as \<longleftrightarrow> (\<forall>c \<in> set cs. GetAccessMode_GetMode c \<in> Mode ` set as)"
  by (induction cs) (auto simp: mode_supported_iff)

text \<open>
  A request to validate capabilities is confirmed, with the capabilities as they were given,
  exactly if each of them asks for an access mode the driver was given; a capability without an
  access mode counts as the unknown mode. It never fails.
\<close>

theorem ValidateVolumeCapabilities_exact:
  "ValidateVolumeCapabilities
     (cs\<lparr>cs_defaultImpl := NewDefaultControllerServer (snd (AddVolumeCapabilityAccessModes modes d))\<rparr>) caps =
   Inr \<lparr>Confirmed = (if set (map GetAccessMode_GetMode caps) \<subseteq> set modes then Some caps else None), Message = []\<rparr>"
  by (auto simp: ValidateVolumeCapabilities_def all_supported_iff AddVolumeCapabilityAccessModes_def append_modes_eq
      GetVolumeCapabilityAccessModes_def NewVolumeCapabilityAccessMode_def default_server_defs Let_def image_iff)

lemma find_uuid_first:
  "\<forall>n \<in> set before. NamespaceCli_GetRbdImageName n \<noteq> img \<Longrightarrow> NamespaceCli_GetRbdImageName ns = img \<Longrightarrow>
    find_uuid img (before @ ns # after) = NamespaceCli_GetUuid ns"
  by (induction before) auto

end
