(* ===== verification/Initiator.thy ===== *)
theory Initiator
  imports Go_Prelude "HOL-Library.List_Lexorder" "HOL-Library.Char_ord"
begin

text \<open>
  What the node side needs of the operating system, and the NVMe-oF initiator
  (\<^verbatim>\<open>pkg/util/initiator.go\<close>). The calls to the kernel, to external commands and to the
  mount library act on a world that is not modelled: they are the fields of a record, which every
  operation takes. The loops that poll for a device are bounded recursions over these calls.
\<close>

section \<open>Lexical paths (\<open>path/filepath\<close>)\<close>

fun segments :: "string \<Rightarrow> string list" where
  "segments [] = [[]]"
| "segments (c # s) =
     (if c = CHR ''/'' then [] # segments s
      else case segments s of [] \<Rightarrow> [[c]] | seg # segs \<Rightarrow> (c # seg) # segs)"

fun join_segments :: "string list \<Rightarrow> string" where
  "join_segments [] = []"
| "join_segments [a] = a"
| "join_segments (a # b # as) = a @ ''/'' @ join_segments (b # as)"

text \<open>The stack of segments is kept in reverse.\<close>

fun clean_segments :: "bool \<Rightarrow> string list \<Rightarrow> string list \<Rightarrow> string list" where
  "clean_segments rooted stack [] = rev stack"
| "clean_segments rooted stack (seg # segs) =
     (if seg = [] \<or> seg = ''.'' then clean_segments rooted stack segs
      else if seg = ''..'' then
        (case stack of
           prev # rest \<Rightarrow>
             if prev \<noteq> ''..'' then clean_segments rooted rest segs
             else clean_segments rooted (seg # stack) segs
         | [] \<Rightarrow> clean_segments rooted (if rooted then [] else [seg]) segs)
      else clean_segments rooted (seg # stack) segs)"

definition Clean :: "string \<Rightarrow> string" where
  "Clean path =
     (let rooted = HasPrefix path ''/'';
          out = (if rooted then ''/'' else []) @ join_segments (clean_segments rooted [] (segments path))
      in if out = [] then ''.'' else out)"

definition Join :: "string \<Rightarrow> string \<Rightarrow> string" where
  "Join a b =
     (if a = [] then (if b = [] then [] else Clean b)
      else if b = [] then Clean a else Clean (a @ ''/'' @ b))"

text \<open>The part up to and with the last slash, cleaned.\<close>

definition Dir :: "string \<Rightarrow> string" where
  "Dir path = Clean (rev (dropWhile (\<lambda>c. c \<noteq> CHR ''/'') (rev path)))"

text \<open>Joining a clean absolute path other than the root and a plain name puts a slash between them.\<close>

definition plain_name :: "string \<Rightarrow> bool" where
  "plain_name b \<longleftrightarrow> b \<notin> {[], ''.'', ''..''} \<and> CHR ''/'' \<notin> set b"

lemma segments_not_Nil [simp]: "segments s \<noteq> []"
  by (induction s) (auto split: list.splits)

lemma segments_plain: "CHR ''/'' \<notin> set b \<Longrightarrow> segments b = [b]"
  by (induction b) auto

lemma segments_append: "segments (a @ CHR ''/'' # b) = segments a @ segments b"
  by (induction a) (auto split: list.split)

lemma clean_segments_snoc:
  "plain_name b \<Longrightarrow> clean_segments rooted st (xs @ [b]) = clean_segments rooted st xs @ [b]"
  by (induction xs arbitrary: st) (auto simp: plain_name_def split: list.split)

lemma join_segments_snoc: "xs \<noteq> [] \<Longrightarrow> join_segments (xs @ [b]) = join_segments xs @ ''/'' @ b"
  by (induction xs rule: join_segments.induct) auto

lemma Join_plain:
  assumes "Clean a = a" "HasPrefix a ''/''" "a \<noteq> ''/''" "plain_name b"
  shows "Join a b = a @ ''/'' @ b"
proof -
  let ?cs = "clean_segments True [] (segments a)"
  have a: "a = ''/'' @ join_segments ?cs" using assms(1,2) by (simp add: Clean_def Let_def split: if_splits)
  with assms(3) have "?cs \<noteq> []" by auto
  moreover have "HasPrefix (a @ CHR ''/'' # b) ''/''" using assms(2) by (cases a) (auto simp: HasPrefix_def)
  moreover have "clean_segments True [] (segments (a @ CHR ''/'' # b)) = ?cs @ [b]"
    using assms(4) by (simp add: segments_append segments_plain clean_segments_snoc plain_name_def)
  ultimately have "Clean (a @ ''/'' @ b) = ''/'' @ join_segments ?cs @ ''/'' @ b"
    by (simp add: Clean_def Let_def join_segments_snoc)
  then have "Clean (a @ ''/'' @ b) = a @ ''/'' @ b" using a by simp
  moreover have "a \<noteq> []" "b \<noteq> []" using assms(2,4) by (auto simp: HasPrefix_def plain_name_def)
  ultimately show ?thesis by (simp add: Join_def)
qed

section \<open>The host\<close>

text \<open>
  \<open>he_IsNotMountPoint\<close>, \<open>he_Mount\<close> and \<open>he_Unmount\<close> are the mount library; \<open>he_CombinedOutput\<close> runs a
  command with a time limit in seconds and gives its output, the error of the command, and whether
  the limit had passed; \<open>he_OpenAppend\<close> and \<open>he_WriteString\<close> open a file for appending and write to it;
  \<open>he_ReadDir\<close> gives each entry with its name and its printed form; the rest are functions of the packages \<^verbatim>\<open>os\<close>, \<^verbatim>\<open>filepath\<close> and
  \<^verbatim>\<open>time\<close>. An error that is nil is \<open>None\<close>.
\<close>

record 'w host_env =
  he_IsNotMountPoint :: "string \<Rightarrow> ('w, bool \<times> go_error option) action"
  he_Mount :: "string \<Rightarrow> string \<Rightarrow> string \<Rightarrow> string list \<Rightarrow> ('w, go_error option) action"
  he_Unmount :: "string \<Rightarrow> ('w, go_error option) action"
  he_Stat :: "string \<Rightarrow> ('w, go_error option) action"
  he_MkdirAll :: "string \<Rightarrow> ('w, go_error option) action"
  he_Create :: "string \<Rightarrow> ('w, go_error option) action"
  he_Remove :: "string \<Rightarrow> ('w, go_error option) action"
  he_ReadFile :: "string \<Rightarrow> ('w, string res) action"
  he_WriteFile :: "string \<Rightarrow> string \<Rightarrow> ('w, go_error option) action"
  he_OpenAppend :: "string \<Rightarrow> ('w, go_error option) action"
  he_WriteString :: "string \<Rightarrow> string \<Rightarrow> ('w, go_error option) action"
  he_ReadDir :: "string \<Rightarrow> ('w, (string \<times> string) list res) action"
  he_Getenv :: "string \<Rightarrow> ('w, string) action"
  he_Glob :: "string \<Rightarrow> ('w, string list res) action"
  he_CombinedOutput :: "string list \<Rightarrow> nat \<Rightarrow> ('w, string \<times> go_error option \<times> bool) action"
  he_Sleep :: "nat \<Rightarrow> ('w, unit) action"

section \<open>Polling\<close>

definition execWithTimeout :: "'w host_env \<Rightarrow> string list \<Rightarrow> nat \<Rightarrow> ('w, string \<times> go_error option) action" where
  "execWithTimeout env cmdLine timeout = do {
     (output, err, deadline) \<leftarrow> he_CombinedOutput env cmdLine timeout;
     if deadline then State_Monad.return (output, Some (Errorf ''timed out''))
     else State_Monad.return (output, err)
   }"

text \<open>The body of the loop of \<open>waitForDeviceReady\<close>, with the number of rounds left.\<close>

fun ready_loop :: "'w host_env \<Rightarrow> string \<Rightarrow> nat \<Rightarrow> ('w, string res) action" where
  "ready_loop env deviceGlob 0 =
     State_Monad.return (Inl (Errorf (''timed out waiting device ready: '' @ deviceGlob)))"
| "ready_loop env deviceGlob (Suc n) = do {
     matches \<leftarrow> he_Glob env deviceGlob;
     case matches of
       Inl err \<Rightarrow> State_Monad.return (Inl err)
     | Inr ms \<Rightarrow>
         if 1 \<le> length ms then State_Monad.return (Inr (ms ! 0))
         else do { he_Sleep env 1; ready_loop env deviceGlob n }
   }"

text \<open>The loop runs for \<open>i\<close> from 0 to \<open>seconds\<close>.\<close>

definition waitForDeviceReady :: "'w host_env \<Rightarrow> string \<Rightarrow> int \<Rightarrow> ('w, string res) action" where
  "waitForDeviceReady env deviceGlob seconds = ready_loop env deviceGlob (nat (seconds + 1))"

fun gone_loop :: "'w host_env \<Rightarrow> string \<Rightarrow> nat \<Rightarrow> ('w, go_error option) action" where
  "gone_loop env deviceGlob 0 =
     State_Monad.return (Some (Errorf (''timed out waiting device gone: '' @ deviceGlob)))"
| "gone_loop env deviceGlob (Suc n) = do {
     matches \<leftarrow> he_Glob env deviceGlob;
     case matches of
       Inl err \<Rightarrow> State_Monad.return (Some err)
     | Inr ms \<Rightarrow>
         if length ms = 0 then State_Monad.return None
         else do { he_Sleep env 1; gone_loop env deviceGlob n }
   }"

definition waitForDeviceGone :: "'w host_env \<Rightarrow> string \<Rightarrow> ('w, go_error option) action" where
  "waitForDeviceGone env deviceGlob = gone_loop env deviceGlob 21"

section \<open>The initiator\<close>

record initiatorNVMf =
  targetType :: string
  targetAddr :: string
  targetPort :: string
  ini_nqn :: string
  ini_uuid :: string

text \<open>\<open>%v\<close> of a map prints its entries sorted by key.\<close>

definition fmt_entry :: "string \<times> string \<Rightarrow> string" where
  "fmt_entry kv = fst kv @ '':'' @ snd kv"

fun fmt_entries :: "(string \<times> string) list \<Rightarrow> string" where
  "fmt_entries [] = []"
| "fmt_entries [kv] = fmt_entry kv"
| "fmt_entries (kv # kv' # m) = fmt_entry kv @ '' '' @ fmt_entries (kv' # m)"

definition fmt_map :: "string go_map \<Rightarrow> string" where
  "fmt_map m = ''map['' @ fmt_entries (sort_key fst m) @ '']''"

definition NewNvmeofCsiInitiator :: "string go_map option \<Rightarrow> initiatorNVMf res" where
  "NewNvmeofCsiInitiator publishContext = (case publishContext of
      None \<Rightarrow> Inl (Errorf ''publishContext is nil'')
    | Some pc \<Rightarrow>
        if go_index pc ''transport'' = [] \<or> go_index pc ''traddr'' = [] \<or> go_index pc ''trsvcid'' = [] \<or>
           go_index pc ''nqn'' = [] \<or> go_index pc ''uuid'' = []
        then Inl (Errorf (''publishContext missing required fields: '' @ fmt_map pc))
        else Inr
          \<lparr>targetType = go_index pc ''transport'', targetAddr = go_index pc ''traddr'',
           targetPort = go_index pc ''trsvcid'', ini_nqn = go_index pc ''nqn'', ini_uuid = go_index pc ''uuid''\<rparr>)"

definition connect_cmdLine :: "initiatorNVMf \<Rightarrow> string list" where
  "connect_cmdLine nvmf =
     [''nvme'', ''connect-all'', ''-t'', ToLower (targetType nvmf), ''-a'', targetAddr nvmf,
      ''-q'', ini_nqn nvmf, ''-l'', ''1800'']"

definition device_glob :: "initiatorNVMf \<Rightarrow> string" where
  "device_glob nvmf = ''/dev/disk/by-id/nvme-uuid.*'' @ ini_uuid nvmf @ ''*''"

text \<open>Both outcomes of a failed command are only logged, and the wait decides.\<close>

definition Connect :: "'w host_env \<Rightarrow> initiatorNVMf \<Rightarrow> ('w, string res) action" where
  "Connect env nvmf = do {
     (output, err) \<leftarrow> execWithTimeout env (connect_cmdLine nvmf) 40;
     r \<leftarrow> waitForDeviceReady env (device_glob nvmf) 20;
     case r of Inl err \<Rightarrow> State_Monad.return (Inl err) | Inr devicePath \<Rightarrow> State_Monad.return (Inr devicePath)
   }"

definition Disconnect :: "'w host_env \<Rightarrow> initiatorNVMf \<Rightarrow> ('w, go_error option) action" where
  "Disconnect env nvmf = do {
     (output, err) \<leftarrow> execWithTimeout env [''nvme'', ''disconnect'', ''-n'', ini_nqn nvmf] 40;
     waitForDeviceGone env (device_glob nvmf)
   }"

section \<open>What a polling loop does\<close>

text \<open>
  A loop that probes, decides, sleeps and goes round a bounded number of times. Round \<open>k\<close> starts in
  the world that \<open>k\<close> probes and sleeps have led to: the first round whose probe decides ends the
  loop, and if none does the loop gives its time-out value after all rounds.
\<close>

definition poll_round :: "('w, 'm) action \<Rightarrow> ('w, unit) action \<Rightarrow> 'w \<Rightarrow> 'w" where
  "poll_round probe sleep w = snd (run_state sleep (snd (run_state probe w)))"

abbreviation poll_world :: "'w host_env \<Rightarrow> string \<Rightarrow> nat \<Rightarrow> 'w \<Rightarrow> 'w" where
  "poll_world env deviceGlob k w \<equiv> (poll_round (he_Glob env deviceGlob) (he_Sleep env 1) ^^ k) w"

abbreviation poll_glob :: "'w host_env \<Rightarrow> string \<Rightarrow> nat \<Rightarrow> 'w \<Rightarrow> string list res" where
  "poll_glob env deviceGlob k w \<equiv> fst (run_state (he_Glob env deviceGlob) (poll_world env deviceGlob k w))"

lemma poll_round_shift:
  "(poll_round probe sleep ^^ j) (poll_round probe sleep w) = (poll_round probe sleep ^^ Suc j) w"
  by (simp add: funpow_swap1)

locale polling =
  fixes loop :: "nat \<Rightarrow> ('w, 'r) action"
    and probe :: "('w, 'm) action"
    and decide :: "'m \<Rightarrow> 'r option"
    and sleep :: "('w, unit) action"
    and timeout :: 'r
  assumes loop_0: "run_state (loop 0) w = (timeout, w)"
    and loop_Suc: "run_state (loop (Suc n)) w =
      (let (m, w') = run_state probe w
       in case decide m of Some r \<Rightarrow> (r, w') | None \<Rightarrow> run_state (loop n) (snd (run_state sleep w')))"
begin

lemma loop_step:
  "run_state (loop (Suc n)) w =
     (case decide (fst (run_state probe w)) of
        Some r \<Rightarrow> (r, snd (run_state probe w))
      | None \<Rightarrow> run_state (loop n) (poll_round probe sleep w))"
  by (simp add: loop_Suc poll_round_def case_prod_beta Let_def split: option.split)

lemma loop_decides:
  assumes "k < n" and "\<forall>j < k. decide (fst (run_state probe ((poll_round probe sleep ^^ j) w))) = None"
    and "decide (fst (run_state probe ((poll_round probe sleep ^^ k) w))) = Some r"
  shows "run_state (loop n) w = (r, snd (run_state probe ((poll_round probe sleep ^^ k) w)))"
  using assms
proof (induction k arbitrary: n w)
  case 0
  then show ?case by (cases n) (simp_all add: loop_step)
next
  case (Suc k)
  then obtain n' where n: "n = Suc n'" "k < n'" by (cases n) auto
  have "decide (fst (run_state probe w)) = None" using Suc.prems(2) by (metis funpow_0 zero_less_Suc)
  moreover have "run_state (loop n') (poll_round probe sleep w) =
      (r, snd (run_state probe ((poll_round probe sleep ^^ k) (poll_round probe sleep w))))"
    using Suc.prems(2,3) by (intro Suc.IH n) (auto simp only: poll_round_shift)
  ultimately show ?case by (simp add: n loop_step funpow_swap1)
qed

lemma loop_times_out:
  assumes "\<forall>j < n. decide (fst (run_state probe ((poll_round probe sleep ^^ j) w))) = None"
  shows "run_state (loop n) w = (timeout, (poll_round probe sleep ^^ n) w)"
  using assms
proof (induction n arbitrary: w)
  case (Suc n)
  have "decide (fst (run_state probe w)) = None" using Suc.prems by (metis funpow_0 zero_less_Suc)
  moreover have "run_state (loop n) (poll_round probe sleep w) =
      (timeout, (poll_round probe sleep ^^ n) (poll_round probe sleep w))"
    using Suc.prems by (intro Suc.IH) (auto simp only: poll_round_shift)
  ultimately show ?case by (simp add: loop_step funpow_swap1)
qed (simp add: loop_0)

text \<open>Every run ends in one of the two ways.\<close>

lemma loop_cases:
  obtains (decided) k r where "k < n" "\<forall>j < k. decide (fst (run_state probe ((poll_round probe sleep ^^ j) w))) = None"
      "decide (fst (run_state probe ((poll_round probe sleep ^^ k) w))) = Some r"
      "run_state (loop n) w = (r, snd (run_state probe ((poll_round probe sleep ^^ k) w)))"
    | (timed_out) "\<forall>j < n. decide (fst (run_state probe ((poll_round probe sleep ^^ j) w))) = None"
      "run_state (loop n) w = (timeout, (poll_round probe sleep ^^ n) w)"
proof (cases "\<exists>k < n. decide (fst (run_state probe ((poll_round probe sleep ^^ k) w))) \<noteq> None")
  case True
  from exists_least_iff [THEN iffD1, OF True] obtain k where
    k: "k < n" "decide (fst (run_state probe ((poll_round probe sleep ^^ k) w))) \<noteq> None"
    and least: "\<forall>j < k. decide (fst (run_state probe ((poll_round probe sleep ^^ j) w))) = None"
    by (auto dest: less_trans)
  then show ?thesis using decided loop_decides [OF k(1) least] by blast
next
  case False
  then show ?thesis using timed_out loop_times_out by blast
qed

end

definition ready_verdict :: "string list res \<Rightarrow> string res option" where
  "ready_verdict m = (case m of Inl err \<Rightarrow> Some (Inl err) | Inr ms \<Rightarrow> if ms = [] then None else Some (Inr (hd ms)))"

lemma ready_verdict_None: "ready_verdict m = None \<longleftrightarrow> m = Inr []"
  by (auto simp: ready_verdict_def split: sum.split)

lemma ready_verdict_Some:
  "ready_verdict m = Some r \<Longrightarrow> (\<exists>x xs. m = Inr (x # xs) \<and> r = Inr x) \<or> (\<exists>err. m = Inl err \<and> r = Inl err)"
  by (auto simp: ready_verdict_def neq_Nil_conv split: sum.splits if_splits)

definition gone_verdict :: "string list res \<Rightarrow> go_error option option" where
  "gone_verdict m = (case m of Inl err \<Rightarrow> Some (Some err) | Inr ms \<Rightarrow> if ms = [] then Some None else None)"

lemma gone_verdict_None: "gone_verdict m = None \<longleftrightarrow> (\<exists>x xs. m = Inr (x # xs))"
  by (auto simp: gone_verdict_def neq_Nil_conv split: sum.splits if_splits)

lemma gone_verdict_Some:
  "gone_verdict m = Some r \<Longrightarrow> m = Inr [] \<and> r = None \<or> (\<exists>err. m = Inl err \<and> r = Some err)"
  by (auto simp: gone_verdict_def split: sum.splits if_splits)

interpretation ready: polling "ready_loop env g" "he_Glob env g" ready_verdict "he_Sleep env 1"
  "Inl (Errorf (''timed out waiting device ready: '' @ g))" for env g
  by unfold_locales
     (auto simp: ready_verdict_def case_prod_beta Let_def hd_conv_nth Suc_le_eq split: sum.split)

interpretation gone: polling "gone_loop env g" "he_Glob env g" gone_verdict "he_Sleep env 1"
  "Some (Errorf (''timed out waiting device gone: '' @ g))" for env g
  by unfold_locales (auto simp: gone_verdict_def case_prod_beta Let_def split: sum.split)

text \<open>
  C26. \<open>Connect\<close> is decided by the device alone. It returns the first match of the glob of the
  UUID in the first of at most 21 polls, a second apart, in which there is one; if the glob fails
  first, it returns that error; after 21 polls without a match it returns the time-out error. The
  output and the exit status of \<open>nvme connect-all\<close> change nothing of this.
\<close>

theorem Connect_decided_by_device:
  "let w0 = snd (run_state (he_CombinedOutput env (connect_cmdLine nvmf) 40) w);
       g = device_glob nvmf;
       (r, w') = run_state (Connect env nvmf) w
   in (\<exists>k < 21. (\<forall>j < k. poll_glob env g j w0 = Inr []) \<and>
         ((\<exists>m ms. poll_glob env g k w0 = Inr (m # ms) \<and> r = Inr m) \<or>
          (\<exists>err. poll_glob env g k w0 = Inl err \<and> r = Inl err))) \<or>
      (\<forall>j < 21. poll_glob env g j w0 = Inr []) \<and>
        r = Inl (Errorf (''timed out waiting device ready: '' @ g)) \<and> w' = poll_world env g 21 w0"
proof -
  let ?w0 = "snd (run_state (he_CombinedOutput env (connect_cmdLine nvmf) 40) w)" and ?g = "device_glob nvmf"
  have run: "run_state (Connect env nvmf) w = run_state (ready_loop env ?g 21) ?w0"
    by (auto simp: Connect_def execWithTimeout_def waitForDeviceReady_def case_prod_beta Let_def prod_eq_iff split: sum.split)
  show ?thesis
  proof (rule ready.loop_cases [of 21 env ?g ?w0])
    fix k r
    assume k: "k < 21" "\<forall>j<k. ready_verdict (poll_glob env ?g j ?w0) = None"
      "ready_verdict (poll_glob env ?g k ?w0) = Some r"
      "run_state (ready_loop env ?g 21) ?w0 = (r, snd (run_state (he_Glob env ?g) (poll_world env ?g k ?w0)))"
    from k(3) have "(\<exists>m ms. poll_glob env ?g k ?w0 = Inr (m # ms) \<and> r = Inr m) \<or>
        (\<exists>err. poll_glob env ?g k ?w0 = Inl err \<and> r = Inl err)"
      by (rule ready_verdict_Some)
    with k(1,2) show ?thesis unfolding run k(4) Let_def prod.case ready_verdict_None by blast
  next
    assume "\<forall>j<21. ready_verdict (poll_glob env ?g j ?w0) = None"
      "run_state (ready_loop env ?g 21) ?w0 =
        (Inl (Errorf (''timed out waiting device ready: '' @ ?g)), poll_world env ?g 21 ?w0)"
    then show ?thesis by (simp add: run ready_verdict_None Let_def)
  qed
qed

text \<open>
  C27. \<open>Disconnect\<close> reports success only for a device that is gone. In the first of at most 21 polls, a
  second apart, whose glob of the UUID does not list a device, it ends: with success if the list is
  empty, with the error of the glob if that failed. After 21 polls that each list a device it returns
  the time-out error. What \<open>nvme disconnect\<close> answers changes nothing of this.
\<close>

theorem Disconnect_decided_by_device:
  "let w0 = snd (run_state (he_CombinedOutput env [''nvme'', ''disconnect'', ''-n'', ini_nqn nvmf] 40) w);
       g = device_glob nvmf;
       (r, w') = run_state (Disconnect env nvmf) w
   in (\<exists>k < 21. (\<forall>j < k. \<exists>m ms. poll_glob env g j w0 = Inr (m # ms)) \<and>
         (poll_glob env g k w0 = Inr [] \<and> r = None \<or>
          (\<exists>err. poll_glob env g k w0 = Inl err \<and> r = Some err))) \<or>
      (\<forall>j < 21. \<exists>m ms. poll_glob env g j w0 = Inr (m # ms)) \<and>
        r = Some (Errorf (''timed out waiting device gone: '' @ g)) \<and> w' = poll_world env g 21 w0"
proof -
  let ?w0 = "snd (run_state (he_CombinedOutput env [''nvme'', ''disconnect'', ''-n'', ini_nqn nvmf] 40) w)"
    and ?g = "device_glob nvmf"
  have run: "run_state (Disconnect env nvmf) w = run_state (gone_loop env ?g 21) ?w0"
    by (auto simp: Disconnect_def execWithTimeout_def waitForDeviceGone_def case_prod_beta Let_def prod_eq_iff)
  show ?thesis
  proof (rule gone.loop_cases [of 21 env ?g ?w0])
    fix k r
    assume k: "k < 21" "\<forall>j<k. gone_verdict (poll_glob env ?g j ?w0) = None"
      "gone_verdict (poll_glob env ?g k ?w0) = Some r"
      "run_state (gone_loop env ?g 21) ?w0 = (r, snd (run_state (he_Glob env ?g) (poll_world env ?g k ?w0)))"
    from gone_verdict_Some [OF k(3)] k(1,2) show ?thesis
      unfolding run k(4) Let_def prod.case gone_verdict_None by blast
  next
    assume "\<forall>j<21. gone_verdict (poll_glob env ?g j ?w0) = None"
      "run_state (gone_loop env ?g 21) ?w0 =
        (Some (Errorf (''timed out waiting device gone: '' @ ?g)), poll_world env ?g 21 ?w0)"
    then show ?thesis by (simp add: run gone_verdict_None Let_def)
  qed
qed

text \<open>The port of the target takes no part in connecting.\<close>

lemma Connect_ignores_port: "Connect env (i\<lparr>targetPort := p\<rparr>) = Connect env i"
  by (simp add: Connect_def connect_cmdLine_def device_glob_def)

end
