(* ===== verification/Node_Server.thy ===== *)
theory Node_Server
  imports Volume_Locks Csi_Common Initiator
begin

text \<open>
  The node service (\<^verbatim>\<open>pkg/driver/nodeserver.go\<close>, \<^verbatim>\<open>pkg/util/validate.go\<close>): staging
  binds the block device of the volume to a file under the staging directory, publishing binds that
  file to the target path. The handlers run on the lock table and the host.
\<close>

section \<open>Messages\<close>

record NodeStageVolumeRequest =
  nsv_VolumeId :: string
  nsv_PublishContext :: "string go_map option"
  nsv_StagingTargetPath :: string
  nsv_VolumeCapability :: "VolumeCapability option"

record NodeUnstageVolumeRequest =
  nuv_VolumeId :: string
  nuv_StagingTargetPath :: string

record NodePublishVolumeRequest =
  npv_VolumeId :: string
  npv_StagingTargetPath :: string
  npv_TargetPath :: string
  npv_VolumeCapability :: "VolumeCapability option"

record NodeUnpublishVolumeRequest =
  nup_VolumeId :: string
  nup_TargetPath :: string

section \<open>Validation\<close>

definition checkDirExists :: "'w host_env \<Rightarrow> string \<Rightarrow> ('w, bool) action" where
  "checkDirExists env p = do {
     err \<leftarrow> he_Stat env p;
     State_Monad.return (\<not> os_IsNotExist err)
   }"

definition ValidateNodeStageVolumeRequest ::
    "'w host_env \<Rightarrow> NodeStageVolumeRequest \<Rightarrow> ('w, go_error option) action" where
  "ValidateNodeStageVolumeRequest env req =
     (if nsv_VolumeCapability req = None
      then State_Monad.return (Some (Status InvalidArgument ''volume capability missing in request''))
      else if nsv_VolumeId req = []
      then State_Monad.return (Some (Status InvalidArgument ''volume ID missing in request''))
      else if nsv_StagingTargetPath req = []
      then State_Monad.return (Some (Status InvalidArgument ''staging target path missing in request''))
      else do {
        ok \<leftarrow> checkDirExists env (nsv_StagingTargetPath req);
        if \<not> ok
        then State_Monad.return (Some (Status InvalidArgument
          (''staging path '' @ nsv_StagingTargetPath req @ '' does not exist on node'')))
        else State_Monad.return None
      })"

section \<open>Mount points\<close>

text \<open>Whether the path is a mount point, and the error of the check.\<close>

definition isStaged :: "'w host_env \<Rightarrow> string \<Rightarrow> ('w, bool \<times> go_error option) action" where
  "isStaged env stagingPath = do {
     (unmounted, err) \<leftarrow> he_IsNotMountPoint env stagingPath;
     if err \<noteq> None then
       (if os_IsNotExist err then State_Monad.return (False, None) else State_Monad.return (True, err))
     else State_Monad.return (\<not> unmounted, None)
   }"

text \<open>The branch of \<open>createMountPoint\<close> for a path that does not exist.\<close>

definition make_target_file :: "'w host_env \<Rightarrow> string \<Rightarrow> ('w, bool \<times> go_error option) action" where
  "make_target_file env path = do {
     merr \<leftarrow> he_MkdirAll env (Dir path);
     case merr of
       Some e \<Rightarrow> State_Monad.return (False, Some (Wrapf (''failed to create parent dir for '' @ path @ '': '') e))
     | None \<Rightarrow> do {
         serr \<leftarrow> he_Stat env path;
         if os_IsNotExist serr then do {
           cerr \<leftarrow> he_Create env path;
           case cerr of
             Some e \<Rightarrow> State_Monad.return
               (False, Some (Wrapf (''failed to create block device target file '' @ path @ '': '') e))
           | None \<Rightarrow> State_Monad.return (False, None)
         }
         else State_Monad.return (False, None)
       }
   }"

definition createMountPoint :: "'w host_env \<Rightarrow> string \<Rightarrow> ('w, bool \<times> go_error option) action" where
  "createMountPoint env path = do {
     (unmounted, err) \<leftarrow> he_IsNotMountPoint env path;
     if os_IsNotExist err then make_target_file env path
     else State_Monad.return (\<not> unmounted, err)
   }"

definition stageVolume :: "'w host_env \<Rightarrow> string \<Rightarrow> string \<Rightarrow> ('w, go_error option) action" where
  "stageVolume env devicePath stagingPath = do {
     (mounted, err) \<leftarrow> createMountPoint env stagingPath;
     if err \<noteq> None then State_Monad.return err
     else if mounted then State_Monad.return None
     else do {
       merr \<leftarrow> he_Mount env devicePath stagingPath [] [''bind''];
       case merr of
         Some e \<Rightarrow> State_Monad.return (Some (Wrapf ''failed to bind mount block device: '' e))
       | None \<Rightarrow> State_Monad.return None
     }
   }"

definition isDirNotEmpty :: "go_error \<Rightarrow> bool" where
  "isDirNotEmpty err = Contains (Error err) ''directory not empty''"

text \<open>The last part of \<open>deleteMountPoint\<close>; what comes of removing the parent directory is only logged.\<close>

definition remove_target :: "'w host_env \<Rightarrow> string \<Rightarrow> ('w, go_error option) action" where
  "remove_target env path = do {
     rerr \<leftarrow> he_Remove env path;
     if rerr \<noteq> None \<and> \<not> os_IsNotExist rerr
     then State_Monad.return
       (map_option (Wrapf (''failed to remove mount point file '' @ path @ '': '')) rerr)
     else do {
       derr \<leftarrow> he_Remove env (Dir path);
       State_Monad.return None
     }
   }"

definition deleteMountPoint :: "'w host_env \<Rightarrow> string \<Rightarrow> ('w, go_error option) action" where
  "deleteMountPoint env path = do {
     (unmounted, err) \<leftarrow> he_IsNotMountPoint env path;
     if os_IsNotExist err then State_Monad.return None
     else case err of
       Some e \<Rightarrow> State_Monad.return (Some (Wrapf ''failed to check mount point: '' e))
     | None \<Rightarrow>
         if \<not> unmounted then do {
           uerr \<leftarrow> he_Unmount env path;
           case uerr of
             Some e \<Rightarrow> State_Monad.return (Some (Wrapf ''failed to unmount: '' e))
           | None \<Rightarrow> remove_target env path
         }
         else remove_target env path
   }"

section \<open>Handlers\<close>

text \<open>\<open>stagingParentPath + "/" + volumeID\<close>.\<close>

definition staging_path :: "string \<Rightarrow> string \<Rightarrow> string" where
  "staging_path parent volumeID = parent @ ''/'' @ volumeID"

abbreviation stage_at :: "NodeStageVolumeRequest \<Rightarrow> string" where
  "stage_at req \<equiv> staging_path (nsv_StagingTargetPath req) (nsv_VolumeId req)"

abbreviation unstage_at :: "NodeUnstageVolumeRequest \<Rightarrow> string" where
  "unstage_at req \<equiv> staging_path (nuv_StagingTargetPath req) (nuv_VolumeId req)"

text \<open>
  From the connected device on. The deferred function sees the error of \<open>stageVolume\<close> and disconnects;
  its own error is ignored.
\<close>

definition stage_device :: "'w host_env \<Rightarrow> initiatorNVMf \<Rightarrow> string \<Rightarrow> string \<Rightarrow> ('w, unit res) action" where
  "stage_device env initiator devicePath path = do {
     err \<leftarrow> stageVolume env devicePath path;
     case err of
       Some e \<Rightarrow> do {
         derr \<leftarrow> Disconnect env initiator;
         State_Monad.return (Inl (Status Internal (Error e)))
       }
     | None \<Rightarrow> State_Monad.return (Inr ())
   }"

definition NodeStageVolume_body :: "'w host_env \<Rightarrow> NodeStageVolumeRequest \<Rightarrow> ('w, unit res) action" where
  "NodeStageVolume_body env req = do {
     (staged, err) \<leftarrow> isStaged env (stage_at req);
     case err of
       Some e \<Rightarrow> State_Monad.return (Inl (Status Internal (Error e)))
     | None \<Rightarrow>
         if staged then State_Monad.return (Inr ())
         else (case NewNvmeofCsiInitiator (nsv_PublishContext req) of
           Inl e \<Rightarrow> State_Monad.return (Inl (Status Internal (Error e)))
         | Inr initiator \<Rightarrow> do {
             r \<leftarrow> Connect env initiator;
             case r of
               Inl e \<Rightarrow> State_Monad.return (Inl (Status Internal (Error e)))
             | Inr devicePath \<Rightarrow> stage_device env initiator devicePath (stage_at req)
           })
   }"

text \<open>The validation runs before the lock is taken.\<close>

definition NodeStageVolume ::
    "'w host_env \<Rightarrow> NodeStageVolumeRequest \<Rightarrow> VolumeLocks \<times> 'w \<Rightarrow> (unit res \<times> VolumeLocks \<times> 'w) run" where
  "NodeStageVolume env req s =
     (let (err, w) = run_state (ValidateNodeStageVolumeRequest env req) (snd s)
      in case err of
           Some e \<Rightarrow> Done (Inl e, fst s, w)
         | None \<Rightarrow> with_lock (nsv_VolumeId req) (NodeStageVolume_body env req) (fst s, w))"

definition NodeUnstageVolume_body :: "'w host_env \<Rightarrow> NodeUnstageVolumeRequest \<Rightarrow> ('w, unit res) action" where
  "NodeUnstageVolume_body env req = do {
     let stagingTargetPath = unstage_at req;
     (staged, err) \<leftarrow> isStaged env stagingTargetPath;
     case err of
       Some e \<Rightarrow> State_Monad.return (Inl (Status Internal (Error e)))
     | None \<Rightarrow>
         if \<not> staged then State_Monad.return (Inr ())
         else do {
           derr \<leftarrow> deleteMountPoint env stagingTargetPath;
           case derr of
             Some e \<Rightarrow> State_Monad.return
               (Inl (Status Internal (''unstage volume '' @ nuv_VolumeId req @ '' failed: '' @ Error e)))
           | None \<Rightarrow> State_Monad.return (Inr ())
         }
   }"

definition NodeUnstageVolume ::
    "'w host_env \<Rightarrow> NodeUnstageVolumeRequest \<Rightarrow> VolumeLocks \<times> 'w \<Rightarrow> (unit res \<times> VolumeLocks \<times> 'w) run" where
  "NodeUnstageVolume env req = with_lock (nuv_VolumeId req) (NodeUnstageVolume_body env req)"

definition NodePublishVolume_body :: "'w host_env \<Rightarrow> NodePublishVolumeRequest \<Rightarrow> ('w, unit res) action" where
  "NodePublishVolume_body env req =
     (if \<not> GetBlock (npv_VolumeCapability req)
      then State_Monad.return (Inl (Status InvalidArgument ''only block volumes supported''))
      else do {
        (mounted, err) \<leftarrow> createMountPoint env (npv_TargetPath req);
        case err of
          Some e \<Rightarrow> State_Monad.return
            (Inl (Status Internal (''failed to create target mount point: '' @ Error e)))
        | None \<Rightarrow> do {
            merr \<leftarrow> he_Mount env (Join (npv_StagingTargetPath req) (npv_VolumeId req)) (npv_TargetPath req) [] [''bind''];
            case merr of
              Some e \<Rightarrow> State_Monad.return (Inl (Status Internal (''bind mount failed: '' @ Error e)))
            | None \<Rightarrow> State_Monad.return (Inr ())
          }
      })"

definition NodePublishVolume ::
    "'w host_env \<Rightarrow> NodePublishVolumeRequest \<Rightarrow> VolumeLocks \<times> 'w \<Rightarrow> (unit res \<times> VolumeLocks \<times> 'w) run" where
  "NodePublishVolume env req = with_lock (npv_VolumeId req) (NodePublishVolume_body env req)"

definition NodeUnpublishVolume_body :: "'w host_env \<Rightarrow> NodeUnpublishVolumeRequest \<Rightarrow> ('w, unit res) action" where
  "NodeUnpublishVolume_body env req = do {
     err \<leftarrow> deleteMountPoint env (nup_TargetPath req);
     case err of
       Some e \<Rightarrow> State_Monad.return (Inl (Status Internal (Error e)))
     | None \<Rightarrow> State_Monad.return (Inr ())
   }"

definition NodeUnpublishVolume ::
    "'w host_env \<Rightarrow> NodeUnpublishVolumeRequest \<Rightarrow> VolumeLocks \<times> 'w \<Rightarrow> (unit res \<times> VolumeLocks \<times> 'w) run" where
  "NodeUnpublishVolume env req = with_lock (nup_VolumeId req) (NodeUnpublishVolume_body env req)"

definition NodeGetCapabilities :: "int32 list res" where
  "NodeGetCapabilities = Inr [NODE_RPC_STAGE_UNSTAGE_VOLUME]"

record nodeServer =
  ns_defaultImpl :: DefaultNodeServer

text \<open>A node server is made with an empty lock table, and that cannot fail.\<close>

definition newNodeServer :: "CSIDriver \<Rightarrow> (nodeServer \<times> VolumeLocks) res" where
  "newNodeServer d = Inr (\<lparr>ns_defaultImpl = NewDefaultNodeServer d\<rparr>, NewVolumeLocks)"

definition NodeGetInfo :: "nodeServer \<Rightarrow> string res" where
  "NodeGetInfo ns = Default_NodeGetInfo (ns_defaultImpl ns)"

end
