(* ===== verification/Driver_Run.thy ===== *)
theory Driver_Run
  imports Controller_Server Node_Server
begin

text \<open>
  The identity service and the start of the driver (\<^verbatim>\<open>pkg/driver/identityserver.go\<close>,
  \<^verbatim>\<open>pkg/driver/driver.go\<close>, \<^verbatim>\<open>cmd/main.go\<close>): which servers a process makes and
  which services it registers with the gRPC server.
\<close>

section \<open>Identity\<close>

record identityServer =
  ids_defaultImpl :: DefaultIdentityServer

definition newIdentityServer :: "CSIDriver \<Rightarrow> identityServer" where
  "newIdentityServer d = \<lparr>ids_defaultImpl = NewDefaultIdentityServer d\<rparr>"

definition Probe :: "identityServer \<Rightarrow> unit res" where
  "Probe ids = Default_Probe (ids_defaultImpl ids)"

definition GetPluginCapabilities :: "identityServer \<Rightarrow> PluginCapability list res" where
  "GetPluginCapabilities ids = Inr [Service SERVICE_CONTROLLER, VolumeExpansion VOLUME_EXPANSION_UNKNOWN]"

definition GetPluginInfo :: "identityServer \<Rightarrow> PluginInfo res" where
  "GetPluginInfo ids = Default_GetPluginInfo (ids_defaultImpl ids)"

section \<open>Starting\<close>

record Config =
  DriverName :: string
  DriverVersion :: string
  Endpoint :: string
  NodeID :: string
  IsControllerServer :: bool
  IsNodeServer :: bool

abbreviation driverName :: string where "driverName \<equiv> ''csi.nvmeof.io''"
abbreviation driverVersion :: string where "driverVersion \<equiv> ''0.1.0''"

text \<open>The configuration before the command line is read: the values the flags are registered with.\<close>

definition default_conf :: Config where
  "default_conf = \<lparr>DriverName = driverName, DriverVersion = driverVersion, Endpoint = ''unix://tmp/nvmeofcsi.sock'',
     NodeID = [], IsControllerServer = True, IsNodeServer = False\<rparr>"

text \<open>
  The flag library: setting a flag by name, and parsing the command line, which gives the configuration
  with the flags in it or ends the process with a status. \<open>init\<close> ends it with status 1 when the log flag
  cannot be set.
\<close>

record flag_env =
  fe_Set :: "string \<Rightarrow> string \<Rightarrow> go_error option"
  fe_Parse :: "Config \<Rightarrow> nat + Config"

definition init_conf :: "flag_env \<Rightarrow> nat + Config" where
  "init_conf flags = (case fe_Set flags ''logtostderr'' ''true'' of
      Some err \<Rightarrow> Inl 1
    | None \<Rightarrow> fe_Parse flags default_conf)"

definition controllerCaps :: "int32 list" where
  "controllerCaps = [RPC_CREATE_DELETE_VOLUME, RPC_CREATE_DELETE_SNAPSHOT, RPC_PUBLISH_UNPUBLISH_VOLUME]"

definition volumeModes :: "int32 list" where
  "volumeModes = [SINGLE_NODE_WRITER]"

text \<open>How \<open>Run\<close> goes on: the process exits, or the server runs and \<open>Wait\<close> is reached.\<close>

datatype 'w started =
    FatalExit string
  | Started identityServer "'w controllerServer option" "nodeServer option"
      "(identityServer, 'w controllerServer, nodeServer) nonBlockingGRPCServer" serve_end

text \<open>The driver object with the capabilities of a controller.\<close>

definition configured_driver :: "Config \<Rightarrow> CSIDriver option" where
  "configured_driver conf = map_option (\<lambda>cd.
     if IsControllerServer conf
     then snd (AddVolumeCapabilityAccessModes volumeModes (AddControllerServiceCapabilities controllerCaps cd))
     else cd) (NewCSIDriver (DriverName conf) (DriverVersion conf) (NodeID conf))"

text \<open>
  From the point where the three servers are there. The variables \<open>cs\<close> and \<open>ns\<close> are pointers, which
  the call converts to interfaces: a nil pointer becomes an interface that is not nil.
\<close>

definition start_server ::
    "('w, identityServer, 'w controllerServer, nodeServer) net_env \<Rightarrow> Config \<Rightarrow> identityServer \<Rightarrow>
     'w controllerServer option \<Rightarrow> nodeServer option \<Rightarrow> ('w, 'w started) action" where
  "start_server net conf ids cs ns = do {
     let s = NewNonBlockingGRPCServer;
     let (s', run) = Start net (Endpoint conf) (Iface (Some ids)) (Iface cs) (Iface ns) s;
     (srv, e) \<leftarrow> run;
     State_Monad.return (case e of
         Exited msg \<Rightarrow> FatalExit msg
       | _ \<Rightarrow> Started ids cs ns (s'\<lparr>server := srv\<rparr>) e)
   }"

definition Run ::
    "('w, identityServer, 'w controllerServer, nodeServer) net_env \<Rightarrow> (string \<Rightarrow> ('w, 'w ClientConn res) action) \<Rightarrow>
     Config \<Rightarrow> ('w, 'w started) action" where
  "Run net DialContext conf = (case configured_driver conf of
      None \<Rightarrow> State_Monad.return (FatalExit ''Failed to initialize CSI Driver.'')
    | Some cd \<Rightarrow> do {
        let ids = newIdentityServer cd;
        let nsr = (if IsNodeServer conf then map_sum id (\<lambda>n. Some (fst n)) (newNodeServer cd) else Inr None);
        case nsr of
          Inl err \<Rightarrow> State_Monad.return (FatalExit (''failed to create node server: '' @ Error err))
        | Inr ns \<Rightarrow>
            if IsControllerServer conf then do {
              r \<leftarrow> newControllerServer DialContext cd;
              case r of
                Inl err \<Rightarrow> State_Monad.return (FatalExit (''failed to create controller server: '' @ Error err))
              | Inr c \<Rightarrow> start_server net conf ids (Some (fst c)) ns
            }
            else start_server net conf ids None ns
      })"

text \<open>
  The process: a call of \<^verbatim>\<open>klog.Fatal\<close> ends it with status 255 and a panic with status 2; when \<open>Wait\<close>
  returns, and so \<open>Run\<close>, it ends with status 0; until then it serves.
\<close>

datatype process = Exit nat | Serving

definition main_process ::
    "flag_env \<Rightarrow> ('w, identityServer, 'w controllerServer, nodeServer) net_env \<Rightarrow>
     (string \<Rightarrow> ('w, 'w ClientConn res) action) \<Rightarrow> ('w, process) action" where
  "main_process flags net DialContext = (case init_conf flags of
      Inl status \<Rightarrow> State_Monad.return (Exit status)
    | Inr conf \<Rightarrow> do {
        r \<leftarrow> Run net DialContext conf;
        State_Monad.return (case r of
            FatalExit msg \<Rightarrow> Exit 255
          | Started ids cs ns s e \<Rightarrow>
              if e = Panicked then Exit 2 else if Wait_returns s then Exit 0 else Serving)
      })"

section \<open>What a process offers\<close>

lemma configured_driver_cases:
  assumes "configured_driver conf = Some cd"
  shows "drv_name cd = DriverName conf" "drv_version cd = DriverVersion conf" "drv_nodeID cd = NodeID conf"
    "drv_name cd \<noteq> []" "drv_version cd \<noteq> []"
    "drv_cap cd = (if IsControllerServer conf then map NewControllerServiceCapability controllerCaps else [])"
    "drv_vc cd = (if IsControllerServer conf then map NewVolumeCapabilityAccessMode volumeModes else [])"
  using assms
  by (auto simp: configured_driver_def NewCSIDriver_def AddVolumeCapabilityAccessModes_def
      AddControllerServiceCapabilities_def append_caps_eq append_modes_eq Let_def split: if_splits)

lemma start_server_started:
  "fst (run_state (start_server net conf ids cs ns) w) = Started ids' cs' ns' s e \<Longrightarrow>
    ids' = ids \<and> cs' = cs \<and> ns' = ns \<and> wg s = 1"
  by (auto simp: start_server_def Start_def NewNonBlockingGRPCServer_def case_prod_beta Let_def split: serve_end.splits)

lemma Run_started:
  assumes "fst (run_state (Run net DialContext conf) w) = Started ids cs ns s e"
  shows "\<exists>cd. configured_driver conf = Some cd \<and> ids = newIdentityServer cd \<and> wg s = 1 \<and>
    (cs \<noteq> None \<longleftrightarrow> IsControllerServer conf) \<and> (ns \<noteq> None \<longleftrightarrow> IsNodeServer conf) \<and>
    (\<forall>c. cs = Some c \<longrightarrow> dcs_Driver (cs_defaultImpl c) = cd) \<and> (\<forall>n. ns = Some n \<longrightarrow> dns_Driver (ns_defaultImpl n) = cd)"
proof -
  obtain cd where cd: "configured_driver conf = Some cd"
    using assms by (cases "configured_driver conf") (simp_all add: Run_def)
  let ?ns = "if IsNodeServer conf then Some \<lparr>ns_defaultImpl = NewDefaultNodeServer cd\<rparr> else None"
  obtain r v where r: "run_state (newControllerServer DialContext cd) w = (r, v)" by fastforce
  have ctl: "dcs_Driver (cs_defaultImpl (fst c)) = cd" if "r = Inr c" for c
    using r that by (auto simp: newControllerServer_def default_server_defs case_prod_beta Let_def split: sum.splits)
  from assms have "\<exists>cs0 u. fst (run_state (start_server net conf (newIdentityServer cd) cs0 ?ns) u) = Started ids cs ns s e \<and>
      (cs0 \<noteq> None \<longleftrightarrow> IsControllerServer conf) \<and> (\<forall>c. cs0 = Some c \<longrightarrow> dcs_Driver (cs_defaultImpl c) = cd)"
    using ctl by (cases "IsNodeServer conf") (auto simp: Run_def cd r newNodeServer_def Let_def split: if_splits sum.splits)
  then obtain cs0 u where st: "fst (run_state (start_server net conf (newIdentityServer cd) cs0 ?ns) u) = Started ids cs ns s e"
    and cs0: "cs0 \<noteq> None \<longleftrightarrow> IsControllerServer conf" "\<forall>c. cs0 = Some c \<longrightarrow> dcs_Driver (cs_defaultImpl c) = cd" by blast
  with cd start_server_started [OF st] show ?thesis by (auto simp: default_server_defs)
qed

text \<open>
  C35. A process that has started answers for its configuration: the identity service reports the
  configured name and version, the node service (there exactly if it was asked for) the node ID, the
  controller (there exactly if it was asked for) accepts requests for creating and deleting volumes,
  for snapshots and for publishing and nothing else, and confirms single-node writers only; and
  \<open>Wait\<close> never returns, so that the process runs until it is stopped.
\<close>

theorem Run_serves_configuration:
  assumes "fst (run_state (Run net DialContext conf) w) = Started ids cs ns s e"
  shows "GetPluginInfo ids = Inr \<lparr>pi_Name = DriverName conf, pi_VendorVersion = DriverVersion conf\<rparr> \<and>
    (cs \<noteq> None \<longleftrightarrow> IsControllerServer conf) \<and> (ns \<noteq> None \<longleftrightarrow> IsNodeServer conf) \<and>
    (\<forall>n. ns = Some n \<longrightarrow> NodeGetInfo n = Inr (NodeID conf)) \<and>
    (\<forall>c. cs = Some c \<longrightarrow>
      (\<forall>t str. ValidateControllerServiceRequest str (dcs_Driver (cs_defaultImpl c)) t = None \<longleftrightarrow>
        t \<in> {RPC_UNKNOWN, RPC_CREATE_DELETE_VOLUME, RPC_CREATE_DELETE_SNAPSHOT, RPC_PUBLISH_UNPUBLISH_VOLUME}) \<and>
      (\<forall>caps. ValidateVolumeCapabilities c caps = Inr \<lparr>Confirmed = Some caps, Message = []\<rparr> \<longleftrightarrow>
        (\<forall>x \<in> set caps. GetAccessMode_GetMode x = SINGLE_NODE_WRITER))) \<and>
    \<not> Wait_returns s"
proof -
  obtain cd where cd: "configured_driver conf = Some cd" and ids: "ids = newIdentityServer cd" and wg: "wg s = 1"
    and there: "cs \<noteq> None \<longleftrightarrow> IsControllerServer conf" "ns \<noteq> None \<longleftrightarrow> IsNodeServer conf"
    and impl: "\<And>c. cs = Some c \<Longrightarrow> dcs_Driver (cs_defaultImpl c) = cd" "\<And>n. ns = Some n \<Longrightarrow> dns_Driver (ns_defaultImpl n) = cd"
    using Run_started [OF assms] by blast
  note drv = configured_driver_cases [OF cd]
  have "GetPluginInfo ids = Inr \<lparr>pi_Name = DriverName conf, pi_VendorVersion = DriverVersion conf\<rparr>"
    using drv by (simp add: ids newIdentityServer_def GetPluginInfo_def Default_GetPluginInfo_def default_server_defs)
  moreover have "NodeGetInfo n = Inr (NodeID conf)" if "ns = Some n" for n
    using drv impl(2) [OF that] by (simp add: NodeGetInfo_def Default_NodeGetInfo_def)
  moreover have "ValidateControllerServiceRequest str (dcs_Driver (cs_defaultImpl c)) t = None \<longleftrightarrow>
      t \<in> {RPC_UNKNOWN, RPC_CREATE_DELETE_VOLUME, RPC_CREATE_DELETE_SNAPSHOT, RPC_PUBLISH_UNPUBLISH_VOLUME}"
    if "cs = Some c" for c t str
    using drv impl(1) [OF that] there(1) that
    by (auto simp: ValidateControllerServiceRequest_def cap_listed_iff controllerCaps_def
        NewControllerServiceCapability_def GetRpc_GetType_def)
  moreover have "ValidateVolumeCapabilities c caps = Inr \<lparr>Confirmed = Some caps, Message = []\<rparr> \<longleftrightarrow>
      (\<forall>x \<in> set caps. GetAccessMode_GetMode x = SINGLE_NODE_WRITER)" if "cs = Some c" for c caps
    using drv impl(1) [OF that] there(1) that
    by (auto simp: ValidateVolumeCapabilities_def all_supported_iff GetVolumeCapabilityAccessModes_def volumeModes_def
        NewVolumeCapabilityAccessMode_def)
  ultimately show ?thesis using there wg by (simp add: Wait_returns_def)
qed

text \<open>The process ends with status 0 only in the flag library: once it has started, \<open>Wait\<close> does not return.\<close>

lemma main_never_exits_0:
  assumes "init_conf flags = Inr conf"
  shows "fst (run_state (main_process flags net DialContext) w) \<noteq> Exit 0"
proof (cases "fst (run_state (Run net DialContext conf) w)")
  case (Started ids cs ns s e)
  with assms Run_started [OF Started] show ?thesis
    by (auto simp: main_process_def Wait_returns_def case_prod_beta Let_def)
qed (simp add: assms main_process_def case_prod_beta Let_def)

text \<open>A network that always works and remembers, for each service it was asked to serve, whether it is nil.\<close>

definition nil_service :: "('i, 'c, 'n) service \<Rightarrow> bool" where
  "nil_service s = (case s of IdentityService p \<Rightarrow> p = None | ControllerService p \<Rightarrow> p = None | NodeService p \<Rightarrow> p = None)"

definition recording_net :: "(bool list, 'i, 'c, 'n) net_env" where
  "recording_net = \<lparr>ne_Remove = (\<lambda>_. State_Monad.return None), ne_Listen = (\<lambda>_ _. State_Monad.return (Inr 0)),
     ne_Serve = (\<lambda>svcs _. State (\<lambda>_. (None, map nil_service svcs))),
     ne_GracefulStop = (\<lambda>_. State_Monad.return ()), ne_Stop = (\<lambda>_. State_Monad.return ())\<rparr>"

lemma serve_recording:
  assumes "parseEndpoint endpoint = Some (Inr (proto, addr))"
  shows "snd (run_state (serve recording_net endpoint (Iface ids) (Iface cs) (Iface ns) s) v) = [ids = None, cs = None, ns = None]"
  using assms
  by (simp add: serve_def serve_listen_def recording_net_def register_services_def nil_service_def Let_def)

text \<open>
  C36. All three services are always registered: a process that was not asked to be a controller still
  serves the controller service, with a nil server behind it, and likewise for the node service. The
  test for nil in the server cannot see this, because it compares interfaces.
\<close>

theorem Run_registers_nil_services:
  assumes "\<not> IsControllerServer conf" and "DriverName conf \<noteq> []" and "DriverVersion conf \<noteq> []" and "NodeID conf \<noteq> []"
    and "parseEndpoint (Endpoint conf) = Some (Inr (proto, addr))"
  shows "snd (run_state (Run recording_net DialContext conf) w) = [False, True, \<not> IsNodeServer conf]"
proof -
  obtain cd where cd: "configured_driver conf = Some cd"
    using assms(1-4) by (simp add: configured_driver_def NewCSIDriver_def)
  show ?thesis
    using assms(1)
    by (simp add: Run_def cd start_server_def Start_def newNodeServer_def serve_recording [OF assms(5)] case_prod_beta Let_def)
qed

definition demo_conf :: Config where
  "demo_conf = default_conf\<lparr>NodeID := ''node-1'', IsControllerServer := False, IsNodeServer := True, Endpoint := ''tcp://x''\<rparr>"

lemma demo_endpoint: "parseEndpoint (Endpoint demo_conf) = Some (Inr (''tcp'', ''x''))"
  by code_simp

theorem Run_registers_nil_services_witness:
  "snd (run_state (Run recording_net (\<lambda>_. State_Monad.return (Inl no_method)) demo_conf) []) = [False, True, False]"
  using Run_registers_nil_services [of demo_conf "''tcp''" "''x''"] demo_endpoint
  by (simp add: demo_conf_def default_conf_def)

theorem Run_serves_configuration_witness:
  "\<exists>ids cs ns s e. fst (run_state (Run recording_net (\<lambda>_. State_Monad.return (Inl no_method)) demo_conf) []) = Started ids cs ns s e \<and>
     GetPluginInfo ids = Inr \<lparr>pi_Name = ''csi.nvmeof.io'', pi_VendorVersion = ''0.1.0''\<rparr> \<and> cs = None \<and> ns \<noteq> None"
proof -
  have "\<exists>ids cs ns s e. fst (run_state (Run recording_net (\<lambda>_. State_Monad.return (Inl no_method)) demo_conf) []) = Started ids cs ns s e"
    using demo_endpoint
    by (simp add: Run_def configured_driver_def NewCSIDriver_def start_server_def Start_def serve_def serve_listen_def
        recording_net_def newNodeServer_def demo_conf_def default_conf_def case_prod_beta Let_def)
  then obtain ids cs ns s e where
    run: "fst (run_state (Run recording_net (\<lambda>_. State_Monad.return (Inl no_method)) demo_conf) []) = Started ids cs ns s e"
    by blast
  from run Run_serves_configuration [OF run] show ?thesis
    by (intro exI conjI) (auto simp: demo_conf_def default_conf_def)
qed

end
