(* ===== verification/Gateway_Contract.thy ===== *)
theory Gateway_Contract
  imports Controller_Server
begin

text \<open>
  What the controller relies on in the gateway. The gateway is another program; the contract of the
  calls the controller makes is the locale \<open>gateway\<close>, over a view of the gateway's state as a table of
  namespaces. The handlers of \<^verbatim>\<open>pkg/driver/controllerserver.go\<close> are followed through this table.
\<close>

type_synonym ns_table = "string \<times> uint32 \<rightharpoonup> NamespaceCli"

abbreviation ns_key :: "NamespaceAddReq \<Rightarrow> NsidStatus option \<Rightarrow> string \<times> uint32" where
  "ns_key req resp \<equiv> (nar_SubsystemNqn req, NsidStatus_GetNsid resp)"

definition added :: "NsidStatus option res \<Rightarrow> bool" where
  "added reply = (case reply of Inl _ \<Rightarrow> False | Inr resp \<Rightarrow> NsidStatus_GetStatus resp = 0)"

definition deleted :: "ReqStatus option res \<Rightarrow> bool" where
  "deleted reply = (case reply of Inl _ \<Rightarrow> False | Inr resp \<Rightarrow> ReqStatus_GetStatus resp = 0)"

text \<open>
  An accepted addition puts one namespace, with the image asked for and a UUID, under a new ID; an
  accepted deletion takes one out; a call that is not accepted changes nothing (so that no answer is
  lost); the list of a subsystem has its namespaces, and nothing when it reports an error.
\<close>

locale gateway =
  fixes client :: "'w GatewayClient" and nss :: "'w \<Rightarrow> ns_table" and inv :: "'w \<Rightarrow> bool"
  assumes add_inv: "inv w \<Longrightarrow> run_state (NamespaceAdd client req) w = (reply, w') \<Longrightarrow> inv w'"
    and delete_inv: "inv w \<Longrightarrow> run_state (NamespaceDelete client dreq) w = (dreply, w') \<Longrightarrow> inv w'"
    and list_inv: "inv w \<Longrightarrow> run_state (ListNamespaces client lreq) w = (lreply, w') \<Longrightarrow> inv w' \<and> nss w' = nss w"
    and not_added: "inv w \<Longrightarrow> run_state (NamespaceAdd client req) w = (reply, w') \<Longrightarrow> \<not> added reply \<Longrightarrow> nss w' = nss w"
    and is_added: "inv w \<Longrightarrow> run_state (NamespaceAdd client req) w = (Inr resp, w') \<Longrightarrow> added (Inr resp) \<Longrightarrow>
      \<exists>ns. nss w (ns_key req resp) = None \<and> nss w' = (nss w)(ns_key req resp \<mapsto> ns) \<and>
        nc_RbdPoolName ns = nar_RbdPoolName req \<and> nc_RbdImageName ns = nar_RbdImageName req \<and> nc_Uuid ns \<noteq> []"
    and not_deleted: "inv w \<Longrightarrow> run_state (NamespaceDelete client dreq) w = (dreply, w') \<Longrightarrow> \<not> deleted dreply \<Longrightarrow>
      nss w' = nss w"
    and is_deleted: "inv w \<Longrightarrow> run_state (NamespaceDelete client dreq) w = (dreply, w') \<Longrightarrow> deleted dreply \<Longrightarrow>
      nss w (ndr_SubsystemNqn dreq, ndr_Nsid dreq) \<noteq> None \<and>
      nss w' = (nss w)((ndr_SubsystemNqn dreq, ndr_Nsid dreq) := None)"
    and listed: "inv w \<Longrightarrow> run_state (ListNamespaces client lreq) w = (Inr info, w') \<Longrightarrow>
      lnr_Nsid lreq = None \<Longrightarrow> lnr_Uuid lreq = None \<Longrightarrow>
      set (NamespacesInfo_GetNamespaces info) =
        (if nil_get ni_Status 0 info = 0 then {Some ns |ns nsid. nss w (lnr_Subsystem lreq, nsid) = Some ns} else {})"

text \<open>A gateway that does not give an image to two namespaces unless it is forced to.\<close>

locale gateway_guarded = gateway +
  assumes in_use: "inv w \<Longrightarrow> nss w k = Some ns \<Longrightarrow> nc_RbdPoolName ns = nar_RbdPoolName req \<Longrightarrow>
    nc_RbdImageName ns = nar_RbdImageName req \<Longrightarrow> nar_Force req \<noteq> Some True \<Longrightarrow>
    \<not> added (fst (run_state (NamespaceAdd client req) w))"

section \<open>The handlers on the table\<close>

context gateway
begin

lemma CreateVolume_adds:
  assumes "locks_inv vl" "CreateVolume cs req (vl, w) = Done (Inr vol, vl', w')" "cs_gatewayClient cs = client" "inv w"
  obtains nsid ns vol0 where "created_volume req nsid = Inr vol0" "vol = add_parameters req vol0"
    "nss w (param req ''SubsystemNqn'', nsid) = None"
    "nss w' = (nss w)((param req ''SubsystemNqn'', nsid) \<mapsto> ns)"
    "nc_RbdPoolName ns = param req ''RbdPoolName''" "nc_RbdImageName ns = cvr_Name req" "nc_Uuid ns \<noteq> []" "inv w'"
proof -
  from CreateVolume_success [OF assms(1,2)] obtain resp vol0 where
    add: "run_state (NamespaceAdd client (namespace_add_req req)) w = (Inr resp, w')"
    and st: "NsidStatus_GetStatus resp = 0"
    and vol: "created_volume req (NsidStatus_GetNsid resp) = Inr vol0" "vol = add_parameters req vol0"
    unfolding assms(3) by metis
  have "added (Inr resp)" using st by (simp add: added_def)
  from is_added [OF assms(4) add this] obtain ns where
    "nss w (ns_key (namespace_add_req req) resp) = None"
    "nss w' = (nss w)(ns_key (namespace_add_req req) resp \<mapsto> ns)"
    "nc_RbdPoolName ns = param req ''RbdPoolName''" "nc_RbdImageName ns = cvr_Name req" "nc_Uuid ns \<noteq> []"
    by (auto simp: namespace_add_req_def)
  with that [OF vol] add_inv [OF assms(4) add] show ?thesis by (simp add: namespace_add_req_def)
qed

lemma DeleteVolume_body_deletes:
  assumes "run_state (DeleteVolume_body cs i) w = (Inr (), w')" "cs_gatewayClient cs = client" "inv w"
  shows "nss w (NQN i, NSID i) \<noteq> None" and "nss w' = (nss w)((NQN i, NSID i) := None)" and "inv w'"
proof -
  let ?d = "\<lparr>ndr_SubsystemNqn = NQN i, ndr_Nsid = NSID i, ndr_OBSOLETEUuid = None, ndr_IAmSure = None\<rparr>"
  obtain reply v where del: "run_state (NamespaceDelete client ?d) w = (reply, v)" by fastforce
  with assms(1,2) have v: "v = w'" and "delete_result reply = Inr ()" by (auto simp: run_DeleteVolume_body)
  then have "deleted reply" by (auto simp: delete_result_def deleted_def split: sum.splits if_splits)
  from is_deleted [OF assms(3) del this] delete_inv [OF assms(3) del] v
  show "nss w (NQN i, NSID i) \<noteq> None" "nss w' = (nss w)((NQN i, NSID i) := None)" "inv w'" by simp_all
qed

lemma DeleteVolume_body_missing:
  assumes "run_state (DeleteVolume_body cs i) w = (r, w')" "cs_gatewayClient cs = client" "inv w" "nss w (NQN i, NSID i) = None"
  shows "\<exists>msg. r = Inl (Status Internal msg) \<and> nss w' = nss w"
proof -
  let ?d = "\<lparr>ndr_SubsystemNqn = NQN i, ndr_Nsid = NSID i, ndr_OBSOLETEUuid = None, ndr_IAmSure = None\<rparr>"
  obtain reply v where del: "run_state (NamespaceDelete client ?d) w = (reply, v)" by fastforce
  from is_deleted [OF assms(3) del] assms(4) have "\<not> deleted reply" by auto
  with not_deleted [OF assms(3) del] assms(1,2) del show ?thesis
    by (auto simp: run_DeleteVolume_body delete_result_def deleted_def split: sum.splits)
qed

lemma DeleteVolume_deletes:
  assumes "created_volume req nsid = Inr vol0" "valid_utf8 (cvr_Name req)" "valid_utf8 (param req ''SubsystemNqn'')"
    and "DeleteVolume cs \<lparr>dvr_VolumeId = VolumeId (add_parameters req vol0)\<rparr> (vl, w) = Done (Inr (), vl', w')"
    and "cs_gatewayClient cs = client" "inv w"
  shows "nss w (param req ''SubsystemNqn'', nsid) \<noteq> None"
    and "nss w' = (nss w)((param req ''SubsystemNqn'', nsid) := None)" and "inv w'"
  using DeleteVolume_body_deletes [OF with_lock_DoneD [OF assms(4) [unfolded DeleteVolume_created [OF assms(1-3)]]] assms(5,6)]
  by simp_all

text \<open>
  Publishing looks only, and finds the namespace of the image when it is the only one of the subsystem
  with that image.
\<close>

lemma find_uuid_unique:
  assumes "Some ns \<in> set l" "\<forall>n \<in> set l. NamespaceCli_GetRbdImageName n = img \<longrightarrow> n = Some ns" "nc_RbdImageName ns = img"
  shows "find_uuid img l = nc_Uuid ns"
  using assms by (induction l) (auto simp: getter_defs)

lemma find_uuid_in: "find_uuid img l \<noteq> [] \<Longrightarrow> \<exists>n \<in> set l. NamespaceCli_GetRbdImageName n = img \<and> find_uuid img l = NamespaceCli_GetUuid n"
  by (induction l) auto

lemma listed_created:
  assumes inv: "inv w" and l: "run_state (ListNamespaces client \<lparr>lnr_Subsystem = nqn, lnr_Nsid = None, lnr_Uuid = None\<rparr>) w = (Inr (Some info), w')"
    and st: "ni_Status info = 0" and ns: "nss w (nqn, nsid) = Some ns" and img: "nc_RbdImageName ns = img"
    and only: "\<forall>k n. nss w (nqn, k) = Some n \<and> nc_RbdImageName n = img \<longrightarrow> k = nsid"
  shows "find_uuid img (NamespacesInfo_GetNamespaces (Some info)) = nc_Uuid ns"
proof (rule find_uuid_unique [OF _ _ img])
  have set: "set (NamespacesInfo_GetNamespaces (Some info)) = {Some n |n i. nss w (nqn, i) = Some n}"
    using listed [OF inv l] st by auto
  show "Some ns \<in> set (NamespacesInfo_GetNamespaces (Some info))" using ns by (auto simp: set)
  show "\<forall>n \<in> set (NamespacesInfo_GetNamespaces (Some info)). NamespaceCli_GetRbdImageName n = img \<longrightarrow> n = Some ns"
  proof (intro ballI impI)
    fix n assume "n \<in> set (NamespacesInfo_GetNamespaces (Some info))" and n: "NamespaceCli_GetRbdImageName n = img"
    then obtain m k where m: "n = Some m" "nss w (nqn, k) = Some m" unfolding set by blast
    with n only have "k = nsid" by (simp add: getter_defs)
    with m ns show "n = Some ns" by simp
  qed
qed

lemma ControllerPublish_finds:
  assumes run: "run_state (ControllerPublishVolume cs req) w = (Inr pc, w')" and cs: "cs_gatewayClient cs = client" and inv: "inv w"
    and ns: "nss w (go_index_nil (cpr_VolumeContext req) ''nqn'', nsid) = Some ns"
    and img: "nc_RbdImageName ns = go_index_nil (cpr_VolumeContext req) ''image''"
    and only: "\<And>i n. nss w (go_index_nil (cpr_VolumeContext req) ''nqn'', i) = Some n \<Longrightarrow>
      nc_RbdImageName n = nc_RbdImageName ns \<Longrightarrow> i = nsid"
  shows "pc = [(''uuid'', nc_Uuid ns), (''nqn'', go_index_nil (cpr_VolumeContext req) ''nqn''),
      (''traddr'', go_index_nil (cpr_VolumeContext req) ''traddr''), (''trsvcid'', go_index_nil (cpr_VolumeContext req) ''trsvcid''),
      (''transport'', go_index_nil (cpr_VolumeContext req) ''transport'')]"
    and "nss w' = nss w" and "inv w'"
proof -
  let ?nqn = "go_index_nil (cpr_VolumeContext req) ''nqn''" and ?img = "go_index_nil (cpr_VolumeContext req) ''image''"
  let ?l = "\<lparr>lnr_Subsystem = ?nqn, lnr_Nsid = None, lnr_Uuid = None\<rparr>"
  obtain reply v where l: "run_state (ListNamespaces client ?l) w = (reply, v)" by fastforce
  from run cs l obtain info where info: "reply = Inr info" "find_uuid ?img (NamespacesInfo_GetNamespaces info) \<noteq> []" "v = w'"
    and pc: "pc = [(''uuid'', find_uuid ?img (NamespacesInfo_GetNamespaces info)), (''nqn'', ?nqn),
      (''traddr'', go_index_nil (cpr_VolumeContext req) ''traddr''), (''trsvcid'', go_index_nil (cpr_VolumeContext req) ''trsvcid''),
      (''transport'', go_index_nil (cpr_VolumeContext req) ''transport'')]"
    by (auto simp: ControllerPublishVolume_def Let_def split: sum.splits if_splits)
  from list_inv [OF inv l] info(3) show "nss w' = nss w" "inv w'" by simp_all
  obtain m where m: "info = Some m" "ni_Status m = 0"
  proof (cases info)
    case None
    with info(2) show ?thesis by (simp add: getter_defs)
  next
    case (Some m)
    with listed [OF inv l [unfolded info(1)]] find_uuid_in [OF info(2)] that show ?thesis by (auto split: if_splits)
  qed
  have "find_uuid ?img (NamespacesInfo_GetNamespaces info) = nc_Uuid ns"
    using listed_created [OF inv l [unfolded info(1) m(1)] m(2) ns img] only img m(1) by simp
  with pc show "pc = [(''uuid'', nc_Uuid ns), (''nqn'', ?nqn),
      (''traddr'', go_index_nil (cpr_VolumeContext req) ''traddr''), (''trsvcid'', go_index_nil (cpr_VolumeContext req) ''trsvcid''),
      (''transport'', go_index_nil (cpr_VolumeContext req) ''transport'')]" by simp
qed

end

section \<open>The gateway in memory keeps the contract\<close>

definition mem_key :: "string \<times> uint32 \<Rightarrow> NamespaceCli \<Rightarrow> bool" where
  "mem_key k n \<longleftrightarrow> nc_NsSubsystemNqn n = Some (fst k) \<and> nc_Nsid n = snd k"

definition mem_nss :: "gateway_mem \<Rightarrow> ns_table" where
  "mem_nss g k = find (mem_key k) (gm_namespaces g)"

definition mem_inv :: "gateway_mem \<Rightarrow> bool" where
  "mem_inv g \<longleftrightarrow> distinct (map nc_Nsid (gm_namespaces g))"

lemma mem_nss_iff: "mem_inv g \<Longrightarrow> mem_nss g k = Some n \<longleftrightarrow> n \<in> set (gm_namespaces g) \<and> mem_key k n"
proof
  assume "mem_nss g k = Some n"
  then show "n \<in> set (gm_namespaces g) \<and> mem_key k n" by (auto simp: mem_nss_def find_Some_iff)
next
  assume inv: "mem_inv g" and n: "n \<in> set (gm_namespaces g) \<and> mem_key k n"
  then have "mem_nss g k \<noteq> None" unfolding mem_nss_def find_None_iff by blast
  then obtain m where m: "mem_nss g k = Some m" by blast
  then have "m \<in> set (gm_namespaces g)" "mem_key k m" by (auto simp: mem_nss_def find_Some_iff)
  with inv n have "m = n" by (auto simp: mem_inv_def mem_key_def distinct_map inj_on_def)
  with m show "mem_nss g k = Some n" by simp
qed

lemma mem_add_ok:
  assumes "mem_inv g" "nss_Status (fst (mem_add req g)) = 0"
  shows "nss_Nsid (fst (mem_add req g)) = gm_next g" "gm_next g \<notin> nc_Nsid ` set (gm_namespaces g)"
    "gm_namespaces (snd (mem_add req g)) = gm_namespaces g @ [mem_namespace req (gm_next g)]" "mem_inv (snd (mem_add req g))"
  using assms by (auto simp: mem_add_def mem_inv_def mem_namespace_def list_ex_iff split: if_splits)

lemma mem_add_refused: "nss_Status (fst (mem_add req g)) \<noteq> 0 \<Longrightarrow> snd (mem_add req g) = g"
  by (auto simp: mem_add_def split: if_splits)

lemma mem_nss_add:
  assumes "mem_inv g" "nss_Status (fst (mem_add req g)) = 0"
  shows "mem_nss g (nar_SubsystemNqn req, gm_next g) = None"
    "mem_nss (snd (mem_add req g)) = (mem_nss g)((nar_SubsystemNqn req, gm_next g) \<mapsto> mem_namespace req (gm_next g))"
proof -
  show none: "mem_nss g (nar_SubsystemNqn req, gm_next g) = None"
    using mem_add_ok(2) [OF assms] by (force simp: mem_nss_def find_None_iff mem_key_def)
  have "find P (xs @ [x]) = (case find P xs of None \<Rightarrow> if P x then Some x else None | Some y \<Rightarrow> Some y)"
    for P :: "NamespaceCli \<Rightarrow> bool" and xs x by (induction xs) auto
  then show "mem_nss (snd (mem_add req g)) = (mem_nss g)((nar_SubsystemNqn req, gm_next g) \<mapsto> mem_namespace req (gm_next g))"
    using none mem_add_ok(3) [OF assms]
    by (auto simp: fun_eq_iff mem_nss_def mem_key_def mem_namespace_def split: option.split)
qed

lemma mem_key_unique: "mem_key k n \<Longrightarrow> mem_key k' n \<Longrightarrow> k = k'"
  by (simp add: mem_key_def prod_eq_iff)

lemma find_other_key:
  "find (mem_key k) (filter (\<lambda>n. \<not> mem_key k' n) xs) = (if k = k' then None else find (mem_key k) xs)"
  by (induction xs) (auto dest: mem_key_unique)

lemma mem_nss_delete:
  assumes "mem_inv g"
  shows "if rs_Status (fst (mem_delete req g)) = 0
    then mem_nss g (ndr_SubsystemNqn req, ndr_Nsid req) \<noteq> None \<and>
      mem_nss (snd (mem_delete req g)) = (mem_nss g)((ndr_SubsystemNqn req, ndr_Nsid req) := None)
    else snd (mem_delete req g) = g"
    and "mem_inv (snd (mem_delete req g))"
proof -
  let ?k = "(ndr_SubsystemNqn req, ndr_Nsid req)"
  have this_key: "(\<lambda>n. nc_Nsid n = ndr_Nsid req \<and> nc_NsSubsystemNqn n = Some (ndr_SubsystemNqn req)) = mem_key ?k"
    by (auto simp: mem_key_def)
  have "find (mem_key k) (filter (\<lambda>n. \<not> mem_key ?k n) (gm_namespaces g)) = (if k = ?k then None else find (mem_key k) (gm_namespaces g))" for k
    by (rule find_other_key)
  then show "if rs_Status (fst (mem_delete req g)) = 0
    then mem_nss g ?k \<noteq> None \<and> mem_nss (snd (mem_delete req g)) = (mem_nss g)(?k := None)
    else snd (mem_delete req g) = g"
    unfolding mem_delete_def this_key by (auto simp: mem_nss_def Let_def fun_eq_iff list_ex_iff find_None_iff)
  show "mem_inv (snd (mem_delete req g))"
    using assms by (auto simp: mem_delete_def mem_inv_def Let_def distinct_map_filter)
qed

lemma mem_listed:
  assumes "mem_inv g"
  shows "set (ni_Namespaces (mem_list req g)) = {Some n |n i. mem_nss g (lnr_Subsystem req, i) = Some n}"
  using mem_nss_iff [OF assms] by (auto simp: mem_list_def mem_key_def)

lemma mem_in_use:
  assumes "mem_inv g" "mem_nss g k = Some n" "nc_RbdPoolName n = nar_RbdPoolName req" "nc_RbdImageName n = nar_RbdImageName req"
    "nar_Force req \<noteq> Some True"
  shows "nss_Status (fst (mem_add req g)) \<noteq> 0"
proof -
  from assms(1,2) have "n \<in> set (gm_namespaces g)" by (simp add: mem_nss_iff)
  with assms(3,4) have "list_ex (\<lambda>n. nc_RbdPoolName n = nar_RbdPoolName req \<and> nc_RbdImageName n = nar_RbdImageName req) (gm_namespaces g)"
    unfolding list_ex_iff by blast
  with assms(5) show ?thesis by (simp add: mem_add_def)
qed

interpretation mem_gw: gateway_guarded "NewGatewayClient mem_conn" mem_nss mem_inv
proof
  fix w w' reply req resp
  assume inv: "mem_inv w"
  { assume run: "run_state (NamespaceAdd (NewGatewayClient mem_conn) req) w = (reply, w')"
    show "mem_inv w'" using run inv mem_add_ok(4) [OF inv, of req] mem_add_refused [of req w]
      by (cases "nss_Status (fst (mem_add req w)) = 0") (auto simp: run_mem_client)
    show "\<not> added reply \<Longrightarrow> mem_nss w' = mem_nss w"
      using run mem_add_refused [of req w] by (auto simp: run_mem_client added_def getter_defs) }
  assume "run_state (NamespaceAdd (NewGatewayClient mem_conn) req) w = (Inr resp, w')" "added (Inr resp)"
  then have ok: "resp = Some (fst (mem_add req w))" "w' = snd (mem_add req w)" "nss_Status (fst (mem_add req w)) = 0"
    by (auto simp: run_mem_client added_def getter_defs)
  with mem_nss_add [OF inv ok(3)] mem_add_ok(1) [OF inv ok(3)]
  show "\<exists>ns. mem_nss w (ns_key req resp) = None \<and> mem_nss w' = (mem_nss w)(ns_key req resp \<mapsto> ns) \<and>
      nc_RbdPoolName ns = nar_RbdPoolName req \<and> nc_RbdImageName ns = nar_RbdImageName req \<and> nc_Uuid ns \<noteq> []"
    by (intro exI [of _ "mem_namespace req (gm_next w)"]) (simp add: getter_defs mem_namespace_def)
next
  fix w w' dreply dreq
  assume inv: "mem_inv w" and "run_state (NamespaceDelete (NewGatewayClient mem_conn) dreq) w = (dreply, w')"
  then have ok: "dreply = Inr (Some (fst (mem_delete dreq w)))" "w' = snd (mem_delete dreq w)"
    by (auto simp: run_mem_client)
  show "mem_inv w'" using mem_nss_delete(2) [OF inv] ok by simp
  show "\<not> deleted dreply \<Longrightarrow> mem_nss w' = mem_nss w"
    using mem_nss_delete(1) [OF inv, of dreq] ok by (auto simp: deleted_def getter_defs)
  show "deleted dreply \<Longrightarrow> mem_nss w (ndr_SubsystemNqn dreq, ndr_Nsid dreq) \<noteq> None \<and>
      mem_nss w' = (mem_nss w)((ndr_SubsystemNqn dreq, ndr_Nsid dreq) := None)"
    using mem_nss_delete(1) [OF inv, of dreq] ok by (auto simp: deleted_def getter_defs)
next
  fix w w' lreq lreply info
  assume inv: "mem_inv w"
  show "run_state (ListNamespaces (NewGatewayClient mem_conn) lreq) w = (lreply, w') \<Longrightarrow> mem_inv w' \<and> mem_nss w' = mem_nss w"
    using inv by (auto simp: run_mem_client)
  assume "run_state (ListNamespaces (NewGatewayClient mem_conn) lreq) w = (Inr info, w')"
  then have "info = Some (mem_list lreq w)" by (auto simp: run_mem_client)
  with mem_listed [OF inv, of lreq] show "set (NamespacesInfo_GetNamespaces info) =
      (if nil_get ni_Status 0 info = 0 then {Some ns |ns nsid. mem_nss w (lnr_Subsystem lreq, nsid) = Some ns} else {})"
    by (simp add: getter_defs mem_list_def)
next
  fix w :: gateway_mem and k :: "string \<times> uint32" and ns :: NamespaceCli and req :: NamespaceAddReq
  assume "mem_inv w" "mem_nss w k = Some ns" "nc_RbdPoolName ns = nar_RbdPoolName req"
    "nc_RbdImageName ns = nar_RbdImageName req" "nar_Force req \<noteq> Some True"
  from mem_in_use [OF this] show "\<not> added (fst (run_state (NamespaceAdd (NewGatewayClient mem_conn) req) w))"
    by (simp add: run_mem_client added_def getter_defs)
qed

section \<open>A volume in the gateway\<close>

text \<open>
  C3. Creating puts one namespace into the gateway and deleting takes that one out: on any gateway that
  keeps the contract, a \<open>CreateVolume\<close> that succeeds adds exactly one namespace, with the image and
  the pool asked for, under a key that was free, and changes no other; a \<open>DeleteVolume\<close> of the volume ID
  it returned that succeeds at any later time, from whatever locks and namespaces there are then,
  removes the namespace with that key and no other. With nothing else done in between, the gateway has
  the namespaces it had before.
\<close>

theorem create_delete_namespace:
  assumes gw: "gateway (cs_gatewayClient cs) nss I" and inv: "I w" "I w2" and locks: "locks_inv vl"
    and create: "CreateVolume cs req (vl, w) = Done (Inr vol, vl1, w1)"
    and utf8: "valid_utf8 (cvr_Name req)" "valid_utf8 (param req ''SubsystemNqn'')"
    and delete: "DeleteVolume cs \<lparr>dvr_VolumeId = VolumeId vol\<rparr> (vl2, w2) = Done (Inr (), vl3, w3)"
  shows "\<exists>nsid ns. nc_RbdPoolName ns = param req ''RbdPoolName'' \<and> nc_RbdImageName ns = cvr_Name req \<and>
    nss w (param req ''SubsystemNqn'', nsid) = None \<and>
    nss w1 = (nss w)((param req ''SubsystemNqn'', nsid) \<mapsto> ns) \<and>
    nss w2 (param req ''SubsystemNqn'', nsid) \<noteq> None \<and>
    nss w3 = (nss w2)((param req ''SubsystemNqn'', nsid) := None) \<and>
    (nss w2 = nss w1 \<longrightarrow> nss w3 = nss w)"
proof (rule gateway.CreateVolume_adds [OF gw locks create refl inv(1)])
  fix nsid ns vol0
  assume vol0: "created_volume req nsid = Inr vol0" and vol: "vol = add_parameters req vol0"
    and ns: "nss w (param req ''SubsystemNqn'', nsid) = None" "nss w1 = (nss w)((param req ''SubsystemNqn'', nsid) \<mapsto> ns)"
      "nc_RbdPoolName ns = param req ''RbdPoolName''" "nc_RbdImageName ns = cvr_Name req"
  from gateway.DeleteVolume_deletes [OF gw vol0 utf8 delete [unfolded vol] refl inv(2)] ns
  show ?thesis by (intro exI [of _ nsid] exI [of _ ns]) auto
qed

text \<open>The demo volume is created in the gateway in memory and deleted there.\<close>

lemma demo_life:
  obtains vol :: "unit Volume" and vl1 vl3 where
    "CreateVolume demo_controller demo_request (NewVolumeLocks, demo_gateway) =
      Done (Inr vol, vl1, snd (mem_add (namespace_add_req demo_request) demo_gateway))"
    "locks_inv vl1" "lock_free_at vl1 = lock_free_at NewVolumeLocks"
    "DeleteVolume demo_controller \<lparr>dvr_VolumeId = VolumeId vol\<rparr> (vl1, snd (mem_add (namespace_add_req demo_request) demo_gateway)) =
      Done (Inr (), vl3, demo_gateway\<lparr>gm_next := 8\<rparr>)"
    "decodeVolumeID (VolumeId vol) = Inr \<lparr>NSID = 7, NQN = ''nqn.1'', VolumeName = ''pvc-1''\<rparr>"
    "\<exists>vol0. created_volume demo_request 7 = Inr vol0 \<and> vol = add_parameters demo_request vol0"
    "locks_inv vl3" "lock_free_at vl3 = lock_free_at NewVolumeLocks"
proof -
  let ?w1 = "snd (mem_add (namespace_add_req demo_request) demo_gateway)"
  let ?i = "\<lparr>NSID = 7, NQN = ''nqn.1'', VolumeName = ''pvc-1''\<rparr>"
  obtain vol :: "unit Volume" and vl1 where
    c: "CreateVolume demo_controller demo_request (NewVolumeLocks, demo_gateway) = Done (Inr vol, vl1, ?w1)"
    and vl1: "locks_inv vl1" "lock_free_at vl1 = lock_free_at NewVolumeLocks" by (rule demo_create)
  have "locks_inv NewVolumeLocks" by simp
  from CreateVolume_success [OF this c] obtain resp vol0 where
    resp: "run_state (NamespaceAdd (cs_gatewayClient demo_controller) (namespace_add_req demo_request)) demo_gateway = (Inr resp, ?w1)"
    and vol: "created_volume demo_request (NsidStatus_GetNsid resp) = Inr vol0" "vol = add_parameters demo_request vol0" by metis
  have nsid: "NsidStatus_GetNsid resp = 7"
    using resp by (auto simp: run_mem_client mem_add_def demo_gateway_def getter_defs)
  have utf8: "valid_utf8 (cvr_Name demo_request)" "valid_utf8 (param demo_request ''SubsystemNqn'')"
    by (simp_all add: valid_utf8_ascii)
  have del: "run_state (DeleteVolume_body demo_controller ?i) ?w1 = (Inr (), demo_gateway\<lparr>gm_next := 8\<rparr>)"
    by (simp add: run_simps mem_add_def mem_delete_def mem_namespace_def namespace_add_req_def
        demo_gateway_def delete_result_def getter_defs)
  from with_lock_fresh [OF vl1 del, of "''pvc-1''"] obtain vl3 where
    vl3: "with_lock ''pvc-1'' (DeleteVolume_body demo_controller ?i) (vl1, ?w1) = Done (Inr (), vl3, demo_gateway\<lparr>gm_next := 8\<rparr>)"
    "locks_inv vl3" "lock_free_at vl3 = lock_free_at NewVolumeLocks" by blast
  show ?thesis
  proof (rule that [OF c vl1 _ _ _ vl3(2,3)])
    show "DeleteVolume demo_controller \<lparr>dvr_VolumeId = VolumeId vol\<rparr> (vl1, ?w1) = Done (Inr (), vl3, demo_gateway\<lparr>gm_next := 8\<rparr>)"
      "decodeVolumeID (VolumeId vol) = Inr ?i"
      using DeleteVolume_created [OF vol(1) utf8, of demo_controller "(vl1, ?w1)"] created_volume_id(2) [OF vol(1) utf8] vol(2) nsid vl3(1)
      by simp_all
    show "\<exists>vol0. created_volume demo_request 7 = Inr vol0 \<and> vol = add_parameters demo_request vol0"
      using vol nsid by auto
  qed
qed

theorem create_delete_namespace_witness:
  "\<exists>vol vl1 w1 vl3 w3.
     CreateVolume demo_controller demo_request (NewVolumeLocks, demo_gateway) = Done (Inr vol, vl1, w1) \<and>
     DeleteVolume demo_controller \<lparr>dvr_VolumeId = VolumeId vol\<rparr> (vl1, w1) = Done (Inr (), vl3, w3) \<and>
     mem_nss w1 \<noteq> mem_nss demo_gateway \<and> mem_nss w3 = mem_nss demo_gateway"
proof -
  let ?w1 = "snd (mem_add (namespace_add_req demo_request) demo_gateway)"
  obtain vol :: "unit Volume" and vl1 vl3 where
    run: "CreateVolume demo_controller demo_request (NewVolumeLocks, demo_gateway) = Done (Inr vol, vl1, ?w1)"
      "DeleteVolume demo_controller \<lparr>dvr_VolumeId = VolumeId vol\<rparr> (vl1, ?w1) = Done (Inr (), vl3, demo_gateway\<lparr>gm_next := 8\<rparr>)"
    by (rule demo_life)
  have gw: "gateway (cs_gatewayClient demo_controller) mem_nss mem_inv" using mem_gw.gateway_axioms by simp
  have inv: "mem_inv demo_gateway" "mem_inv ?w1" by (simp_all add: mem_inv_def mem_add_def demo_gateway_def)
  from create_delete_namespace [OF gw inv _ run(1) _ _ run(2)]
  have "mem_nss ?w1 \<noteq> mem_nss demo_gateway" "mem_nss (demo_gateway\<lparr>gm_next := 8\<rparr>) = mem_nss demo_gateway"
    by (auto simp: valid_utf8_ascii fun_upd_idem_iff)
  with run show ?thesis by blast
qed

text \<open>
  C17. Creating is not idempotent: as long as the namespace of a created volume is in a gateway that
  gives no image to two namespaces, the same \<open>CreateVolume\<close> request fails with an internal error and
  changes nothing, instead of returning the volume that is there.
\<close>

theorem create_retry_fails:
  assumes gw: "gateway_guarded (cs_gatewayClient cs) nss I" and inv: "I w" "I w2" and locks: "locks_inv vl" "locks_inv vl2"
    and create: "CreateVolume cs req (vl, w) = Done (Inr vol, vl1, w1)"
    and there: "nss w1 \<subseteq>\<^sub>m nss w2" and free: "lock_free_at vl2 (cvr_Name req)"
  shows "\<exists>msg vl3 w3. CreateVolume cs req (vl2, w2) = Done (Inl (Status Internal msg), vl3, w3) \<and> nss w3 = nss w2"
proof -
  note gateway = gateway_guarded.axioms(1) [OF gw]
  obtain reply w3 where add: "run_state (NamespaceAdd (cs_gatewayClient cs) (namespace_add_req req)) w2 = (reply, w3)"
    by fastforce
  have refused: "\<not> added reply"
  proof (rule gateway.CreateVolume_adds [OF gateway locks(1) create refl inv(1)])
    fix nsid ns
    assume "nss w1 = (nss w)((param req ''SubsystemNqn'', nsid) \<mapsto> ns)"
      and ns: "nc_RbdPoolName ns = param req ''RbdPoolName''" "nc_RbdImageName ns = cvr_Name req"
    then have "nss w2 (param req ''SubsystemNqn'', nsid) = Some ns" using there by (auto simp: map_le_def)
    then have "\<not> added (fst (run_state (NamespaceAdd (cs_gatewayClient cs) (namespace_add_req req)) w2))"
      using ns by (intro gateway_guarded.in_use [OF gw, OF inv(2)]) (simp_all add: namespace_add_req_def)
    with add show ?thesis by simp
  qed
  then obtain msg where "create_result req reply = Inl (Status Internal msg)"
    by (auto simp: create_result_def added_def split: sum.splits)
  with CreateVolume_run [OF locks(2) free add] gateway.not_added [OF gateway inv(2) add refused] show ?thesis by metis
qed

theorem create_retry_fails_witness:
  "\<exists>vol vl1 w1 msg vl2 w2.
     CreateVolume demo_controller demo_request (NewVolumeLocks, demo_gateway) = Done (Inr vol, vl1, w1) \<and>
     CreateVolume demo_controller demo_request (vl1, w1) = Done (Inl (Status Internal msg), vl2, w2)"
proof -
  let ?w1 = "snd (mem_add (namespace_add_req demo_request) demo_gateway)"
  obtain vol :: "unit Volume" and vl1 where
    c: "CreateVolume demo_controller demo_request (NewVolumeLocks, demo_gateway) = Done (Inr vol, vl1, ?w1)"
    and vl1: "locks_inv vl1" "lock_free_at vl1 = lock_free_at NewVolumeLocks" by (rule demo_life)
  have gw: "gateway_guarded (cs_gatewayClient demo_controller) mem_nss mem_inv" using mem_gw.gateway_guarded_axioms by simp
  have inv: "mem_inv demo_gateway" "mem_inv ?w1" by (simp_all add: mem_inv_def mem_add_def demo_gateway_def)
  have "lock_free_at vl1 (cvr_Name demo_request)" by (simp add: vl1(2))
  with create_retry_fails [OF gw inv _ vl1(1) c, simplified] c show ?thesis by fastforce
qed

text \<open>
  C18. Deleting is not idempotent: after a \<open>DeleteVolume\<close> that succeeded, the same request fails with an
  internal error as long as the namespace has not been made again, instead of reporting that the volume
  is gone.
\<close>

theorem delete_retry_fails:
  assumes gw: "gateway (cs_gatewayClient cs) nss I" and inv: "I w"
    and delete: "DeleteVolume cs req (vl, w) = Done (Inr (), vl1, w1)"
    and gone: "nss w2 = nss w1" "I w2" and locks: "locks_inv vl2"
    and free: "\<forall>i. decodeVolumeID (dvr_VolumeId req) = Inr i \<longrightarrow> lock_free_at vl2 (VolumeName i)"
  shows "\<exists>msg vl3 w3. DeleteVolume cs req (vl2, w2) = Done (Inl (Status Internal msg), vl3, w3) \<and> nss w3 = nss w1"
proof -
  from delete obtain i where id: "dvr_VolumeId req \<noteq> []" "decodeVolumeID (dvr_VolumeId req) = Inr i"
    and "with_lock (VolumeName i) (DeleteVolume_body cs i) (vl, w) = Done (Inr (), vl1, w1)"
    by (auto simp: DeleteVolume_def split: if_splits sum.splits)
  then have first: "run_state (DeleteVolume_body cs i) w = (Inr (), w1)" by (intro with_lock_DoneD)
  have no: "nss w2 (NQN i, NSID i) = None"
    using gateway.DeleteVolume_body_deletes [OF gw first refl inv] gone(1) by simp
  obtain r w3 where second: "run_state (DeleteVolume_body cs i) w2 = (r, w3)" by fastforce
  from gateway.DeleteVolume_body_missing [OF gw second refl gone(2) no] obtain msg where
    r: "r = Inl (Status Internal msg)" "nss w3 = nss w2" by blast
  obtain vl3 where "with_lock (VolumeName i) (DeleteVolume_body cs i) (vl2, w2) = Done (r, vl3, w3)"
    using with_lock_done [OF locks free [rule_format, OF id(2)], of "DeleteVolume_body cs i" w2] second by auto
  with id r gone(1) show ?thesis by (auto simp: DeleteVolume_def)
qed

theorem delete_retry_fails_witness:
  "\<exists>vol vl1 w1 vl3 w3 msg vl4 w4.
     CreateVolume demo_controller demo_request (NewVolumeLocks, demo_gateway) = Done (Inr (vol :: unit Volume), vl1, w1) \<and>
     DeleteVolume demo_controller \<lparr>dvr_VolumeId = VolumeId vol\<rparr> (vl1, w1) = Done (Inr (), vl3, w3) \<and>
     DeleteVolume demo_controller \<lparr>dvr_VolumeId = VolumeId vol\<rparr> (vl3, w3) = Done (Inl (Status Internal msg), vl4, w4)"
proof -
  let ?w1 = "snd (mem_add (namespace_add_req demo_request) demo_gateway)" and ?w3 = "demo_gateway\<lparr>gm_next := 8\<rparr>"
  obtain vol :: "unit Volume" and vl1 vl3 where
    c: "CreateVolume demo_controller demo_request (NewVolumeLocks, demo_gateway) = Done (Inr vol, vl1, ?w1)"
    and d: "DeleteVolume demo_controller \<lparr>dvr_VolumeId = VolumeId vol\<rparr> (vl1, ?w1) = Done (Inr (), vl3, ?w3)"
    and id: "decodeVolumeID (VolumeId vol) = Inr \<lparr>NSID = 7, NQN = ''nqn.1'', VolumeName = ''pvc-1''\<rparr>"
    and vl3: "locks_inv vl3" "lock_free_at vl3 = lock_free_at NewVolumeLocks" by (rule demo_life)
  have gw: "gateway (cs_gatewayClient demo_controller) mem_nss mem_inv" using mem_gw.gateway_axioms by simp
  have inv: "mem_inv ?w1" "mem_inv ?w3" by (simp_all add: mem_inv_def mem_add_def demo_gateway_def)
  have "\<forall>i. decodeVolumeID (dvr_VolumeId \<lparr>dvr_VolumeId = VolumeId vol\<rparr>) = Inr i \<longrightarrow> lock_free_at vl3 (VolumeName i)"
    by (simp add: id vl3(2))
  from delete_retry_fails [OF gw inv(1) d refl inv(2) vl3(1) this] c d show ?thesis by blast
qed

end
