(* ===== verification/Node_Contract.thy ===== *)
theory Node_Contract
  imports Node_Server
begin

text \<open>
  What the handlers of the node service rely on in the host, and what they do on it. The locale
  \<open>node_path\<close> is the contract for one mount point, which leaves open what else happens on the host;
  \<open>node_host\<close> is the contract of a host that nobody else uses, and gives \<open>node_path\<close> for every path.
\<close>

section \<open>One mount point\<close>

text \<open>
  \<open>mnt w p\<close> is the stack of sources mounted at \<open>p\<close>, the last one first, and \<open>ex w p\<close> says that \<open>p\<close>
  exists; \<open>P\<close> is the path of interest. Every call may fail for reasons of its own. A mount point
  exists. Looking changes nothing at \<open>P\<close> and tells the truth about it; mounting at \<open>P\<close> puts a source on
  its stack and unmounting takes one off; removing makes no path appear; no other call mounts at \<open>P\<close>.
\<close>

locale node_path =
  fixes env :: "'w host_env" and mnt :: "'w \<Rightarrow> string \<Rightarrow> string list" and ex :: "'w \<Rightarrow> string \<Rightarrow> bool" and P :: string
  assumes mounted_ex_at: "mnt w P \<noteq> [] \<Longrightarrow> ex w P"
    and check_at: "run_state (he_IsNotMountPoint env q) w = ((b, e), w') \<Longrightarrow> mnt w' P = mnt w P \<and> ex w' P = ex w P \<and>
      (q = P \<longrightarrow> (os_IsNotExist e \<longleftrightarrow> \<not> ex w P) \<and> (e = None \<longrightarrow> b = (mnt w P = [])))"
    and stat_at: "run_state (he_Stat env q) w = (e, w') \<Longrightarrow> mnt w' P = mnt w P"
    and mkdir_at: "run_state (he_MkdirAll env q) w = (e, w') \<Longrightarrow> mnt w' P = mnt w P"
    and create_at: "run_state (he_Create env q) w = (e, w') \<Longrightarrow> mnt w' P = mnt w P"
    and mount_at: "run_state (he_Mount env src P fstype opts) w = (e, w') \<Longrightarrow>
      mnt w' P = (if e = None then src # mnt w P else mnt w P)"
    and unmount_at: "run_state (he_Unmount env P) w = (e, w') \<Longrightarrow> mnt w' P = (if e = None then tl (mnt w P) else mnt w P)"
    and remove_at: "run_state (he_Remove env q) w = (e, w') \<Longrightarrow> mnt w' P = mnt w P \<and> (ex w' P \<longrightarrow> ex w P) \<and>
      (q = P \<and> (e = None \<or> os_IsNotExist e) \<longrightarrow> \<not> ex w' P)"
    and exec_at: "run_state (he_CombinedOutput env cmd n) w = (r, w') \<Longrightarrow> mnt w' P = mnt w P"
    and glob_at: "run_state (he_Glob env g) w = (m, w') \<Longrightarrow> mnt w' P = mnt w P"
    and sleep_at: "run_state (he_Sleep env n) w = (u, w') \<Longrightarrow> mnt w' P = mnt w P"
begin

lemmas quiet =
  exec_at [OF prod.collapse [symmetric]] glob_at [OF prod.collapse [symmetric]] sleep_at [OF prod.collapse [symmetric]]

lemma mnt_ready_loop: "mnt (snd (run_state (ready_loop env g n) w)) P = mnt w P"
  by (induction n arbitrary: w) (simp_all add: case_prod_beta Let_def quiet split: sum.split)

lemma mnt_gone_loop: "mnt (snd (run_state (gone_loop env g n) w)) P = mnt w P"
  by (induction n arbitrary: w) (simp_all add: case_prod_beta Let_def quiet split: sum.split)

lemma mnt_Connect: "run_state (Connect env i) w = (r, w') \<Longrightarrow> mnt w' P = mnt w P"
  using mnt_ready_loop quiet(1)
  by (auto simp: Connect_def execWithTimeout_def waitForDeviceReady_def case_prod_beta Let_def
      split: sum.splits dest!: arg_cong [where f = snd])

lemma mnt_Disconnect: "mnt (snd (run_state (Disconnect env i) w)) P = mnt w P"
  by (simp add: Disconnect_def execWithTimeout_def waitForDeviceGone_def case_prod_beta Let_def mnt_gone_loop quiet)

lemma isStaged_at:
  assumes "run_state (isStaged env q) w = ((b, e), w')"
  shows "mnt w' P = mnt w P" and "q = P \<Longrightarrow> e = None \<Longrightarrow> b = (mnt w P \<noteq> [])"
proof -
  obtain u c v where c: "run_state (he_IsNotMountPoint env q) w = ((u, c), v)" by (metis prod.collapse)
  show "mnt w' P = mnt w P" "q = P \<Longrightarrow> e = None \<Longrightarrow> b = (mnt w P \<noteq> [])"
    using assms c check_at [OF c] mounted_ex_at [of w] by (auto simp: isStaged_def split: if_splits)
qed

lemma make_target_file_at:
  assumes "run_state (make_target_file env q) w = ((b, e), w')"
  shows "mnt w' P = mnt w P" and "\<not> b"
proof -
  obtain c v where m: "run_state (he_MkdirAll env (Dir q)) w = (c, v)" by (metis prod.collapse)
  obtain d x where s: "run_state (he_Stat env q) v = (d, x)" by (metis prod.collapse)
  obtain f y where cr: "run_state (he_Create env q) x = (f, y)" by (metis prod.collapse)
  show "mnt w' P = mnt w P" "\<not> b"
    using assms mkdir_at [OF m] stat_at [OF s] create_at [OF cr]
    by (auto simp: make_target_file_def m s cr split: option.splits if_splits)
qed

lemma createMountPoint_at:
  assumes "run_state (createMountPoint env q) w = ((b, e), w')"
  shows "mnt w' P = mnt w P" and "q = P \<Longrightarrow> e = None \<Longrightarrow> b = (mnt w P \<noteq> [])"
proof -
  obtain u c v where c: "run_state (he_IsNotMountPoint env q) w = ((u, c), v)" by (metis prod.collapse)
  show "mnt w' P = mnt w P" "q = P \<Longrightarrow> e = None \<Longrightarrow> b = (mnt w P \<noteq> [])"
    using assms c check_at [OF c] mounted_ex_at [of w] make_target_file_at [of q v b e w']
    by (auto simp: createMountPoint_def split: if_splits)
qed

text \<open>Staging a device mounts it unless something is mounted already; a failure mounts nothing.\<close>

lemma stageVolume_at:
  assumes "run_state (stageVolume env dev P) w = (e, w')"
  shows "mnt w' P = (if e = None \<and> mnt w P = [] then [dev] else mnt w P)"
proof -
  obtain b c v where c: "run_state (createMountPoint env P) w = ((b, c), v)" by (metis prod.collapse)
  obtain m x where m: "run_state (he_Mount env dev P [] [''bind'']) v = (m, x)" by (metis prod.collapse)
  show ?thesis
    using assms createMountPoint_at [OF c] mount_at [OF m]
    by (auto simp: stageVolume_def c m split: if_splits option.splits)
qed

lemma remove_target_at:
  assumes "run_state (remove_target env q) w = (e, w')"
  shows "mnt w' P = mnt w P" and "q = P \<Longrightarrow> e = None \<Longrightarrow> \<not> ex w' P"
proof -
  obtain c v where r: "run_state (he_Remove env q) w = (c, v)" by (metis prod.collapse)
  obtain d x where o: "run_state (he_Remove env (Dir q)) v = (d, x)" by (metis prod.collapse)
  show "mnt w' P = mnt w P" "q = P \<Longrightarrow> e = None \<Longrightarrow> \<not> ex w' P"
    using assms r o remove_at [OF r] remove_at [OF o] by (auto simp: remove_target_def split: if_splits)
qed

text \<open>
  Deleting a mount point that succeeds leaves no file and no mount, and it succeeds only if there was
  at most one mount: a second one keeps the file busy. When it fails it may have taken a mount off.
\<close>

lemma deleteMountPoint_at:
  assumes "run_state (deleteMountPoint env P) w = (e, w')"
  shows "e = None \<Longrightarrow> \<not> ex w' P" and "e = None \<Longrightarrow> mnt w' P = []" and "e = None \<Longrightarrow> length (mnt w P) \<le> 1"
    and "mnt w' P \<in> {mnt w P, tl (mnt w P)}"
proof -
  obtain u c v where c: "run_state (he_IsNotMountPoint env P) w = ((u, c), v)" by (metis prod.collapse)
  obtain m x where m: "run_state (he_Unmount env P) v = (m, x)" by (metis prod.collapse)
  consider "\<not> ex w P" "w' = v" "e = None" | "e \<noteq> None" "w' \<in> {v, x}"
    | "mnt w P = []" "run_state (remove_target env P) v = (e, w')" | "m = None" "run_state (remove_target env P) x = (e, w')"
    using assms check_at [OF c] by (auto simp: deleteMountPoint_def c m split: if_splits option.splits)
  then have "(e = None \<longrightarrow> \<not> ex w' P \<and> mnt w' P = tl (mnt w P)) \<and> mnt w' P \<in> {mnt w P, tl (mnt w P)}"
  proof cases
    case 1
    then show ?thesis using check_at [OF c] mounted_ex_at [of w] by (cases "mnt w P") auto
  next
    case 2
    then show ?thesis using check_at [OF c] unmount_at [OF m] by auto
  qed (use check_at [OF c] unmount_at [OF m] remove_target_at in fastforce)+
  moreover from this mounted_ex_at have "e = None \<longrightarrow> tl (mnt w P) = []" by metis
  ultimately show "e = None \<Longrightarrow> \<not> ex w' P" "e = None \<Longrightarrow> mnt w' P = []" "e = None \<Longrightarrow> length (mnt w P) \<le> 1"
    "mnt w' P \<in> {mnt w P, tl (mnt w P)}"
    by (simp_all, cases "mnt w P", auto)
qed

section \<open>The handlers at their mount point\<close>

lemma NodeStage_body_at:
  assumes "run_state (NodeStageVolume_body env req) w = (r, w')" and "stage_at req = P"
  shows "mnt w P \<noteq> [] \<or> r \<noteq> Inr () \<Longrightarrow> mnt w' P = mnt w P"
    and "mnt w P = [] \<Longrightarrow> r = Inr () \<Longrightarrow> \<exists>i dev w0 w1. NewNvmeofCsiInitiator (nsv_PublishContext req) = Inr i \<and>
      run_state (Connect env i) w0 = (Inr dev, w1) \<and> mnt w' P = [dev]"
proof -
  obtain b e v where st: "run_state (isStaged env P) w = ((b, e), v)" by (metis prod.collapse)
  note v = isStaged_at [OF st]
  have "(mnt w P \<noteq> [] \<or> r \<noteq> Inr () \<longrightarrow> mnt w' P = mnt w P) \<and> (mnt w P = [] \<longrightarrow> r = Inr () \<longrightarrow>
      (\<exists>i dev w0 w1. NewNvmeofCsiInitiator (nsv_PublishContext req) = Inr i \<and>
        run_state (Connect env i) w0 = (Inr dev, w1) \<and> mnt w' P = [dev]))"
  proof (cases "\<exists>i. e = None \<and> \<not> b \<and> NewNvmeofCsiInitiator (nsv_PublishContext req) = Inr i")
    case True
    then obtain i where i: "e = None" "\<not> b" "NewNvmeofCsiInitiator (nsv_PublishContext req) = Inr i" by blast
    obtain c w1 where c: "run_state (Connect env i) v = (c, w1)" by (metis prod.collapse)
    show ?thesis
    proof (cases c)
      case (Inr dev)
      obtain se w2 where sv: "run_state (stageVolume env dev P) w1 = (se, w2)" by (metis prod.collapse)
      from stageVolume_at [OF sv] mnt_Connect [OF c] mnt_Disconnect [of i w2] v i assms c Inr show ?thesis
        by (cases se) (auto simp: NodeStageVolume_body_def st stage_device_def sv case_prod_beta Let_def)
    next
      case (Inl e')
      with assms i st c v(1) mnt_Connect [OF c] show ?thesis by (auto simp: NodeStageVolume_body_def)
    qed
  next
    case False
    with assms v show ?thesis
      by (auto simp: NodeStageVolume_body_def st split: option.splits if_splits sum.splits)
  qed
  then show "mnt w P \<noteq> [] \<or> r \<noteq> Inr () \<Longrightarrow> mnt w' P = mnt w P"
    "mnt w P = [] \<Longrightarrow> r = Inr () \<Longrightarrow> \<exists>i dev w0 w1. NewNvmeofCsiInitiator (nsv_PublishContext req) = Inr i \<and>
      run_state (Connect env i) w0 = (Inr dev, w1) \<and> mnt w' P = [dev]" by blast+
qed

lemma NodeUnstage_body_at:
  assumes "run_state (NodeUnstageVolume_body env req) w = (r, w')" and "unstage_at req = P"
  shows "r = Inr () \<Longrightarrow> mnt w' P = []" and "r = Inr () \<Longrightarrow> length (mnt w P) \<le> 1"
    and "r = Inr () \<Longrightarrow> mnt w P \<noteq> [] \<Longrightarrow> \<not> ex w' P" and "mnt w' P \<in> {mnt w P, tl (mnt w P)}"
proof -
  obtain b e v where st: "run_state (isStaged env P) w = ((b, e), v)" by (metis prod.collapse)
  obtain d x where d: "run_state (deleteMountPoint env P) v = (d, x)" by (metis prod.collapse)
  have "(r = Inr () \<longrightarrow> mnt w' P = [] \<and> length (mnt w P) \<le> 1 \<and> (mnt w P \<noteq> [] \<longrightarrow> \<not> ex w' P)) \<and> mnt w' P \<in> {mnt w P, tl (mnt w P)}"
    using assms isStaged_at [OF st] deleteMountPoint_at [OF d] d
    by (auto simp: NodeUnstageVolume_body_def st Let_def split: option.splits if_splits)
  then show "r = Inr () \<Longrightarrow> mnt w' P = []" "r = Inr () \<Longrightarrow> length (mnt w P) \<le> 1"
    "r = Inr () \<Longrightarrow> mnt w P \<noteq> [] \<Longrightarrow> \<not> ex w' P" "mnt w' P \<in> {mnt w P, tl (mnt w P)}" by simp_all
qed

lemma NodePublish_body_at:
  assumes "run_state (NodePublishVolume_body env req) w = (r, w')" and "npv_TargetPath req = P"
  shows "mnt w' P = (if r = Inr () then Join (npv_StagingTargetPath req) (npv_VolumeId req) # mnt w P else mnt w P)"
proof -
  let ?src = "Join (npv_StagingTargetPath req) (npv_VolumeId req)"
  obtain b e v where c: "run_state (createMountPoint env P) w = ((b, e), v)" by (metis prod.collapse)
  obtain m x where m: "run_state (he_Mount env ?src P [] [''bind'']) v = (m, x)" by (metis prod.collapse)
  show ?thesis
    using assms createMountPoint_at(1) [OF c] mount_at [OF m]
    by (auto simp: NodePublishVolume_body_def c m split: option.splits if_splits)
qed

lemma NodeUnpublish_body_at:
  assumes "run_state (NodeUnpublishVolume_body env req) w = (r, w')" and "nup_TargetPath req = P"
  shows "r = Inr () \<Longrightarrow> mnt w' P = []" and "r = Inr () \<Longrightarrow> length (mnt w P) \<le> 1"
    and "r = Inr () \<Longrightarrow> \<not> ex w' P" and "mnt w' P \<in> {mnt w P, tl (mnt w P)}"
proof -
  obtain d x where d: "run_state (deleteMountPoint env P) w = (d, x)" by (metis prod.collapse)
  then have "x = w'" "r = Inr () \<longleftrightarrow> d = None"
    using assms by (auto simp: NodeUnpublishVolume_body_def split: option.splits)
  with deleteMountPoint_at [OF d] show "r = Inr () \<Longrightarrow> mnt w' P = []" "r = Inr () \<Longrightarrow> length (mnt w P) \<le> 1"
    "r = Inr () \<Longrightarrow> \<not> ex w' P" "mnt w' P \<in> {mnt w P, tl (mnt w P)}" by simp_all
qed

end

section \<open>A host of one's own\<close>

text \<open>
  The host when nobody else uses it: looking changes nothing at all, and commands, globs, sleeping and
  the making and removing of files leave every mount as it is.
\<close>

locale node_host =
  fixes env :: "'w host_env" and mnt :: "'w \<Rightarrow> string \<Rightarrow> string list" and ex :: "'w \<Rightarrow> string \<Rightarrow> bool"
  assumes mounted_ex: "mnt w p \<noteq> [] \<Longrightarrow> ex w p"
    and check: "run_state (he_IsNotMountPoint env p) w = ((b, e), w') \<Longrightarrow>
      w' = w \<and> (os_IsNotExist e \<longleftrightarrow> \<not> ex w p) \<and> (e = None \<longrightarrow> b = (mnt w p = []))"
    and stat: "run_state (he_Stat env p) w = (e, w') \<Longrightarrow> w' = w \<and> (os_IsNotExist e \<longleftrightarrow> \<not> ex w p)"
    and mkdir: "run_state (he_MkdirAll env d) w = (e, w') \<Longrightarrow> mnt w' = mnt w"
    and create: "run_state (he_Create env p) w = (e, w') \<Longrightarrow> mnt w' = mnt w \<and> (e = None \<longrightarrow> ex w' p)"
    and mount: "run_state (he_Mount env src p fstype opts) w = (e, w') \<Longrightarrow>
      if e = None then mnt w' p = src # mnt w p else mnt w' = mnt w"
    and unmount: "run_state (he_Unmount env p) w = (e, w') \<Longrightarrow>
      if e = None then mnt w' p = tl (mnt w p) \<and> ex w' p else mnt w' = mnt w"
    and remove: "run_state (he_Remove env p) w = (e, w') \<Longrightarrow>
      mnt w' = mnt w \<and> (e = None \<or> os_IsNotExist e \<longrightarrow> \<not> ex w' p) \<and> (\<forall>q. ex w' q \<longrightarrow> ex w q)"
    and exec: "run_state (he_CombinedOutput env cmd n) w = (r, w') \<Longrightarrow> mnt w' = mnt w"
    and glob: "run_state (he_Glob env g) w = (m, w') \<Longrightarrow> mnt w' = mnt w"
    and sleep: "run_state (he_Sleep env n) w = (u, w') \<Longrightarrow> mnt w' = mnt w"

sublocale node_host \<subseteq> path: node_path env mnt ex p for p
proof
  fix w w' q e b src fstype opts
  show "mnt w p \<noteq> [] \<Longrightarrow> ex w p" by (rule mounted_ex)
  show "mnt w' p = mnt w p \<and> ex w' p = ex w p \<and> (q = p \<longrightarrow> (os_IsNotExist e \<longleftrightarrow> \<not> ex w p) \<and> (e = None \<longrightarrow> b = (mnt w p = [])))"
    if "run_state (he_IsNotMountPoint env q) w = ((b, e), w')" using check [OF that] by auto
  show "run_state (he_Stat env q) w = (e, w') \<Longrightarrow> mnt w' p = mnt w p" using stat [of q w e w'] by simp
  show "run_state (he_MkdirAll env q) w = (e, w') \<Longrightarrow> mnt w' p = mnt w p" using mkdir [of q w e w'] by simp
  show "run_state (he_Create env q) w = (e, w') \<Longrightarrow> mnt w' p = mnt w p" using create [of q w e w'] by simp
  show "mnt w' p = (if e = None then src # mnt w p else mnt w p)"
    if "run_state (he_Mount env src p fstype opts) w = (e, w')" using mount [OF that] by (auto split: if_splits)
  show "mnt w' p = (if e = None then tl (mnt w p) else mnt w p)"
    if "run_state (he_Unmount env p) w = (e, w')" using unmount [OF that] by (auto split: if_splits)
  show "mnt w' p = mnt w p \<and> (ex w' p \<longrightarrow> ex w p) \<and> (q = p \<and> (e = None \<or> os_IsNotExist e) \<longrightarrow> \<not> ex w' p)"
    if "run_state (he_Remove env q) w = (e, w')" using remove [OF that] by auto
next
  fix w w' and cmd :: "string list" and n :: nat and r :: "string \<times> go_error option \<times> bool" and g :: string
    and m :: "string list res" and u :: unit
  show "run_state (he_CombinedOutput env cmd n) w = (r, w') \<Longrightarrow> mnt w' p = mnt w p" using exec [of cmd n w r w'] by simp
  show "run_state (he_Glob env g) w = (m, w') \<Longrightarrow> mnt w' p = mnt w p" using glob [of g w m w'] by simp
  show "run_state (he_Sleep env n) w = (u, w') \<Longrightarrow> mnt w' p = mnt w p" using sleep [of n w u w'] by simp
qed

context node_host
begin

lemma mnt_Connect: "run_state (Connect env i) w = (r, w') \<Longrightarrow> mnt w' = mnt w"
  by (rule ext) (rule path.mnt_Connect)

lemma mnt_Disconnect: "mnt (snd (run_state (Disconnect env i) w)) = mnt w"
  by (rule ext) (rule path.mnt_Disconnect)

lemma isStaged_run:
  assumes "run_state (isStaged env p) w = ((b, e), w')"
  shows "w' = w" and "e = None \<Longrightarrow> b = (mnt w p \<noteq> [])"
proof -
  obtain u c v where c: "run_state (he_IsNotMountPoint env p) w = ((u, c), v)" by (metis prod.collapse)
  show "w' = w" "e = None \<Longrightarrow> b = (mnt w p \<noteq> [])"
    using assms check [OF c] mounted_ex [of w p] by (auto simp: isStaged_def c split: if_splits)
qed

lemma createMountPoint_run:
  assumes "run_state (createMountPoint env p) w = ((b, e), w')"
  shows "mnt w' = mnt w" and "e = None \<Longrightarrow> b = (mnt w p \<noteq> [])"
  using path.createMountPoint_at [OF assms] by (auto simp: fun_eq_iff)

lemma stageVolume_run:
  assumes "run_state (stageVolume env dev p) w = (e, w')"
  shows "e \<noteq> None \<Longrightarrow> mnt w' = mnt w"
    and "e = None \<Longrightarrow> mnt w p = [] \<Longrightarrow> \<exists>v. mnt v = mnt w \<and> run_state (he_Mount env dev p [] [''bind'']) v = (None, w')"
proof -
  obtain b c v where c: "run_state (createMountPoint env p) w = ((b, c), v)" by (metis prod.collapse)
  obtain m x where m: "run_state (he_Mount env dev p [] [''bind'']) v = (m, x)" by (metis prod.collapse)
  show "e \<noteq> None \<Longrightarrow> mnt w' = mnt w"
    "e = None \<Longrightarrow> mnt w p = [] \<Longrightarrow> \<exists>v. mnt v = mnt w \<and> run_state (he_Mount env dev p [] [''bind'']) v = (None, w')"
    using assms createMountPoint_run [OF c] mount [OF m] m
    by (auto simp: stageVolume_def c split: if_splits option.splits)
qed

lemma remove_target_run: "run_state (remove_target env p) w = (e, w') \<Longrightarrow> mnt w' = mnt w"
  by (rule ext) (rule path.remove_target_at(1))

text \<open>Staging under the lock, by what was mounted before and how it ends.\<close>

lemma NodeStage_body_staged:
  assumes "mnt w (stage_at req) \<noteq> []" and "run_state (NodeStageVolume_body env req) w = (r, w')"
  shows "w' = w"
proof -
  obtain b e v where i: "run_state (isStaged env (stage_at req)) w = ((b, e), v)" by (metis prod.collapse)
  show ?thesis
    using assms isStaged_run [OF i] by (auto simp: NodeStageVolume_body_def i split: option.splits if_splits)
qed

lemma NodeStage_body_success:
  assumes "mnt w (stage_at req) = []" and "run_state (NodeStageVolume_body env req) w = (Inr (), w')"
  obtains i dev w1 where "NewNvmeofCsiInitiator (nsv_PublishContext req) = Inr i"
    "run_state (Connect env i) w = (Inr dev, w1)" "mnt w' (stage_at req) = [dev]"
    "\<exists>v. mnt v = mnt w \<and> run_state (he_Mount env dev (stage_at req) [] [''bind'']) v = (None, w')"
proof -
  obtain b e v where st: "run_state (isStaged env (stage_at req)) w = ((b, e), v)" by (metis prod.collapse)
  from assms isStaged_run [OF st] have e: "e = None" "\<not> b" "v = w"
    by (auto simp: NodeStageVolume_body_def st split: option.splits)
  from assms(2) obtain i where i: "NewNvmeofCsiInitiator (nsv_PublishContext req) = Inr i"
    by (auto simp: NodeStageVolume_body_def st e split: sum.splits)
  obtain c w1 where c: "run_state (Connect env i) w = (c, w1)" by (metis prod.collapse)
  from assms(2) obtain dev where dev: "c = Inr dev"
    and sd: "run_state (stage_device env i dev (stage_at req)) w1 = (Inr (), w')"
    by (auto simp: NodeStageVolume_body_def st e i c split: sum.splits)
  obtain se w2 where sv: "run_state (stageVolume env dev (stage_at req)) w1 = (se, w2)" by (metis prod.collapse)
  from sd have "se = None" "w2 = w'"
    by (auto simp: stage_device_def sv case_prod_beta Let_def split: option.splits)
  with stageVolume_run(2) [OF sv] mnt_Connect [OF c] assms(1) obtain v where
    v: "mnt v = mnt w" "run_state (he_Mount env dev (stage_at req) [] [''bind'']) v = (None, w')" by auto
  with mount [OF v(2)] assms(1) that i c dev show ?thesis by auto
qed

lemma NodeStage_body_failure:
  assumes "run_state (NodeStageVolume_body env req) w = (Inl err, w')"
  obtains (early) "w' = w"
    | (unconnected) i e where "NewNvmeofCsiInitiator (nsv_PublishContext req) = Inr i"
      "run_state (Connect env i) w = (Inl e, w')" "err = Status Internal (Error e)"
    | (undone) i dev w1 e w2 where "NewNvmeofCsiInitiator (nsv_PublishContext req) = Inr i"
      "run_state (Connect env i) w = (Inr dev, w1)" "run_state (stageVolume env dev (stage_at req)) w1 = (Some e, w2)"
      "w' = snd (run_state (Disconnect env i) w2)" "err = Status Internal (Error e)"
proof -
  obtain b e v where st: "run_state (isStaged env (stage_at req)) w = ((b, e), v)" by (metis prod.collapse)
  note v = isStaged_run(1) [OF st]
  show ?thesis
  proof (cases "\<exists>i. e = None \<and> \<not> b \<and> NewNvmeofCsiInitiator (nsv_PublishContext req) = Inr i")
    case True
    then obtain i where i: "e = None" "\<not> b" "NewNvmeofCsiInitiator (nsv_PublishContext req) = Inr i" by blast
    obtain c w1 where c: "run_state (Connect env i) w = (c, w1)" by (metis prod.collapse)
    show ?thesis
    proof (cases c)
      case (Inr dev)
      obtain se w2 where sv: "run_state (stageVolume env dev (stage_at req)) w1 = (se, w2)" by (metis prod.collapse)
      from assms obtain e' where "se = Some e'" "w' = snd (run_state (Disconnect env i) w2)" "err = Status Internal (Error e')"
        by (auto simp: NodeStageVolume_body_def st v i c Inr stage_device_def sv case_prod_beta Let_def split: option.splits)
      with undone i c Inr sv show ?thesis by blast
    next
      case (Inl e')
      with assms have "w' = w1" "err = Status Internal (Error e')" by (simp_all add: NodeStageVolume_body_def st v i c)
      with unconnected i c Inl show ?thesis by blast
    qed
  next
    case False
    with assms have "w' = w"
      by (auto simp: NodeStageVolume_body_def st v split: option.splits if_splits sum.splits)
    then show ?thesis by (rule early)
  qed
qed

lemma NodeStage_body_failure_mnt:
  assumes "run_state (NodeStageVolume_body env req) w = (Inl err, w')"
  shows "mnt w' = mnt w"
  using assms
proof (cases rule: NodeStage_body_failure)
  case (undone i dev w1 e w2)
  then show ?thesis using stageVolume_run(1) [OF undone(3)] mnt_Disconnect mnt_Connect by simp
qed (auto dest: mnt_Connect)

lemmas NodePublish_body_success = path.NodePublish_body_at [OF _ refl, where r = "Inr ()", simplified]
lemmas NodeUnpublish_body_success = path.NodeUnpublish_body_at(1,3,2) [OF _ refl refl]
lemmas NodeUnstage_body_success = path.NodeUnstage_body_at(1-3) [OF _ refl refl]

end

end
