(* ===== verification/Json_Rpc.thy ===== *)
theory Json_Rpc
  imports Go_JSON "HOL-Library.Signed_Division"
begin

text \<open>
  The JSON-RPC client of an SPDK target (\<^verbatim>\<open>pkg/util/jsonrpc.go\<close>). Requests and responses are
  JSON text; the HTTP transport and the target behind it are a parameter. The mutable fields (the
  message counter, and the flag of the node that uses the client) are kept with the world. The
  decoding of a result that nobody asked for accepts every value.
\<close>

section \<open>Signed arithmetic\<close>

text \<open>Go's \<open>/\<close> on \<open>int64\<close> truncates toward zero, and \<open>*\<close> wraps around.\<close>

definition go_div :: "int64 \<Rightarrow> int64 \<Rightarrow> int64" where
  "go_div a b = word_of_int (sint a sdiv sint b)"

section \<open>Panics\<close>

text \<open>
  A computation that may panic, such as an index out of range. \<open>and_then\<close> runs the rest of a function
  unless a panic has unwound it.
\<close>

datatype 'a ret = Ret 'a | Panic

definition and_then :: "('w, 'a ret) action \<Rightarrow> ('a \<Rightarrow> ('w, 'b ret) action) \<Rightarrow> ('w, 'b ret) action" where
  "and_then m f = do {
     r \<leftarrow> m;
     case r of Panic \<Rightarrow> State_Monad.return Panic | Ret a \<Rightarrow> f a
   }"

definition returns :: "'a \<Rightarrow> ('w, 'a ret) action" where
  "returns a = State_Monad.return (Ret a)"

text \<open>A call that cannot panic.\<close>

definition safely :: "('w, 'a) action \<Rightarrow> ('w, 'a ret) action" where
  "safely m = do { a \<leftarrow> m; State_Monad.return (Ret a) }"

lemma run_and_then [run_simps]:
  "run_state (and_then m f) w =
     (case run_state m w of (Panic, w') \<Rightarrow> (Panic, w') | (Ret a, w') \<Rightarrow> run_state (f a) w')"
  by (simp add: and_then_def split: prod.split ret.split)

lemma run_returns [simp]: "run_state (returns a) w = (Ret a, w)"
  by (simp add: returns_def)

lemma run_safely [run_simps]: "run_state (safely m) w = (Ret (fst (run_state m w)), snd (run_state m w))"
  by (simp add: safely_def case_prod_beta Let_def)

section \<open>Data\<close>

record LvStore =
  lvs_Name :: string
  lvs_UUID :: string
  TotalSizeMiB :: int64
  FreeSizeMiB :: int64

record DriverSpecific =
  LvolStoreUUID :: string

record BDev =
  bdev_Name :: string
  bdev_UUID :: string
  BlockSize :: int64
  NumBlocks :: int64
  bdev_DriverSpecific :: "DriverSpecific option"

abbreviation ErrJSONNoSpaceLeft :: go_error where
  "ErrJSONNoSpaceLeft \<equiv> ErrVar ''json: No space left''"
abbreviation ErrJSONNoSuchDevice :: go_error where
  "ErrJSONNoSuchDevice \<equiv> ErrVar ''json: No such device''"
abbreviation ErrInvalidParameters :: go_error where
  "ErrInvalidParameters \<equiv> ErrVar ''json: Invalid parameters''"
abbreviation ErrVolumeDeleted :: go_error where
  "ErrVolumeDeleted \<equiv> ErrVar ''volume deleted''"

text \<open>The immutable fields of the client.\<close>

record rpcClient =
  rpcURL :: string
  rpcUser :: string
  rpcPass :: string

definition client_info :: "rpcClient \<Rightarrow> string" where
  "client_info client = rpcURL client"

text \<open>What is sent, and what comes back.\<close>

record http_request =
  hr_URL :: string
  hr_User :: string
  hr_Pass :: string
  hr_ContentType :: string
  hr_Body :: string

record http_response =
  StatusCode :: int
  Body :: string

text \<open>\<open>http.NewRequest\<close> (which may refuse the URL) and \<open>httpClient.Do\<close>.\<close>

record 'w http_env =
  ht_NewRequest :: "string \<Rightarrow> go_error option"
  ht_Do :: "http_request \<Rightarrow> ('w, http_response res) action"

text \<open>
  The counter \<open>rpcID\<close> of the client, the flag \<open>transCreated\<close> of the node, and the rest of the world.
\<close>

record 'w rpc_world =
  rw_rpcID :: int32
  rw_transCreated :: int32
  rw_ext :: 'w

definition on_ext :: "('w, 'a) action \<Rightarrow> ('w rpc_world, 'a) action" where
  "on_ext m = State (\<lambda>s. let (a, w) = run_state m (rw_ext s) in (a, s\<lparr>rw_ext := w\<rparr>))"

section \<open>One call\<close>

definition request_json :: "int32 \<Rightarrow> string \<Rightarrow> json option \<Rightarrow> json" where
  "request_json i method args = JObj
     ([(''jsonrpc'', JStr ''2.0''), (''id'', JNum (FormatInt (sint i))), (''method'', JStr method)] @
      (case args of None \<Rightarrow> [] | Some a \<Rightarrow> [(''params'', a)]))"

record rpc_error =
  err_Code :: int64
  err_Message :: string

text \<open>
  The response. Its \<open>Result\<close> is an interface that holds the caller's pointer: a value is decoded into
  what the pointer points to, and \<open>null\<close> clears the interface, after which the pointer is not reached
  any more.
\<close>

record 'a rpc_response =
  resp_ID :: int32
  resp_Error :: rpc_error
  resp_Result :: "bool \<times> 'a"

definition dec_iface :: "'a decoder \<Rightarrow> (bool \<times> 'a) decoder" where
  "dec_iface d v p = (case p of
      (live, x) \<Rightarrow>
        if \<not> live then ((False, x), False)
        else if v = JNull then ((False, x), False)
        else (let (y, e) = d v x in ((True, y), e)))"

definition rpc_error_fields :: "rpc_error fields" where
  "rpc_error_fields =
     [(''code'', field dec_int err_Code err_Code_update),
      (''message'', field dec_string err_Message err_Message_update)]"

definition rpc_response_fields :: "'a decoder \<Rightarrow> 'a rpc_response fields" where
  "rpc_response_fields d =
     [(''id'', field dec_int resp_ID resp_ID_update),
      (''error'', field (dec_struct rpc_error_fields) resp_Error resp_Error_update),
      (''result'', field (dec_iface d) resp_Result resp_Result_update)]"

definition empty_response :: "'a \<Rightarrow> 'a rpc_response" where
  "empty_response x = \<lparr>resp_ID = 0, resp_Error = \<lparr>err_Code = 0, err_Message = []\<rparr>, resp_Result = (True, x)\<rparr>"

text \<open>
  The part of \<open>call\<close> after the HTTP exchange: the content of the result variable and the error. The
  variable may have been written also when there is an error.
\<close>

definition call_reply :: "string \<Rightarrow> int32 \<Rightarrow> 'a decoder \<Rightarrow> 'a \<Rightarrow> http_response res \<Rightarrow> 'a \<times> go_error option" where
  "call_reply method i d result reply = (case reply of
      Inl err \<Rightarrow> (result, Some (Wrapf (method @ '': '') err))
    | Inr resp \<Rightarrow>
        if 400 \<le> StatusCode resp
        then (result, Some (Errorf (method @ '': HTTP error code: '' @ FormatInt (StatusCode resp))))
        else (let (response, derr) = json_Decode (dec_struct (rpc_response_fields d)) (Body resp) (empty_response result);
                  result' = snd (resp_Result response)
              in case derr of
                   Some err \<Rightarrow> (result', Some (Wrapf (method @ '': '') err))
                 | None \<Rightarrow>
                     if resp_ID response \<noteq> i
                     then (result', Some (Errorf (method @ '': json response ID mismatch'')))
                     else if err_Code (resp_Error response) \<noteq> 0
                     then (result', Some (Errorf (method @ '': json response error: '' @ err_Message (resp_Error response))))
                     else (result', None)))"

text \<open>\<open>atomic.AddInt32(&client.rpcID, 1)\<close>.\<close>

definition next_rpcID :: "('w rpc_world, int32) action" where
  "next_rpcID = State (\<lambda>s. let i = rw_rpcID s + 1 in (i, s\<lparr>rw_rpcID := i\<rparr>))"

definition call ::
    "'w http_env \<Rightarrow> rpcClient \<Rightarrow> string \<Rightarrow> json option \<Rightarrow> 'a decoder \<Rightarrow> 'a \<Rightarrow>
     ('w rpc_world, 'a \<times> go_error option) action" where
  "call env client method args d result = do {
     i \<leftarrow> next_rpcID;
     case ht_NewRequest env (rpcURL client) of
       Some err \<Rightarrow> State_Monad.return (result, Some (Wrapf (method @ '': '') err))
     | None \<Rightarrow> do {
         reply \<leftarrow> on_ext (ht_Do env
           \<lparr>hr_URL = rpcURL client, hr_User = rpcUser client, hr_Pass = rpcPass client,
            hr_ContentType = ''application/json'', hr_Body = render (request_json i method args)\<rparr>);
         State_Monad.return (call_reply method i d result reply)
       }
   }"

text \<open>A call whose result is not wanted (\<^verbatim>\<open>nil\<close>).\<close>

definition dec_ignore :: "unit decoder" where
  "dec_ignore v x = ((), False)"

definition call_nil ::
    "'w http_env \<Rightarrow> rpcClient \<Rightarrow> string \<Rightarrow> json option \<Rightarrow> ('w rpc_world, go_error option) action" where
  "call_nil env client method args = do {
     r \<leftarrow> call env client method args dec_ignore ();
     State_Monad.return (snd r)
   }"

definition errorMatches :: "go_error option \<Rightarrow> go_error \<Rightarrow> bool" where
  "errorMatches errFull errJSON = (case errFull of
      None \<Rightarrow> False
    | Some e \<Rightarrow>
        (let strFull = ToLower (Error e);
             strJSON = TrimSpace (TrimPrefix (ToLower (Error errJSON)) ''json:'')
         in Contains strFull strJSON))"

section \<open>The calls of the client\<close>

record lvstore_result =
  FreeClusters :: int64
  ClusterSize :: int64
  TotalClusters :: int64
  lr_Name :: string
  lr_UUID :: string

definition lvstore_fields :: "lvstore_result fields" where
  "lvstore_fields =
     [(''free_clusters'', field dec_int FreeClusters FreeClusters_update),
      (''cluster_size'', field dec_int ClusterSize ClusterSize_update),
      (''total_data_clusters'', field dec_int TotalClusters TotalClusters_update),
      (''name'', field dec_string lr_Name lr_Name_update),
      (''uuid'', field dec_string lr_UUID lr_UUID_update)]"

definition zero_lvstore :: lvstore_result where
  "zero_lvstore = \<lparr>FreeClusters = 0, ClusterSize = 0, TotalClusters = 0, lr_Name = [], lr_UUID = []\<rparr>"

definition lvstore_of :: "lvstore_result \<Rightarrow> LvStore" where
  "lvstore_of r =
     \<lparr>lvs_Name = lr_Name r, lvs_UUID = lr_UUID r,
      TotalSizeMiB = go_div (go_div (TotalClusters r * ClusterSize r) 1024) 1024,
      FreeSizeMiB = go_div (go_div (FreeClusters r * ClusterSize r) 1024) 1024\<rparr>"

definition lvStores :: "'w http_env \<Rightarrow> rpcClient \<Rightarrow> ('w rpc_world, LvStore list res) action" where
  "lvStores env client = do {
     (result, err) \<leftarrow> call env client ''bdev_lvol_get_lvstores'' None (dec_slice zero_lvstore (dec_struct lvstore_fields)) [];
     case err of
       Some e \<Rightarrow> State_Monad.return (Inl e)
     | None \<Rightarrow> State_Monad.return (Inr (map lvstore_of result))
   }"

abbreviation cfgLvolClearMethod :: string where "cfgLvolClearMethod \<equiv> ''unmap''"
definition cfgLvolThinProvision :: bool where "cfgLvolThinProvision = True"

definition client_createVolume ::
    "'w http_env \<Rightarrow> rpcClient \<Rightarrow> string \<Rightarrow> string \<Rightarrow> int64 \<Rightarrow> ('w rpc_world, string \<times> go_error option) action" where
  "client_createVolume env client lvolName lvsName sizeMiB = do {
     (lvolID, err) \<leftarrow> call env client ''bdev_lvol_create'' (Some (JObj
        [(''lvol_name'', JStr lvolName),
         (''size'', JNum (FormatInt (sint (sizeMiB * 1024 * 1024)))),
         (''lvs_name'', JStr lvsName),
         (''clear_method'', JStr cfgLvolClearMethod),
         (''thin_provision'', JBool cfgLvolThinProvision)])) dec_string [];
     State_Monad.return (lvolID, if errorMatches err ErrJSONNoSpaceLeft then Some ErrJSONNoSpaceLeft else err)
   }"

definition client_cloneVolume ::
    "'w http_env \<Rightarrow> rpcClient \<Rightarrow> string \<Rightarrow> string \<Rightarrow> ('w rpc_world, string \<times> go_error option) action" where
  "client_cloneVolume env client lvolName snapshotName =
     call env client ''bdev_lvol_clone'' (Some (JObj
        [(''clone_name'', JStr lvolName), (''snapshot_name'', JStr snapshotName)])) dec_string []"

definition lvol_fields :: "DriverSpecific fields" where
  "lvol_fields = [(''lvol_store_uuid'', field dec_string LvolStoreUUID LvolStoreUUID_update)]"

definition driver_specific_fields :: "DriverSpecific fields" where
  "driver_specific_fields = [(''lvol'', dec_struct lvol_fields)]"

definition bdev_fields :: "BDev fields" where
  "bdev_fields =
     [(''name'', field dec_string bdev_Name bdev_Name_update),
      (''uuid'', field dec_string bdev_UUID bdev_UUID_update),
      (''block_size'', field dec_int BlockSize BlockSize_update),
      (''num_blocks'', field dec_int NumBlocks NumBlocks_update),
      (''driver_specific'',
       field (dec_ptr \<lparr>LvolStoreUUID = []\<rparr> (dec_struct driver_specific_fields)) bdev_DriverSpecific bdev_DriverSpecific_update)]"

definition zero_BDev :: BDev where
  "zero_BDev = \<lparr>bdev_Name = [], bdev_UUID = [], BlockSize = 0, NumBlocks = 0, bdev_DriverSpecific = None\<rparr>"

text \<open>The index \<^verbatim>\<open>result[0]\<close> panics on an empty slice.\<close>

definition getVolume :: "'w http_env \<Rightarrow> rpcClient \<Rightarrow> string \<Rightarrow> ('w rpc_world, BDev res ret) action" where
  "getVolume env client lvolID = do {
     (result, err) \<leftarrow> call env client ''bdev_get_bdevs'' (Some (JObj [(''name'', JStr lvolID)]))
        (dec_slice zero_BDev (dec_struct bdev_fields)) [];
     if errorMatches err ErrJSONNoSuchDevice then State_Monad.return (Ret (Inl ErrJSONNoSuchDevice))
     else case result of
       [] \<Rightarrow> State_Monad.return Panic
     | b # bs \<Rightarrow> State_Monad.return (Ret (Inr b))
   }"

definition isVolumeCreated :: "'w http_env \<Rightarrow> rpcClient \<Rightarrow> string \<Rightarrow> ('w rpc_world, bool res ret) action" where
  "isVolumeCreated env client lvolID = and_then (getVolume env client lvolID) (\<lambda>r.
     case r of
       Inl err \<Rightarrow> if errors_Is err ErrJSONNoSuchDevice then returns (Inr False) else returns (Inl err)
     | Inr _ \<Rightarrow> returns (Inr True))"

definition client_deleteVolume :: "'w http_env \<Rightarrow> rpcClient \<Rightarrow> string \<Rightarrow> ('w rpc_world, go_error option) action" where
  "client_deleteVolume env client lvolID = do {
     err \<leftarrow> call_nil env client ''bdev_lvol_delete'' (Some (JObj [(''name'', JStr lvolID)]));
     State_Monad.return (if errorMatches err ErrJSONNoSuchDevice then Some ErrJSONNoSuchDevice else err)
   }"

definition snapshot ::
    "'w http_env \<Rightarrow> rpcClient \<Rightarrow> string \<Rightarrow> string \<Rightarrow> ('w rpc_world, string \<times> go_error option) action" where
  "snapshot env client lvolName snapShotName =
     call env client ''bdev_lvol_snapshot'' (Some (JObj
        [(''lvol_name'', JStr lvolName), (''snapshot_name'', JStr snapShotName)])) dec_string []"

fun find_lvstore :: "string \<Rightarrow> LvStore list \<Rightarrow> string option" where
  "find_lvstore uuid [] = None"
| "find_lvstore uuid (l # ls) = (if lvs_UUID l = uuid then Some (lvs_Name l) else find_lvstore uuid ls)"

definition getLvstore :: "'w http_env \<Rightarrow> rpcClient \<Rightarrow> string \<Rightarrow> ('w rpc_world, string res ret) action" where
  "getLvstore env client lvolID = and_then (getVolume env client lvolID) (\<lambda>r.
     case r of
       Inl err \<Rightarrow> returns (Inl err)
     | Inr lvol \<Rightarrow>
         (case bdev_DriverSpecific lvol of
            None \<Rightarrow> returns (Inl (Errorf (''no driver_specific for '' @ lvolID)))
          | Some ds \<Rightarrow> and_then (safely (lvStores env client)) (\<lambda>ls.
              case ls of
                Inl err \<Rightarrow> returns (Inl err)
              | Inr lvstores \<Rightarrow>
                  (case find_lvstore (LvolStoreUUID ds) lvstores of
                     Some name \<Rightarrow> returns (Inr name)
                   | None \<Rightarrow> returns (Inl (Errorf (''lvstore for '' @ lvolID @ '' not found'')))))))"

section \<open>What a call does\<close>

definition rpc_http :: "rpcClient \<Rightarrow> int32 \<Rightarrow> string \<Rightarrow> json option \<Rightarrow> http_request" where
  "rpc_http client i method args =
     \<lparr>hr_URL = rpcURL client, hr_User = rpcUser client, hr_Pass = rpcPass client,
      hr_ContentType = ''application/json'', hr_Body = render (request_json i method args)\<rparr>"

lemma run_call [run_simps]:
  assumes "ht_NewRequest env (rpcURL client) = None"
  shows "run_state (call env client method args d x) s =
    (let i = rw_rpcID s + 1; (reply, w) = run_state (ht_Do env (rpc_http client i method args)) (rw_ext s)
     in (call_reply method i d x reply, s\<lparr>rw_rpcID := i, rw_ext := w\<rparr>))"
  using assms by (simp add: call_def next_rpcID_def on_ext_def rpc_http_def case_prod_beta Let_def)

lemma rpcID_call: "rw_rpcID (snd (run_state (call env client method args d x) s)) = rw_rpcID s + 1"
  by (simp add: call_def next_rpcID_def on_ext_def case_prod_beta Let_def split: option.split)

lemma find_response_fields:
  "find_field (rpc_response_fields d) ''id'' = Some (field dec_int resp_ID resp_ID_update)"
  "find_field (rpc_response_fields d) ''result'' = Some (field (dec_iface d) resp_Result resp_Result_update)"
  "find_field (rpc_response_fields d) ''jsonrpc'' = None"
  by (simp_all add: find_field_def rpc_response_fields_def lower_byte_def HasPrefix_def char_of_eq_iff)

text \<open>The response of a target that executed the call with identifier \<open>i\<close> and result \<open>r\<close>.\<close>

definition ok_response :: "int32 \<Rightarrow> json \<Rightarrow> json" where
  "ok_response i r = JObj [(''jsonrpc'', JStr ''2.0''), (''id'', JNum (FormatInt (sint i))), (''result'', r)]"

lemma ok_response_wf: "json_wf r \<Longrightarrow> json_wf (ok_response i r)"
  by (simp add: ok_response_def valid_utf8_ascii)

lemma dec_ok_response:
  "r \<noteq> JNull \<Longrightarrow> dec_struct (rpc_response_fields d) (ok_response i r) (empty_response x) =
    ((empty_response x)\<lparr>resp_ID := i, resp_Result := (True, fst (d r x))\<rparr>, snd (d r x))"
  by (simp add: dec_struct_def ok_response_def find_response_fields field_def dec_iface_def empty_response_def
      case_prod_beta Let_def)

lemma empty_response_error [simp]: "err_Code (resp_Error (empty_response x)) = 0"
  by (simp add: empty_response_def)

lemma call_reply_ok:
  assumes "json_wf r" "json_depth (ok_response i r) \<le> max_depth" "r \<noteq> JNull" "d r x = (y, False)" "c < 400"
  shows "call_reply method i d x (Inr \<lparr>StatusCode = c, Body = render (ok_response i r)\<rparr>) = (y, None)"
  using assms by (simp add: call_reply_def json_Decode_render ok_response_wf dec_ok_response json_finish_def Let_def)

text \<open>
  C28. A call to a target that answers works: when the target replies to the request with this
  call's identifier and a result \<open>r\<close>, written as JSON text that is parsed back from the wire, the call
  returns no error and the variable holds what decoding \<open>r\<close> gives; the counter has moved by one and
  the only effect on the outside is the one exchange.
\<close>

theorem call_returns_result:
  assumes "ht_NewRequest env (rpcURL client) = None"
    and "run_state (ht_Do env (rpc_http client (rw_rpcID s + 1) method args)) (rw_ext s) =
      (Inr \<lparr>StatusCode = c, Body = render (ok_response (rw_rpcID s + 1) r)\<rparr>, w)" and "c < 400"
    and "json_wf r" and "r \<noteq> JNull" and "json_depth (ok_response 0 r) \<le> max_depth" and "d r x = (y, False)"
  shows "run_state (call env client method args d x) s = ((y, None), s\<lparr>rw_rpcID := rw_rpcID s + 1, rw_ext := w\<rparr>)"
proof -
  have "json_depth (ok_response (rw_rpcID s + 1) r) \<le> max_depth" using assms(6) by (simp add: ok_response_def)
  then show ?thesis using assms by (simp add: run_call call_reply_ok Let_def)
qed

text \<open>
  C29. A call that reports no error got its own answer: the HTTP exchange succeeded with a status
  below 400, the body decoded without error, its identifier was the one this call had sent and its
  error code was 0. An answer to another call is never taken for this one's.
\<close>

theorem call_no_error:
  assumes "run_state (call env client method args d x) s = ((y, None), s')"
  shows "\<exists>resp response w.
    run_state (ht_Do env (rpc_http client (rw_rpcID s + 1) method args)) (rw_ext s) = (Inr resp, w) \<and>
    StatusCode resp < 400 \<and>
    json_Decode (dec_struct (rpc_response_fields d)) (Body resp) (empty_response x) = (response, None) \<and>
    resp_ID response = rw_rpcID s + 1 \<and> err_Code (resp_Error response) = 0 \<and> y = snd (resp_Result response)"
proof -
  have new: "ht_NewRequest env (rpcURL client) = None"
    using assms by (auto simp: call_def next_rpcID_def Let_def split: option.splits)
  obtain reply w where run: "run_state (ht_Do env (rpc_http client (rw_rpcID s + 1) method args)) (rw_ext s) = (reply, w)"
    by fastforce
  from assms have "call_reply method (rw_rpcID s + 1) d x reply = (y, None)"
    by (simp add: run_call [OF new] run Let_def)
  with run show ?thesis
    by (auto simp: call_reply_def Let_def split: sum.splits if_splits prod.splits option.splits)
qed

section \<open>The identifiers on the wire\<close>

text \<open>What a request tells the target as its identifier, read off the text of the body.\<close>

definition sent_id :: "http_request \<Rightarrow> json option" where
  "sent_id req = (case json_parse (hr_Body req) of Some (JObj ms) \<Rightarrow> map_of ms ''id'' | _ \<Rightarrow> None)"

text \<open>The same outside world, with a record of every request that reaches it.\<close>

definition recording :: "'w http_env \<Rightarrow> ('w \<times> http_request list) http_env" where
  "recording env = \<lparr>ht_NewRequest = ht_NewRequest env,
     ht_Do = (\<lambda>req. State (\<lambda>(w, sent). let (reply, w') = run_state (ht_Do env req) w in (reply, w', sent @ [req])))\<rparr>"

text \<open>Calls made one after the other, each with a method, its parameters and a variable for the result.\<close>

type_synonym 'a rpc_call = "string \<times> json option \<times> 'a decoder \<times> 'a"

fun make_calls :: "'w http_env \<Rightarrow> rpcClient \<Rightarrow> 'a rpc_call list \<Rightarrow> ('w rpc_world, unit) action" where
  "make_calls env client [] = State_Monad.return ()"
| "make_calls env client ((method, args, d, x) # cs) = do {
     result \<leftarrow> call env client method args d x;
     make_calls env client cs
   }"

text \<open>A request whose JSON text can be read back.\<close>

definition request_ok :: "int32 \<Rightarrow> string \<Rightarrow> json option \<Rightarrow> bool" where
  "request_ok i m args \<longleftrightarrow> json_wf (request_json i m args) \<and> json_depth (request_json i m args) \<le> max_depth"

lemma sent_id_rpc_http: "request_ok i m args \<Longrightarrow> sent_id (rpc_http client i m args) = Some (JNum (FormatInt (sint i)))"
  by (simp add: sent_id_def rpc_http_def request_ok_def json_parse_render) (simp add: request_json_def)

text \<open>Each call sends one request, whose identifier is the counter after counting it.\<close>

lemma make_calls_sent:
  assumes "ht_NewRequest env (rpcURL client) = None"
    and "\<forall>(m, args, d, x) \<in> set cs. \<forall>i. request_ok i m args"
    and "run_state (make_calls (recording env) client cs) s = ((), s')"
  shows "map sent_id (snd (rw_ext s')) = map sent_id (snd (rw_ext s)) @
    map (\<lambda>k. Some (JNum (FormatInt (sint (rw_rpcID s + 1 + of_nat k))))) [0 ..< length cs]"
  using assms(2,3)
proof (induction cs arbitrary: s)
  case (Cons c cs)
  obtain m args d x where c: "c = (m, args, d, x)" by (cases c)
  obtain w sent where w: "rw_ext s = (w, sent)" by (cases "rw_ext s")
  let ?i = "rw_rpcID s + 1"
  have "run_state (call (recording env) client m args d x) s =
      (call_reply m ?i d x (fst (run_state (ht_Do env (rpc_http client ?i m args)) w)),
       s\<lparr>rw_rpcID := ?i, rw_ext := (snd (run_state (ht_Do env (rpc_http client ?i m args)) w), sent @ [rpc_http client ?i m args])\<rparr>)"
    using assms(1) w by (simp add: run_call recording_def case_prod_beta Let_def)
  with Cons.prems(2) have rest: "run_state (make_calls (recording env) client cs)
      (s\<lparr>rw_rpcID := ?i, rw_ext := (snd (run_state (ht_Do env (rpc_http client ?i m args)) w), sent @ [rpc_http client ?i m args])\<rparr>) = ((), s')"
    by (simp add: c Let_def case_prod_beta)
  have ok: "\<forall>(m, args, d, x) \<in> set cs. \<forall>i. request_ok i m args" "request_ok ?i m args" using Cons.prems(1) c by auto
  from Cons.IH [OF ok(1) rest] ok(2) show ?case
    by (simp add: w sent_id_rpc_http upt_conv_Cons map_Suc_upt [symmetric] comp_def ac_simps del: upt_Suc)
qed simp

lemma sint_FormatInt_inj: "FormatInt (sint (v :: int32)) = FormatInt (sint w) \<longleftrightarrow> v = w"
proof
  assume "FormatInt (sint v) = FormatInt (sint w)"
  then have "Some (sint v) = Some (sint w)" by (metis lit_int_FormatInt)
  then show "v = w" by (simp add: signed_word_eqI)
qed simp

text \<open>
  C30. Identifiers do not repeat on the wire: when up to \<open>2 ^ 32\<close> calls are made one after the other on a
  client, each sends exactly one request, whatever it is answered, and the identifiers that the target reads in the
  texts of these requests are pairwise different, although the counter wraps around.
\<close>

theorem call_ids_distinct:
  assumes "ht_NewRequest env (rpcURL client) = None"
    and "\<forall>(m, args, d, x) \<in> set cs. \<forall>i. request_ok i m args" and "length cs \<le> 2 ^ 32"
    and "snd (rw_ext s) = []" and "run_state (make_calls (recording env) client cs) s = ((), s')"
  shows "length (snd (rw_ext s')) = length cs \<and> None \<notin> sent_id ` set (snd (rw_ext s')) \<and>
    distinct (map sent_id (snd (rw_ext s')))"
proof -
  let ?id = "\<lambda>k. Some (JNum (FormatInt (sint (rw_rpcID s + 1 + of_nat k))))"
  have ids: "map sent_id (snd (rw_ext s')) = map ?id [0 ..< length cs]"
    using make_calls_sent [OF assms(1,2,5)] assms(4) by simp
  have "inj_on ?id {0 ..< length cs}"
  proof (rule inj_onI)
    fix j k assume "j \<in> {0 ..< length cs}" "k \<in> {0 ..< length cs}" "?id j = ?id k"
    then have "(of_nat j :: int32) = of_nat k" "j < 2 ^ 32" "k < 2 ^ 32" using assms(3) by (simp_all add: sint_FormatInt_inj)
    then show "j = k" by (simp add: word_of_nat_eq_iff take_bit_eq_mod)
  qed
  then have "distinct (map ?id [0 ..< length cs])" by (simp add: distinct_map)
  moreover have "length (snd (rw_ext s')) = length cs" using arg_cong [OF ids, of length] by simp
  moreover have "sent_id ` set (snd (rw_ext s')) = set (map ?id [0 ..< length cs])"
    unfolding ids [symmetric] by simp
  ultimately show ?thesis by (auto simp: ids)
qed

section \<open>Errors of the target\<close>

lemma error_tags:
  "TrimSpace (TrimPrefix (ToLower (Error ErrJSONNoSuchDevice)) ''json:'') = ''no such device''"
  "TrimSpace (TrimPrefix (ToLower (Error ErrJSONNoSpaceLeft)) ''json:'') = ''no space left''"
  "TrimSpace (TrimPrefix (ToLower (Error ErrInvalidParameters)) ''json:'') = ''invalid parameters''"
  by code_simp+

lemma errorMatches_simps:
  "errorMatches (Some e) ErrJSONNoSuchDevice \<longleftrightarrow> Contains (ToLower (Error e)) ''no such device''"
  "errorMatches (Some e) ErrJSONNoSpaceLeft \<longleftrightarrow> Contains (ToLower (Error e)) ''no space left''"
  "errorMatches (Some e) ErrInvalidParameters \<longleftrightarrow> Contains (ToLower (Error e)) ''invalid parameters''"
  by (simp_all only: errorMatches_def error_tags Let_def option.case)

lemma errorMatches_None [simp]: "\<not> errorMatches None e"
  by (simp add: errorMatches_def)

text \<open>
  C31. Looking a volume up panics when the target cannot be reached: if the HTTP exchange fails with
  an error whose text does not contain ``no such device'' in any case, \<open>getVolume\<close> indexes an empty
  slice.
\<close>

theorem getVolume_panics_on_transport_error:
  assumes "ht_NewRequest env (rpcURL client) = None"
    and "run_state (ht_Do env (rpc_http client (rw_rpcID s + 1) ''bdev_get_bdevs''
        (Some (JObj [(''name'', JStr lvolID)])))) (rw_ext s) = (Inl err, w)"
    and "\<not> Contains (ToLower (''bdev_get_bdevs: '' @ Error err)) ''no such device''"
  shows "fst (run_state (getVolume env client lvolID) s) = Panic"
  using assms
  by (simp add: getVolume_def run_call call_reply_def errorMatches_simps Let_def del: ToLower.simps Contains.simps)

section \<open>Sizes\<close>

lemma go_div_nonneg:
  assumes "0 \<le> sint a" and "0 < sint b"
  shows "sint (go_div a b) = sint a div sint b"
proof -
  have "sint a sdiv sint b = sint a div sint b" using assms by (cases "sint a = 0") (simp_all add: signed_divide_int_def)
  moreover have "0 \<le> sint a div sint b" using assms by (simp add: pos_imp_zdiv_nonneg_iff)
  moreover have "sint a div sint b \<le> sint a" using zdiv_mono2 [of "sint a" 1 "sint b"] assms by simp
  moreover have "sint a < 2 ^ 63" using sint_lt [of a] by simp
  ultimately show ?thesis by (simp add: go_div_def sint_sbintrunc' signed_take_bit_int_eq_self)
qed

text \<open>
  The sizes of a logical volume store are right as long as they fit: when clusters times cluster
  size is a number of bytes below \<open>2 ^ 63\<close>, the size in MiB is that number divided by \<open>2 ^ 20\<close>,
  rounded down, for the total and for the free space.
\<close>

theorem lvstore_sizes:
  assumes "0 \<le> sint (TotalClusters r)" and "0 \<le> sint (FreeClusters r)" and "0 \<le> sint (ClusterSize r)"
    and "sint (TotalClusters r) * sint (ClusterSize r) < 2 ^ 63"
    and "sint (FreeClusters r) * sint (ClusterSize r) < 2 ^ 63"
  shows "sint (TotalSizeMiB (lvstore_of r)) = sint (TotalClusters r) * sint (ClusterSize r) div 2 ^ 20 \<and>
    sint (FreeSizeMiB (lvstore_of r)) = sint (FreeClusters r) * sint (ClusterSize r) div 2 ^ 20"
proof -
  have mib: "sint (go_div (go_div (n * m) 1024) 1024) = sint n * sint m div 2 ^ 20"
    if "0 \<le> sint n" "0 \<le> sint m" "sint n * sint m < 2 ^ 63" for n m :: int64
  proof -
    have "- (2 ^ 63) \<le> sint n * sint m" by (rule order_trans [OF _ mult_nonneg_nonneg [OF that(1,2)]]) simp
    then have prod: "sint (n * m) = sint n * sint m"
      using signed_take_bit_int_eq_self [OF _ that(3)] by (simp add: sint_word_mult)
    then have "0 \<le> sint (n * m)" using that by simp
    moreover from this have "0 \<le> sint (go_div (n * m) 1024)"
      using go_div_nonneg [of "n * m" 1024] by (simp add: pos_imp_zdiv_nonneg_iff)
    ultimately show ?thesis
      using go_div_nonneg [of "n * m" 1024] go_div_nonneg [of "go_div (n * m) 1024" 1024]
      by (simp add: prod zdiv_zmult2_eq [symmetric])
  qed
  show ?thesis using assms by (simp add: lvstore_of_def mib)
qed

section \<open>Concrete calls\<close>

definition demo_rpcClient :: rpcClient where
  "demo_rpcClient = \<lparr>rpcURL = ''http://127.0.0.1:9009'', rpcUser = ''u'', rpcPass = ''p''\<rparr>"

definition demo_rpc :: "unit rpc_world" where
  "demo_rpc = \<lparr>rw_rpcID = 0, rw_transCreated = 0, rw_ext = ()\<rparr>"

text \<open>A target that answers call 1 with a volume, and a target that is down.\<close>

definition demo_target :: "unit http_env" where
  "demo_target = \<lparr>ht_NewRequest = (\<lambda>_. None),
     ht_Do = (\<lambda>_. State_Monad.return (Inr \<lparr>StatusCode = 200, Body = render (ok_response 1 (JStr ''lvol-1''))\<rparr>))\<rparr>"

definition dead_target :: "unit http_env" where
  "dead_target = \<lparr>ht_NewRequest = (\<lambda>_. None),
     ht_Do = (\<lambda>_. State_Monad.return (Inl (LibErr False ''connection refused'')))\<rparr>"

lemma demo_depth: "json_depth (ok_response 0 (JStr ''lvol-1'')) \<le> max_depth"
  by (simp add: ok_response_def)

theorem call_returns_result_witness:
  "run_state (call demo_target demo_rpcClient ''bdev_lvol_create'' None dec_string []) demo_rpc =
     ((''lvol-1'', None), demo_rpc\<lparr>rw_rpcID := 1\<rparr>)"
  using call_returns_result [of demo_target demo_rpcClient demo_rpc "''bdev_lvol_create''" None 200
      "JStr ''lvol-1''" "()" dec_string "[]" "''lvol-1''"] demo_depth
  by (simp add: demo_target_def demo_rpc_def dec_string_def valid_utf8_ascii)

lemma demo_call_runs:
  "run_state (call demo_target demo_rpcClient ''bdev_lvol_create'' None dec_string []) demo_rpc =
     ((''lvol-1'', None), demo_rpc\<lparr>rw_rpcID := 1\<rparr>)"
proof -
  have "json_depth (ok_response 1 (JStr ''lvol-1'')) \<le> max_depth" using demo_depth by (simp add: ok_response_def)
  then show ?thesis
    by (simp add: run_call demo_target_def demo_rpc_def call_reply_ok dec_string_def valid_utf8_ascii Let_def)
qed

theorem call_no_error_witness:
  "\<exists>resp response w.
    run_state (ht_Do demo_target (rpc_http demo_rpcClient 1 ''bdev_lvol_create'' None)) () = (Inr resp, w) \<and>
    StatusCode resp < 400 \<and>
    json_Decode (dec_struct (rpc_response_fields dec_string)) (Body resp) (empty_response []) = (response, None) \<and>
    resp_ID response = 1 \<and> err_Code (resp_Error response) = 0 \<and> ''lvol-1'' = snd (resp_Result response)"
  using call_no_error [OF demo_call_runs] by (simp add: demo_rpc_def)

theorem call_ids_distinct_witness:
  "\<exists>s'. run_state (make_calls (recording dead_target) demo_rpcClient [(''m'', None, dec_ignore, ()), (''m'', None, dec_ignore, ())])
      \<lparr>rw_rpcID = 0, rw_transCreated = 0, rw_ext = ((), [])\<rparr> = ((), s') \<and>
    length (snd (rw_ext s')) = 2 \<and> distinct (map sent_id (snd (rw_ext s')))"
proof -
  let ?cs = "[(''m'', None, dec_ignore, ()), (''m'', None, dec_ignore, ())]" 
    and ?s = "\<lparr>rw_rpcID = 0, rw_transCreated = 0, rw_ext = ((), [])\<rparr>"
  let ?s' = "snd (run_state (make_calls (recording dead_target) demo_rpcClient ?cs) ?s)"
  have run: "run_state (make_calls (recording dead_target) demo_rpcClient ?cs) ?s = ((), ?s')" by (simp add: prod_eq_iff del: make_calls.simps)
  have "request_ok i ''m'' None" for i
    using demo_depth by (simp add: request_ok_def request_json_def valid_utf8_ascii)
  with call_ids_distinct [OF _ _ _ _ run] have "length (snd (rw_ext ?s')) = 2 \<and> distinct (map sent_id (snd (rw_ext ?s')))"
    by (simp add: dead_target_def del: make_calls.simps)
  with run show ?thesis by blast
qed

theorem getVolume_panics_witness:
  "fst (run_state (getVolume dead_target demo_rpcClient ''lvs/lvol'') demo_rpc) = Panic"
proof -
  have "\<not> Contains (ToLower (''bdev_get_bdevs: '' @ Error (LibErr False ''connection refused''))) ''no such device''"
    by code_simp
  then show ?thesis
    by (intro getVolume_panics_on_transport_error [where w = "()" and err = "LibErr False ''connection refused''"])
       (simp_all add: dead_target_def)
qed

definition demo_lvstore :: lvstore_result where
  "demo_lvstore = \<lparr>FreeClusters = 100, ClusterSize = 4194304, TotalClusters = 1000, lr_Name = ''lvs'', lr_UUID = ''u''\<rparr>"

theorem lvstore_sizes_witness:
  "sint (TotalSizeMiB (lvstore_of demo_lvstore)) = 4000 \<and> sint (FreeSizeMiB (lvstore_of demo_lvstore)) = 400"
  using lvstore_sizes [of demo_lvstore] by (simp add: demo_lvstore_def)

end
