(* ===== verification/Util_Lib.thy ===== *)
theory Util_Lib
  imports Initiator Json_Rpc
begin

text \<open>
  The helpers of \<^verbatim>\<open>pkg/util/util.go\<close> and the configuration files of
  \<^verbatim>\<open>pkg/util/config.go\<close>: sizes, environment, JSON files, the detection of a device name from
  sysfs, and the volume context that is kept in a file.
\<close>

section \<open>Sizes and environment\<close>

definition ToMiB :: "int64 \<Rightarrow> int64" where
  "ToMiB bytes = (let mi = 1024 * 1024 in go_div (bytes + mi - 1) mi)"

definition FromEnv :: "'w host_env \<Rightarrow> string \<Rightarrow> string \<Rightarrow> ('w, string) action" where
  "FromEnv env name def = do {
     s \<leftarrow> he_Getenv env name;
     if s \<noteq> [] then State_Monad.return s else State_Monad.return def
   }"

section \<open>JSON files and configuration\<close>

text \<open>Opening and reading the file are one step: both end in the error being returned.\<close>

definition ParseJSONFile :: "'w host_env \<Rightarrow> string \<Rightarrow> 'a decoder \<Rightarrow> 'a \<Rightarrow> ('w, 'a \<times> go_error option) action" where
  "ParseJSONFile env fileName d result = do {
     r \<leftarrow> he_ReadFile env fileName;
     case r of
       Inl err \<Rightarrow> State_Monad.return (result, Some err)
     | Inr bytes \<Rightarrow> State_Monad.return (json_Unmarshal d bytes result)
   }"

record SpdkNodeConfig =
  snc_Name :: string
  snc_URL :: string
  snc_TargetType :: string
  snc_TargetAddr :: string

definition SpdkNodeConfig_fields :: "SpdkNodeConfig fields" where
  "SpdkNodeConfig_fields =
     [(''name'', field dec_string snc_Name snc_Name_update),
      (''rpcURL'', field dec_string snc_URL snc_URL_update),
      (''targetType'', field dec_string snc_TargetType snc_TargetType_update),
      (''targetAddr'', field dec_string snc_TargetAddr snc_TargetAddr_update)]"

record CSIControllerConfig =
  Nodes :: "SpdkNodeConfig list"

definition CSIControllerConfig_fields :: "CSIControllerConfig fields" where
  "CSIControllerConfig_fields =
     [(''Nodes'', field (dec_slice \<lparr>snc_Name = [], snc_URL = [], snc_TargetType = [], snc_TargetAddr = []\<rparr>
        (dec_struct SpdkNodeConfig_fields)) Nodes Nodes_update)]"

definition NewCSIControllerConfig :: "'w host_env \<Rightarrow> string \<Rightarrow> string \<Rightarrow> ('w, CSIControllerConfig res) action" where
  "NewCSIControllerConfig env name def = do {
     configFile \<leftarrow> FromEnv env name def;
     (config, err) \<leftarrow> ParseJSONFile env configFile (dec_struct CSIControllerConfig_fields) \<lparr>Nodes = []\<rparr>;
     case err of Some e \<Rightarrow> State_Monad.return (Inl e) | None \<Rightarrow> State_Monad.return (Inr config)
   }"

record rpc_token =
  tok_Name :: string
  tok_UserName :: string
  tok_Password :: string

definition rpc_token_fields :: "rpc_token fields" where
  "rpc_token_fields =
     [(''name'', field dec_string tok_Name tok_Name_update),
      (''username'', field dec_string tok_UserName tok_UserName_update),
      (''password'', field dec_string tok_Password tok_Password_update)]"

record SpdkSecrets =
  Tokens :: "rpc_token list"

definition SpdkSecrets_fields :: "SpdkSecrets fields" where
  "SpdkSecrets_fields =
     [(''rpcTokens'', field (dec_slice \<lparr>tok_Name = [], tok_UserName = [], tok_Password = []\<rparr>
        (dec_struct rpc_token_fields)) Tokens Tokens_update)]"

definition NewSpdkSecrets :: "string \<Rightarrow> SpdkSecrets res" where
  "NewSpdkSecrets jsonSecrets =
     (case json_Unmarshal (dec_struct SpdkSecrets_fields) jsonSecrets \<lparr>Tokens = []\<rparr> of
        (secs, Some err) \<Rightarrow> Inl err
      | (secs, None) \<Rightarrow> Inr secs)"

section \<open>Device names\<close>

text \<open>One or more digits at the start, as long as possible.\<close>

definition digits1 :: "string \<Rightarrow> (string \<times> string) option" where
  "digits1 s = (let d = takeWhile is_digit s in if d = [] then None else Some (d, dropWhile is_digit s))"

text \<open>
  The match of \<^verbatim>\<open>nvme(\d+)n(\d+)|nvme(\d+)c(\d+)n(\d+)\<close> at the start of a text, and the first
  match in it (empty when there is none).
\<close>

definition match_n :: "string \<Rightarrow> string option" where
  "match_n s = (case s of
      [] \<Rightarrow> None
    | x # r \<Rightarrow> if x = CHR ''n'' then map_option (\<lambda>(d, _). ''n'' @ d) (digits1 r) else None)"

definition match_sys :: "string \<Rightarrow> string option" where
  "match_sys s =
     (if \<not> HasPrefix s ''nvme'' then None
      else case digits1 (drop 4 s) of
        None \<Rightarrow> None
      | Some (a, r) \<Rightarrow>
          (case match_n r of
             Some m \<Rightarrow> Some (''nvme'' @ a @ m)
           | None \<Rightarrow>
               (case r of
                  [] \<Rightarrow> None
                | x # t \<Rightarrow>
                    if x = CHR ''c''
                    then (case digits1 t of
                        None \<Rightarrow> None
                      | Some (b, u) \<Rightarrow> map_option (\<lambda>m. ''nvme'' @ a @ ''c'' @ b @ m) (match_n u))
                    else None)))"

fun FindString_sys :: "string \<Rightarrow> string" where
  "FindString_sys [] = []"
| "FindString_sys (c # s) = (case match_sys (c # s) of Some m \<Rightarrow> m | None \<Rightarrow> FindString_sys s)"

text \<open>\<open>ReplaceAllString\<close> of \<^verbatim>\<open>c(\d+)\<close> by nothing.\<close>

function remove_c :: "string \<Rightarrow> string" where
  "remove_c [] = []"
| "remove_c (x # s) =
     (if x = CHR ''c'' then (case digits1 s of None \<Rightarrow> x # remove_c s | Some (_, r) \<Rightarrow> remove_c r)
      else x # remove_c s)"
  by pat_completeness auto
termination
  by (relation "measure length")
     (auto simp: digits1_def Let_def le_imp_less_Suc length_dropWhile_le split: if_splits)

definition getNvmeDeviceName :: "'w host_env \<Rightarrow> string \<Rightarrow> string \<Rightarrow> ('w, string res) action" where
  "getNvmeDeviceName env uuidFilePath nvmeModel = do {
     r \<leftarrow> he_ReadFile env uuidFilePath;
     case r of
       Inl err \<Rightarrow> State_Monad.return (Inl err)
     | Inr uuidContent \<Rightarrow>
         if TrimSpace uuidContent = nvmeModel
         then State_Monad.return (Inr (remove_c (FindString_sys uuidFilePath)))
         else State_Monad.return (Inl (Errorf ''does not match''))
   }"

abbreviation os_ErrNotExist :: go_error where "os_ErrNotExist \<equiv> LibErr True ''file does not exist''"
abbreviation os_ErrDeadlineExceeded :: go_error where "os_ErrDeadlineExceeded \<equiv> LibErr False ''i/o timeout''"

text \<open>
  The loop over the files. \<open>ignorePaths\<close> is a set that the caller shares, \<open>None\<close> when it is nil; every
  path looked at is put into it.
\<close>

fun check_files ::
    "'w host_env \<Rightarrow> string \<Rightarrow> string list \<Rightarrow> string list option \<Rightarrow> ('w, string res \<times> string list option) action" where
  "check_files env nvmeModel [] ignorePaths = State_Monad.return (Inl os_ErrNotExist, ignorePaths)"
| "check_files env nvmeModel (filePath # paths) ignorePaths =
     (case ignorePaths of
        Some ps \<Rightarrow>
          if filePath \<in> set ps then check_files env nvmeModel paths ignorePaths
          else do {
            r \<leftarrow> getNvmeDeviceName env filePath nvmeModel;
            case r of
              Inr deviceName \<Rightarrow>
                if deviceName \<noteq> [] then State_Monad.return (Inr deviceName, Some (filePath # ps))
                else check_files env nvmeModel paths (Some (filePath # ps))
            | Inl _ \<Rightarrow> check_files env nvmeModel paths (Some (filePath # ps))
          }
      | None \<Rightarrow> do {
            r \<leftarrow> getNvmeDeviceName env filePath nvmeModel;
            case r of
              Inr deviceName \<Rightarrow>
                if deviceName \<noteq> [] then State_Monad.return (Inr deviceName, None)
                else check_files env nvmeModel paths None
            | Inl _ \<Rightarrow> check_files env nvmeModel paths None
          })"

definition CheckIfNvmeDeviceExists ::
    "'w host_env \<Rightarrow> string \<Rightarrow> string list option \<Rightarrow> ('w, string res \<times> string list option) action" where
  "CheckIfNvmeDeviceExists env nvmeModel ignorePaths = do {
     r \<leftarrow> he_Glob env ''/sys/bus/pci/devices/*/nvme/nvme*/nvme*n*/uuid'';
     case r of
       Inl err \<Rightarrow> State_Monad.return (Inl (Wrapf ''obtain uuid files error: '' err), ignorePaths)
     | Inr uuidFilePaths \<Rightarrow> check_files env nvmeModel uuidFilePaths ignorePaths
   }"

text \<open>At most 20 rounds, with a second between them.\<close>

fun detect_loop :: "'w host_env \<Rightarrow> string \<Rightarrow> nat \<Rightarrow> string list option \<Rightarrow> ('w, string res) action" where
  "detect_loop env nvmeModel 0 flag = State_Monad.return (Inl os_ErrDeadlineExceeded)"
| "detect_loop env nvmeModel (Suc n) flag = do {
     (r, flag') \<leftarrow> CheckIfNvmeDeviceExists env nvmeModel flag;
     case r of
       Inr deviceName \<Rightarrow> State_Monad.return (Inr deviceName)
     | Inl err \<Rightarrow> do { he_Sleep env 1; detect_loop env nvmeModel n flag' }
   }"

definition detectNvmeDeviceName :: "'w host_env \<Rightarrow> string \<Rightarrow> ('w, string res) action" where
  "detectNvmeDeviceName env nvmeModel = detect_loop env nvmeModel 20 (Some [])"

text \<open>The end of \<open>GetNvmeDeviceName\<close>, common to both ways to the name.\<close>

definition device_ready :: "'w host_env \<Rightarrow> string res \<Rightarrow> ('w, string res) action" where
  "device_ready env r = (case r of
      Inl err \<Rightarrow> State_Monad.return (Inl (Wrapf ''failed to find nvme device name: '' err))
    | Inr deviceName \<Rightarrow> waitForDeviceReady env (''/dev/'' @ deviceName) 20)"

definition GetNvmeDeviceName :: "'w host_env \<Rightarrow> string \<Rightarrow> string \<Rightarrow> ('w, string res) action" where
  "GetNvmeDeviceName env nvmeModel bdf =
     (if bdf \<noteq> [] then do {
        p \<leftarrow> waitForDeviceReady env (''/sys/bus/pci/devices/'' @ bdf @ ''/nvme/nvme*/nvme*n*/uuid'') 20;
        case p of
          Inl err \<Rightarrow> State_Monad.return (Inl (Wrapf ''failed find device at : '' err))
        | Inr uuidFilePath \<Rightarrow> do {
            r \<leftarrow> getNvmeDeviceName env uuidFilePath nvmeModel;
            device_ready env r
          }
      }
      else do { r \<leftarrow> detectNvmeDeviceName env nvmeModel; device_ready env r })"

fun fmt_strings :: "string list \<Rightarrow> string" where
  "fmt_strings [] = []"
| "fmt_strings [a] = a"
| "fmt_strings (a # b # as) = a @ '' '' @ fmt_strings (b # as)"

definition GetVirtioBlkDeviceName :: "'w host_env \<Rightarrow> string \<Rightarrow> bool \<Rightarrow> ('w, string res) action" where
  "GetVirtioBlkDeviceName env bdf wait = do {
     let sysBusGlob = ''/sys/bus/pci/devices/'' @ bdf @ ''/virtio*/block'';
     p \<leftarrow> waitForDeviceReady env sysBusGlob (if wait then 20 else 0);
     case p of
       Inl err \<Rightarrow> State_Monad.return (Inl err)
     | Inr deviceParentDirPath \<Rightarrow> do {
         r \<leftarrow> he_ReadDir env deviceParentDirPath;
         case r of
           Inl err \<Rightarrow> State_Monad.return (Inl err)
         | Inr deviceName \<Rightarrow>
             (case deviceName of
                [(name, _)] \<Rightarrow> waitForDeviceReady env (''/dev/'' @ name) 20
              | _ \<Rightarrow> State_Monad.return (Inl (Errorf
                  (''the deviceParentDirPath ('' @ sysBusGlob @ '') has wrong content (['' @
                   fmt_strings (map snd deviceName) @ ''])''))))
       }
   }"

definition appendContentToFile :: "'w host_env \<Rightarrow> string \<Rightarrow> string \<Rightarrow> ('w, go_error option) action" where
  "appendContentToFile env fileName content = do {
     err \<leftarrow> he_OpenAppend env fileName;
     case err of
       Some e \<Rightarrow> State_Monad.return (Some e)
     | None \<Rightarrow> do {
         err \<leftarrow> he_WriteString env fileName content;
         case err of Some e \<Rightarrow> State_Monad.return (Some e) | None \<Rightarrow> State_Monad.return None
       }
   }"

section \<open>The stashed volume context\<close>

abbreviation volumeContextFileName :: string where
  "volumeContextFileName \<equiv> ''volume-context.json''"

text \<open>
  \<open>json.Marshal\<close> of a map writes its entries sorted by key, and a nil map as \<open>null\<close>.
\<close>

definition json_of_map :: "string go_map option \<Rightarrow> json" where
  "json_of_map m = (case m of
      None \<Rightarrow> JNull
    | Some kvs \<Rightarrow> JObj (map (\<lambda>(k, v). (k, JStr v)) (sort_key fst kvs)))"

definition stashContext :: "'w host_env \<Rightarrow> string go_map option \<Rightarrow> string \<Rightarrow> string \<Rightarrow> ('w, go_error option) action" where
  "stashContext env data folder fileName = do {
     let encodedBytes = render (json_of_map data);
     serr \<leftarrow> he_Stat env folder;
     merr \<leftarrow> (if os_IsNotExist serr then he_MkdirAll env folder else State_Monad.return None);
     case merr of
       Some e \<Rightarrow> State_Monad.return (Some e)
     | None \<Rightarrow> do {
         let fPath = Join folder fileName;
         err \<leftarrow> he_WriteFile env fPath encodedBytes;
         State_Monad.return (map_option (Wrapf (''failed to marshall context JSON at path ('' @ fPath @ ''): '')) err)
       }
   }"

text \<open>The data is the parsed value; a JSON object stands for a \<^verbatim>\<open>map[string]interface{}\<close>.\<close>

definition lookupContext :: "'w host_env \<Rightarrow> string \<Rightarrow> string \<Rightarrow> ('w, json res) action" where
  "lookupContext env folder fileName = do {
     let fPath = Join folder fileName;
     r \<leftarrow> he_ReadFile env fPath;
     case r of
       Inl err \<Rightarrow>
         if \<not> os_IsNotExist (Some err)
         then State_Monad.return (Inl (Wrapf (''failed to read stashed context JSON from path ('' @ fPath @ ''): '') err))
         else State_Monad.return (Inl (Errorf ''volume context JSON file not found''))
     | Inr encodedBytes \<Rightarrow>
         (case json_parse encodedBytes of
            None \<Rightarrow> State_Monad.return (Inl (Wrapf
              (''failed to unmarshall stashed context JSON from path ('' @ fPath @ ''): '') json_syntax_error))
          | Some data \<Rightarrow> State_Monad.return (Inr data))
   }"

definition cleanUpContext :: "'w host_env \<Rightarrow> string \<Rightarrow> string \<Rightarrow> ('w, go_error option) action" where
  "cleanUpContext env folder fileName = do {
     let fPath = Join folder fileName;
     err \<leftarrow> he_Remove env fPath;
     State_Monad.return (map_option (Wrapf (''failed to cleanup volume context stash ('' @ fPath @ ''): '')) err)
   }"

text \<open>
  The loop over the entries of the map; a later duplicate of a key replaces the earlier one. Go visits the
  entries in no fixed order: that decides only which of several values that are not strings the error names,
  and here it is the first.
\<close>

fun convert_entries :: "(string \<times> json) list \<Rightarrow> string go_map \<Rightarrow> string go_map res" where
  "convert_entries [] strMap = Inr strMap"
| "convert_entries ((key, value) # ms) strMap =
     (case value of
        JStr strValue \<Rightarrow> convert_entries ms (go_store key strValue strMap)
      | _ \<Rightarrow> Inl (Errorf (''the value for key '' @ key @ '' is not a string'')))"

definition ConvertInterfaceToMap :: "json \<Rightarrow> string go_map res" where
  "ConvertInterfaceToMap data = (case data of
      JObj ms \<Rightarrow> convert_entries (go_copy ms []) []
    | _ \<Rightarrow> Inl (Errorf ''the data is not a map[string]interface{}''))"

definition StashVolumeContext :: "'w host_env \<Rightarrow> string go_map option \<Rightarrow> string \<Rightarrow> ('w, go_error option) action" where
  "StashVolumeContext env volumeContext path = stashContext env volumeContext path volumeContextFileName"

definition LookupVolumeContext :: "'w host_env \<Rightarrow> string \<Rightarrow> ('w, string go_map res) action" where
  "LookupVolumeContext env path = do {
     r \<leftarrow> lookupContext env path volumeContextFileName;
     case r of
       Inl err \<Rightarrow> State_Monad.return (Inl err)
     | Inr data \<Rightarrow> State_Monad.return (ConvertInterfaceToMap data)
   }"

definition CleanUpVolumeContext :: "'w host_env \<Rightarrow> string \<Rightarrow> ('w, go_error option) action" where
  "CleanUpVolumeContext env path = cleanUpContext env path volumeContextFileName"

section \<open>Rounding\<close>

lemma ceiling_div:
  fixes x m :: int
  assumes "0 < m"
  shows "x \<le> (x + m - 1) div m * m \<and> ((x + m - 1) div m - 1) * m < x"
proof -
  define q where "q = (x + m - 1) div m"
  define r where "r = (x + m - 1) mod m"
  have "q * m + r = x + m - 1" unfolding q_def r_def by (rule div_mult_mod_eq)
  moreover have "0 \<le> r" "r < m" using assms by (simp_all add: r_def)
  ultimately have "x \<le> q * m" "(q - 1) * m < x" unfolding left_diff_distrib by simp_all
  then show ?thesis by (simp add: q_def)
qed

text \<open>
  \<open>ToMiB\<close> rounds up: for every number of bytes that is not negative and not within a MiB of the
  end of the range, the result is the least number of MiB that holds them.
\<close>

theorem ToMiB_rounds_up:
  assumes "0 \<le> sint b" and "sint b \<le> 2 ^ 63 - 2 ^ 20"
  shows "sint b \<le> sint (ToMiB b) * 2 ^ 20 \<and> (sint (ToMiB b) - 1) * 2 ^ 20 < sint b"
proof -
  have sum: "sint (b + 1048575) = sint b + 1048575"
    using assms by (simp add: sint_word_ariths signed_take_bit_int_eq_self)
  have "ToMiB b = go_div (b + 1048575) 1048576" by (simp add: ToMiB_def Let_def add.commute)
  then have "sint (ToMiB b) = (sint b + 1048575) div 1048576"
    using go_div_nonneg [of "b + 1048575" 1048576] assms(1) by (simp add: sum)
  with ceiling_div [of 1048576 "sint b"] show ?thesis by (simp add: add.commute)
qed

theorem ToMiB_rounds_up_witness:
  "sint (1048577 :: int64) \<le> sint (ToMiB 1048577) * 2 ^ 20 \<and> (sint (ToMiB 1048577) - 1) * 2 ^ 20 < sint (1048577 :: int64)"
  by (rule ToMiB_rounds_up) simp_all

section \<open>From a sysfs path to a device name\<close>

lemma digits1_dec:
  assumes "r = [] \<or> \<not> is_digit (hd r)"
  shows "digits1 (dec_of_nat n @ r) = Some (dec_of_nat n, r)"
proof -
  have "\<forall>c \<in> set (dec_of_nat n). is_digit c" using dec_of_nat_digits [of n] by (simp add: list_all_iff)
  moreover have "takeWhile is_digit r = []" "dropWhile is_digit r = r" using assms by (cases r; simp)+
  ultimately show ?thesis by (simp add: digits1_def)
qed

lemma dec_not_letter: "\<not> is_digit c \<Longrightarrow> c \<notin> set (dec_of_nat n)"
  using dec_of_nat_digits [of n] by (auto simp: list_all_iff)

lemma letters_no_digit [simp]:
  "\<not> is_digit (CHR ''n'')" "\<not> is_digit (CHR ''c'')" "\<not> is_digit (CHR ''/'')"
  by (simp_all add: is_digit_def)

lemma FindString_skip: "CHR ''n'' \<notin> set p \<Longrightarrow> FindString_sys (p @ s) = FindString_sys s"
proof (induction p)
  case (Cons x p)
  then have "match_sys ((x # p) @ s) = None" by (auto simp: match_sys_def HasPrefix_def)
  with Cons show ?case by simp
qed simp

lemma remove_c_skip: "CHR ''c'' \<notin> set p \<Longrightarrow> remove_c (p @ s) = p @ remove_c s"
  by (induction p) auto

lemma remove_c_number: "remove_c (''c'' @ dec_of_nat n @ ''n'' @ s) = remove_c (''n'' @ s)"
  using digits1_dec [of "''n'' @ s" n] by simp

text \<open>A component \<open>nvme\<close> or \<open>nvme\<close> with a number is passed over.\<close>

lemma FindString_nvme: "FindString_sys (''nvme/'' @ s) = FindString_sys s"
proof -
  have "digits1 (CHR ''/'' # s) = None" by (simp add: digits1_def)
  then have "match_sys (''nvme/'' @ s) = None" by (simp add: match_sys_def HasPrefix_def)
  then show ?thesis using FindString_skip [of "''vme/''" s] by simp
qed

lemma FindString_controller: "FindString_sys (''nvme'' @ dec_of_nat a @ ''/'' @ s) = FindString_sys s"
proof -
  have "match_sys (''nvme'' @ dec_of_nat a @ ''/'' @ s) = None"
    using digits1_dec [of "''/'' @ s" a] by (simp add: match_sys_def match_n_def HasPrefix_def)
  then show ?thesis using FindString_skip [of "''vme'' @ dec_of_nat a @ ''/''" s] dec_not_letter by simp
qed

lemma match_namespace:
  "FindString_sys (''nvme'' @ dec_of_nat a @ ''n'' @ dec_of_nat c @ ''/uuid'') = ''nvme'' @ dec_of_nat a @ ''n'' @ dec_of_nat c"
  using digits1_dec [of "''n'' @ dec_of_nat c @ ''/uuid''" a] digits1_dec [of "''/uuid''" c]
  by (simp add: match_sys_def match_n_def HasPrefix_def)

lemma match_path:
  "FindString_sys (''nvme'' @ dec_of_nat a @ ''c'' @ dec_of_nat b @ ''n'' @ dec_of_nat c @ ''/uuid'') =
     ''nvme'' @ dec_of_nat a @ ''c'' @ dec_of_nat b @ ''n'' @ dec_of_nat c"
  using digits1_dec [of "''c'' @ dec_of_nat b @ ''n'' @ dec_of_nat c @ ''/uuid''" a]
    digits1_dec [of "''n'' @ dec_of_nat c @ ''/uuid''" b] digits1_dec [of "''/uuid''" c]
  by (simp add: match_sys_def match_n_def HasPrefix_def)

text \<open>
  C34. The device name is read off the sysfs path: for every PCI address without the letter \<open>n\<close> and
  all numbers, the file of namespace \<open>c\<close> of controller \<open>a\<close> gives the name \<open>nvme<a>n<c>\<close>, both for a
  plain namespace and for a path \<open>nvme<a>c<b>n<c>\<close> of a multipath device, whose middle part is removed.
\<close>

theorem device_name_of_sysfs:
  assumes "CHR ''n'' \<notin> set bdf"
  shows "remove_c (FindString_sys (''/sys/bus/pci/devices/'' @ bdf @ ''/nvme/nvme'' @ dec_of_nat i @ ''/nvme'' @
      dec_of_nat a @ ''n'' @ dec_of_nat c @ ''/uuid'')) = ''nvme'' @ dec_of_nat a @ ''n'' @ dec_of_nat c \<and>
    remove_c (FindString_sys (''/sys/bus/pci/devices/'' @ bdf @ ''/nvme/nvme'' @ dec_of_nat i @ ''/nvme'' @
      dec_of_nat a @ ''c'' @ dec_of_nat b @ ''n'' @ dec_of_nat c @ ''/uuid'')) = ''nvme'' @ dec_of_nat a @ ''n'' @ dec_of_nat c"
proof -
  have path: "FindString_sys (''/sys/bus/pci/devices/'' @ bdf @ ''/nvme/nvme'' @ dec_of_nat i @ ''/'' @ s) = FindString_sys s" for s
    using FindString_skip [of "''/sys/bus/pci/devices/'' @ bdf @ ''/''" "''nvme/'' @ ''nvme'' @ dec_of_nat i @ ''/'' @ s"]
      FindString_nvme [of "''nvme'' @ dec_of_nat i @ ''/'' @ s"] FindString_controller [of i s] assms by simp
  have plain: "remove_c (''nvme'' @ dec_of_nat a @ ''n'' @ dec_of_nat c) = ''nvme'' @ dec_of_nat a @ ''n'' @ dec_of_nat c"
    using remove_c_skip [of "''nvme'' @ dec_of_nat a @ ''n'' @ dec_of_nat c" "[]"] dec_not_letter by simp
  have multi: "remove_c (''nvme'' @ dec_of_nat a @ ''c'' @ dec_of_nat b @ ''n'' @ dec_of_nat c) =
      ''nvme'' @ dec_of_nat a @ ''n'' @ dec_of_nat c"
    using remove_c_skip [of "''nvme'' @ dec_of_nat a" "''c'' @ dec_of_nat b @ ''n'' @ dec_of_nat c"]
      remove_c_number [of b "dec_of_nat c"] remove_c_skip [of "''n'' @ dec_of_nat c" "[]"] dec_not_letter by simp
  show ?thesis
    using path [of "''nvme'' @ dec_of_nat a @ ''n'' @ dec_of_nat c @ ''/uuid''"]
      path [of "''nvme'' @ dec_of_nat a @ ''c'' @ dec_of_nat b @ ''n'' @ dec_of_nat c @ ''/uuid''"]
      match_namespace [of a c] match_path [of a b c] plain multi by simp
qed

theorem device_name_of_sysfs_witness:
  "remove_c (FindString_sys (''/sys/bus/pci/devices/'' @ ''0000:01:00.0'' @ ''/nvme/nvme'' @ dec_of_nat 0 @ ''/nvme'' @
      dec_of_nat 0 @ ''n'' @ dec_of_nat 1 @ ''/uuid'')) = ''nvme'' @ dec_of_nat 0 @ ''n'' @ dec_of_nat 1"
  using device_name_of_sysfs [of "''0000:01:00.0''" 0 0 1 0] by simp

section \<open>Looking for a device name\<close>

text \<open>The files that a round without a find has looked at; a file that was looked at is passed over.\<close>

lemma check_files_looked:
  "run_state (check_files env m fs (Some ps)) w = ((Inl e, flag), w') \<Longrightarrow> \<exists>ps'. flag = Some ps' \<and> set ps' = set ps \<union> set fs"
proof (induction fs arbitrary: ps w)
  case (Cons f fs)
  show ?case
  proof (cases "f \<in> set ps")
    case True
    with Cons show ?thesis by fastforce
  next
    case False
    obtain r v where "run_state (getNvmeDeviceName env f m) w = (r, v)" by fastforce
    with False Cons.prems have "run_state (check_files env m fs (Some (f # ps))) v = ((Inl e, flag), w')"
      by (auto split: sum.splits if_splits)
    from Cons.IH [OF this] show ?thesis by auto
  qed
qed auto

lemma check_files_seen:
  "set fs \<subseteq> set ps \<Longrightarrow> run_state (check_files env m fs (Some ps)) w = ((Inl os_ErrNotExist, Some ps), w)"
  by (induction fs) auto

abbreviation uuid_glob :: string where
  "uuid_glob \<equiv> ''/sys/bus/pci/devices/*/nvme/nvme*/nvme*n*/uuid''"

lemma detect_loop_seen:
  assumes "\<And>w. fst (run_state (he_Glob env uuid_glob) w) = Inr fs" "set fs \<subseteq> set ps"
  shows "fst (run_state (detect_loop env m n (Some ps)) w) = Inl os_ErrDeadlineExceeded"
proof (induction n arbitrary: w)
  case (Suc n)
  obtain v where "run_state (he_Glob env uuid_glob) w = (Inr fs, v)" using assms(1) [of w] by (metis prod.collapse)
  then have "run_state (CheckIfNvmeDeviceExists env m (Some ps)) w = ((Inl os_ErrNotExist, Some ps), v)"
    by (simp add: CheckIfNvmeDeviceExists_def check_files_seen [OF assms(2)])
  with Suc show ?case by (simp add: case_prod_beta Let_def)
qed simp

text \<open>
  C33. The search for a device name is decided in its first round: as long as the same files are found,
  \<open>detectNvmeDeviceName\<close> returns what the first look at them gives, and otherwise the time-out, whatever
  the files contain, or become readable, in the 19 rounds that follow; each file is read at most once.
\<close>

theorem detect_decided_in_first_round:
  assumes glob: "\<And>w. fst (run_state (he_Glob env uuid_glob) w) = Inr fs"
  shows "fst (run_state (detectNvmeDeviceName env m) w) =
    (case fst (fst (run_state (CheckIfNvmeDeviceExists env m (Some [])) w)) of
       Inr deviceName \<Rightarrow> Inr deviceName
     | Inl err \<Rightarrow> Inl os_ErrDeadlineExceeded)"
proof -
  obtain v where v: "run_state (he_Glob env uuid_glob) w = (Inr fs, v)" using glob [of w] by (metis prod.collapse)
  obtain r flag w' where first: "run_state (CheckIfNvmeDeviceExists env m (Some [])) w = ((r, flag), w')" by (metis prod.collapse)
  then have files: "run_state (check_files env m fs (Some [])) v = ((r, flag), w')" by (simp add: CheckIfNvmeDeviceExists_def v)
  have "fst (run_state (detect_loop env m (Suc n) (Some [])) w) =
    (case r of Inr deviceName \<Rightarrow> Inr deviceName | Inl err \<Rightarrow> Inl os_ErrDeadlineExceeded)" for n
  proof (cases r)
    case (Inl e)
    from check_files_looked [OF files [unfolded Inl]] obtain ps where "flag = Some ps" "set fs \<subseteq> set ps" by auto
    with detect_loop_seen [OF glob] first Inl show ?thesis by (simp add: case_prod_beta Let_def)
  qed (simp add: first)
  from this [of 19] first show ?thesis by (simp add: detectNvmeDeviceName_def)
qed

section \<open>The context comes back\<close>

text \<open>What the stash relies on: a file that was written is read back, a removed file does not exist.\<close>

locale file_store =
  fixes env :: "'w host_env"
  assumes write_read: "run_state (he_WriteFile env p s) w = (None, w') \<Longrightarrow> run_state (he_ReadFile env p) w' = (Inr s, w')"
    and remove_read: "run_state (he_Remove env p) w = (None, w') \<Longrightarrow> \<exists>m. run_state (he_ReadFile env p) w' = (Inl (LibErr True m), w')"
begin

lemma stash_writes:
  assumes "run_state (stashContext env data folder fileName) w = (None, w')"
  shows "run_state (he_ReadFile env (Join folder fileName)) w' = (Inr (render (json_of_map data)), w')"
proof -
  obtain se w1 where se: "run_state (he_Stat env folder) w = (se, w1)" by fastforce
  obtain me w2 where me: "run_state (if os_IsNotExist se then he_MkdirAll env folder else State_Monad.return None) w1 = (me, w2)"
    by fastforce
  obtain e w3 where e: "run_state (he_WriteFile env (Join folder fileName) (render (json_of_map data))) w2 = (e, w3)"
    by fastforce
  from assms have "e = None \<and> w3 = w'"
    by (cases me) (simp_all add: stashContext_def se me e Let_def split: if_splits)
  with e have "run_state (he_WriteFile env (Join folder fileName) (render (json_of_map data))) w2 = (None, w')" by simp
  then show ?thesis by (rule write_read)
qed

end

definition context_ok :: "string go_map \<Rightarrow> bool" where
  "context_ok m = (go_map_ok m \<and> list_all (\<lambda>kv. valid_utf8 (fst kv) \<and> valid_utf8 (snd kv)) m)"

lemma convert_entries_strings: "convert_entries (map (\<lambda>(k, v). (k, JStr v)) m) acc = Inr (go_copy m acc)"
  by (induction m arbitrary: acc) (auto simp: go_copy_def)

lemma convert_entries_ok: "convert_entries ms acc = Inr m \<Longrightarrow> go_map_ok acc \<Longrightarrow> go_map_ok m"
  by (induction ms acc rule: convert_entries.induct) (auto intro: invar_intros split: json.splits)

lemma LookupVolumeContext_ok: "run_state (LookupVolumeContext env path) w = (Inr m, w') \<Longrightarrow> go_map_ok m"
  by (auto simp: LookupVolumeContext_def ConvertInterfaceToMap_def case_prod_beta Let_def go_map_ok_def
      dest!: convert_entries_ok split: sum.splits json.splits)

lemma Convert_json_of_map:
  assumes "go_map_ok m"
  shows "ConvertInterfaceToMap (json_of_map (Some m)) = Inr (sort_key fst m)"
proof -
  have ok: "go_map_ok (sort_key fst m)" using assms by (simp add: go_map_ok_def distinct_map)
  then have "go_map_ok (map (\<lambda>(k, v). (k, JStr v)) (sort_key fst m))" by (simp add: go_map_ok_def o_def case_prod_beta)
  with ok show ?thesis
    by (simp add: ConvertInterfaceToMap_def json_of_map_def go_copy_Nil convert_entries_strings)
qed

lemma wf_mems_strings:
  "list_all (\<lambda>kv. valid_utf8 (fst kv) \<and> valid_utf8 (snd kv)) m \<Longrightarrow> wf_mems (map (\<lambda>(k, v). (k, JStr v)) m)"
  by (induction m) auto

lemma depth_mems_strings: "depth_mems (map (\<lambda>(k, v). (k, JStr v)) m) = 0"
  by (induction m) auto

lemma json_of_map_parse:
  assumes "context_ok m"
  shows "json_parse (render (json_of_map (Some m))) = Some (json_of_map (Some m))"
proof (rule json_parse_render)
  have "list_all (\<lambda>kv. valid_utf8 (fst kv) \<and> valid_utf8 (snd kv)) (sort_key fst m)"
    using assms by (simp add: context_ok_def list_all_iff)
  then show "json_wf (json_of_map (Some m))"
    by (simp add: json_of_map_def wf_mems_strings)
  show "json_depth (json_of_map (Some m)) \<le> max_depth"
    by (simp add: json_of_map_def depth_mems_strings)
qed

lemma map_of_sort_key: "go_map_ok m \<Longrightarrow> map_of (sort_key fst m) = map_of m"
  by (subst map_of_inject_set) (auto simp: go_map_ok_def distinct_map)

context file_store
begin

lemma lookup_stashed:
  assumes "context_ok m" and "run_state (StashVolumeContext env (Some m) path) w = (None, w')"
  shows "run_state (LookupVolumeContext env path) w' = (Inr (sort_key fst m), w')"
proof -
  have "run_state (he_ReadFile env (Join path volumeContextFileName)) w' = (Inr (render (json_of_map (Some m))), w')"
    using assms(2) unfolding StashVolumeContext_def by (rule stash_writes)
  moreover have "go_map_ok m" using assms(1) by (simp add: context_ok_def)
  ultimately show ?thesis
    using json_of_map_parse [OF assms(1)]
    by (simp add: LookupVolumeContext_def lookupContext_def Convert_json_of_map Let_def)
qed

lemma lookup_cleaned:
  assumes "run_state (CleanUpVolumeContext env path) w = (None, w')"
  shows "run_state (LookupVolumeContext env path) w' = (Inl (Errorf ''volume context JSON file not found''), w')"
proof -
  obtain e v where r: "run_state (he_Remove env (Join path volumeContextFileName)) w = (e, v)" by fastforce
  with assms have "e = None" "v = w'" by (auto simp: CleanUpVolumeContext_def cleanUpContext_def Let_def)
  with remove_read r obtain m where "run_state (he_ReadFile env (Join path volumeContextFileName)) w' = (Inl (LibErr True m), w')"
    by blast
  then show ?thesis by (simp add: LookupVolumeContext_def lookupContext_def Let_def)
qed

end

text \<open>
  C32. The volume context survives on disk: on a host whose files can be read back, after
  \<open>StashVolumeContext\<close> of a map of valid UTF-8 texts succeeded, \<open>LookupVolumeContext\<close> of the same folder
  returns a map with the same entries; after a successful \<open>CleanUpVolumeContext\<close> it reports that the
  file is not there.
\<close>

theorem volume_context_roundtrip:
  assumes "file_store env" and "context_ok m" and "run_state (StashVolumeContext env (Some m) path) w = (None, w1)"
  shows "\<exists>m'. run_state (LookupVolumeContext env path) w1 = (Inr m', w1) \<and> go_map_ok m' \<and> map_of m' = map_of m \<and>
    (\<forall>w2. run_state (CleanUpVolumeContext env path) w1 = (None, w2) \<longrightarrow>
      run_state (LookupVolumeContext env path) w2 = (Inl (Errorf ''volume context JSON file not found''), w2))"
proof -
  have "go_map_ok m" using assms(2) by (simp add: context_ok_def)
  then have "go_map_ok (sort_key fst m)" "map_of (sort_key fst m) = map_of m"
    by (simp_all add: go_map_ok_def distinct_map map_of_sort_key)
  with file_store.lookup_stashed [OF assms] file_store.lookup_cleaned [OF assms(1)] show ?thesis by blast
qed

end
