(* ===== verification/Host_Mem.thy ===== *)
theory Host_Mem
  imports Node_Contract Util_Lib
begin

text \<open>
  A host in memory that keeps the contracts \<open>node_host\<close> and \<open>file_store\<close>: paths, file contents, a table of bind mounts
  and the NVMe subsystems that can be connected. It is the world in which the properties of the node
  side are applied to concrete requests.
\<close>

record host_mem =
  hm_paths :: "string list"
  hm_files :: "(string \<times> string) list"
  hm_mounts :: "(string \<times> string) list"
  hm_subsystems :: "(string \<times> string) list"
  hm_connected :: "string list"
  hm_clock :: nat

definition hm_mnt :: "host_mem \<Rightarrow> string \<Rightarrow> string list" where
  "hm_mnt w p = map snd (filter (\<lambda>tm. fst tm = p) (hm_mounts w))"

definition hm_ex :: "host_mem \<Rightarrow> string \<Rightarrow> bool" where
  "hm_ex w p = (p \<in> set (hm_paths w) \<or> hm_mnt w p \<noteq> [])"

abbreviation ENOENT :: go_error where
  "ENOENT \<equiv> LibErr True ''no such file or directory''"
abbreviation EBUSY :: go_error where
  "EBUSY \<equiv> LibErr False ''device or resource busy''"
abbreviation ENOTEMPTY :: go_error where
  "ENOTEMPTY \<equiv> LibErr False ''directory not empty''"
abbreviation EINVAL :: go_error where
  "EINVAL \<equiv> LibErr False ''invalid argument''"

definition hm_check :: "string \<Rightarrow> host_mem \<Rightarrow> (bool \<times> go_error option) \<times> host_mem" where
  "hm_check p w = (if hm_ex w p then (hm_mnt w p = [], None) else (True, Some ENOENT), w)"

definition hm_stat :: "string \<Rightarrow> host_mem \<Rightarrow> go_error option \<times> host_mem" where
  "hm_stat p w = (if hm_ex w p then None else Some ENOENT, w)"

definition hm_make :: "string \<Rightarrow> host_mem \<Rightarrow> go_error option \<times> host_mem" where
  "hm_make p w = (None, w\<lparr>hm_paths := List.insert p (hm_paths w)\<rparr>)"

definition hm_mount :: "string \<Rightarrow> string \<Rightarrow> string \<Rightarrow> string list \<Rightarrow> host_mem \<Rightarrow> go_error option \<times> host_mem" where
  "hm_mount src p fstype opts w =
     (if hm_ex w p then (None, w\<lparr>hm_mounts := (p, src) # hm_mounts w\<rparr>) else (Some ENOENT, w))"

fun unmount_first :: "string \<Rightarrow> (string \<times> string) list \<Rightarrow> (string \<times> string) list" where
  "unmount_first p [] = []"
| "unmount_first p (m # ms) = (if fst m = p then ms else m # unmount_first p ms)"

definition hm_unmount :: "string \<Rightarrow> host_mem \<Rightarrow> go_error option \<times> host_mem" where
  "hm_unmount p w =
     (if hm_mnt w p = [] then (Some EINVAL, w)
      else (None, w\<lparr>hm_mounts := unmount_first p (hm_mounts w), hm_paths := List.insert p (hm_paths w)\<rparr>))"

definition hm_remove :: "string \<Rightarrow> host_mem \<Rightarrow> go_error option \<times> host_mem" where
  "hm_remove p w =
     (if \<not> hm_ex w p then (Some ENOENT, w)
      else if hm_mnt w p \<noteq> [] then (Some EBUSY, w)
      else if list_ex (\<lambda>q. HasPrefix q (p @ ''/'')) (hm_paths w) then (Some ENOTEMPTY, w)
      else (None, w\<lparr>hm_paths := removeAll p (hm_paths w), hm_files := filter (\<lambda>f. fst f \<noteq> p) (hm_files w)\<rparr>))"

definition hm_read :: "string \<Rightarrow> host_mem \<Rightarrow> string res \<times> host_mem" where
  "hm_read p w = (case map_of (hm_files w) p of None \<Rightarrow> Inl ENOENT | Some s \<Rightarrow> Inr s, w)"

definition hm_write :: "string \<Rightarrow> string \<Rightarrow> host_mem \<Rightarrow> go_error option \<times> host_mem" where
  "hm_write p s w = (None, w\<lparr>hm_paths := List.insert p (hm_paths w), hm_files := go_store p s (hm_files w)\<rparr>)"

definition hm_append :: "string \<Rightarrow> string \<Rightarrow> host_mem \<Rightarrow> go_error option \<times> host_mem" where
  "hm_append p s w =
     (let old = (case map_of (hm_files w) p of None \<Rightarrow> [] | Some t \<Rightarrow> t)
      in (None, w\<lparr>hm_files := go_store p (old @ s) (hm_files w)\<rparr>))"

definition hm_readdir :: "string \<Rightarrow> host_mem \<Rightarrow> (string \<times> string) list res \<times> host_mem" where
  "hm_readdir d w =
     (if hm_ex w d
      then Inr (map (\<lambda>q. let n = drop (length d + 1) q in (n, ''- '' @ n))
        (filter (\<lambda>q. HasPrefix q (d @ ''/'')) (hm_paths w)))
      else Inl ENOENT, w)"

text \<open>The commands of the initiator: connect a subsystem and disconnect it.\<close>

definition hm_exec :: "string list \<Rightarrow> nat \<Rightarrow> host_mem \<Rightarrow> (string \<times> go_error option \<times> bool) \<times> host_mem" where
  "hm_exec cmd n w =
     (if take 2 cmd = [''nvme'', ''connect-all''] \<and> 8 \<le> length cmd
      then (([], None, False), w\<lparr>hm_connected := List.insert (cmd ! 7) (hm_connected w)\<rparr>)
      else if take 2 cmd = [''nvme'', ''disconnect''] \<and> 4 \<le> length cmd
      then (([], None, False), w\<lparr>hm_connected := removeAll (cmd ! 3) (hm_connected w)\<rparr>)
      else (([], Some (LibErr False ''exit status 1''), False), w))"

text \<open>The glob of a UUID matches the link of that UUID once its subsystem is connected.\<close>

definition hm_glob :: "string \<Rightarrow> host_mem \<Rightarrow> string list res \<times> host_mem" where
  "hm_glob g w =
     (Inr (map (\<lambda>s. ''/dev/disk/by-id/nvme-uuid.'' @ snd s)
        (filter (\<lambda>s. fst s \<in> set (hm_connected w) \<and> g = ''/dev/disk/by-id/nvme-uuid.*'' @ snd s @ ''*'')
          (hm_subsystems w))), w)"

definition mem_host :: "host_mem host_env" where
  "mem_host =
     \<lparr>he_IsNotMountPoint = (\<lambda>p. State (hm_check p)),
      he_Mount = (\<lambda>src p fstype opts. State (hm_mount src p fstype opts)),
      he_Unmount = (\<lambda>p. State (hm_unmount p)),
      he_Stat = (\<lambda>p. State (hm_stat p)),
      he_MkdirAll = (\<lambda>p. State (hm_make p)),
      he_Create = (\<lambda>p. State (hm_make p)),
      he_Remove = (\<lambda>p. State (hm_remove p)),
      he_ReadFile = (\<lambda>p. State (hm_read p)),
      he_WriteFile = (\<lambda>p s. State (hm_write p s)),
      he_OpenAppend = (\<lambda>p. State (hm_make p)),
      he_WriteString = (\<lambda>p s. State (hm_append p s)),
      he_ReadDir = (\<lambda>d. State (hm_readdir d)),
      he_Getenv = (\<lambda>v. State_Monad.return []),
      he_Glob = (\<lambda>g. State (hm_glob g)),
      he_CombinedOutput = (\<lambda>cmd n. State (hm_exec cmd n)),
      he_Sleep = (\<lambda>n. State (\<lambda>w. ((), w\<lparr>hm_clock := hm_clock w + n\<rparr>)))\<rparr>"

lemmas hm_defs = mem_host_def hm_check_def hm_stat_def hm_make_def hm_mount_def hm_unmount_def hm_remove_def
  hm_read_def hm_write_def hm_append_def hm_readdir_def hm_exec_def hm_glob_def

lemma hm_mnt_unmount_first:
  "map snd (filter (\<lambda>tm. fst tm = p) (unmount_first p ms)) = tl (map snd (filter (\<lambda>tm. fst tm = p) ms))"
  by (induction p ms rule: unmount_first.induct) auto

lemma hm_mnt_cong: "hm_mounts w' = hm_mounts w \<Longrightarrow> hm_mnt w' = hm_mnt w"
  by (auto simp: hm_mnt_def)

interpretation mem: node_host mem_host hm_mnt hm_ex
proof
  fix w w' p b e
  show "hm_mnt w p \<noteq> [] \<Longrightarrow> hm_ex w p" by (simp add: hm_ex_def)
  show "run_state (he_IsNotMountPoint mem_host p) w = ((b, e), w') \<Longrightarrow>
      w' = w \<and> (os_IsNotExist e \<longleftrightarrow> \<not> hm_ex w p) \<and> (e = None \<longrightarrow> b = (hm_mnt w p = []))"
    by (auto simp: hm_defs split: if_splits)
  show "run_state (he_Stat mem_host p) w = (e, w') \<Longrightarrow> w' = w \<and> (os_IsNotExist e \<longleftrightarrow> \<not> hm_ex w p)"
    by (auto simp: hm_defs)
  show "run_state (he_MkdirAll mem_host p) w = (e, w') \<Longrightarrow> hm_mnt w' = hm_mnt w"
    by (auto simp: hm_defs intro: hm_mnt_cong)
  show "run_state (he_Create mem_host p) w = (e, w') \<Longrightarrow> hm_mnt w' = hm_mnt w \<and> (e = None \<longrightarrow> hm_ex w' p)"
    by (auto simp: hm_defs hm_ex_def intro: hm_mnt_cong)
  show "run_state (he_Unmount mem_host p) w = (e, w') \<Longrightarrow>
      if e = None then hm_mnt w' p = tl (hm_mnt w p) \<and> hm_ex w' p else hm_mnt w' = hm_mnt w"
    by (auto simp: hm_defs hm_ex_def hm_mnt_def hm_mnt_unmount_first split: if_splits)
  show "run_state (he_Remove mem_host p) w = (e, w') \<Longrightarrow>
      hm_mnt w' = hm_mnt w \<and> (e = None \<or> os_IsNotExist e \<longrightarrow> \<not> hm_ex w' p) \<and> (\<forall>q. hm_ex w' q \<longrightarrow> hm_ex w q)"
    by (auto simp: hm_defs hm_ex_def hm_mnt_def split: if_splits)
next
  fix w w' p e src fstype opts
  show "run_state (he_Mount mem_host src p fstype opts) w = (e, w') \<Longrightarrow>
      if e = None then hm_mnt w' p = src # hm_mnt w p else hm_mnt w' = hm_mnt w"
    by (auto simp: hm_defs hm_mnt_def split: if_splits)
next
  fix w w' cmd n and r :: "string \<times> go_error option \<times> bool" and g :: string and m :: "string list res" and u :: unit
  show "run_state (he_CombinedOutput mem_host cmd n) w = (r, w') \<Longrightarrow> hm_mnt w' = hm_mnt w"
    by (auto simp: hm_defs intro: hm_mnt_cong split: if_splits)
  show "run_state (he_Glob mem_host g) w = (m, w') \<Longrightarrow> hm_mnt w' = hm_mnt w" by (auto simp: hm_defs)
  show "run_state (he_Sleep mem_host n) w = (u, w') \<Longrightarrow> hm_mnt w' = hm_mnt w"
    by (auto simp: hm_defs intro: hm_mnt_cong)
qed

lemma map_of_filter_other: "map_of (filter (\<lambda>f. fst f \<noteq> p) m) p = None"
  by (induction m) auto

interpretation mem_files: file_store mem_host
proof
  fix p s w w'
  show "run_state (he_WriteFile mem_host p s) w = (None, w') \<Longrightarrow> run_state (he_ReadFile mem_host p) w' = (Inr s, w')"
    by (auto simp: hm_defs)
  show "run_state (he_Remove mem_host p) w = (None, w') \<Longrightarrow>
      \<exists>m. run_state (he_ReadFile mem_host p) w' = (Inl (LibErr True m), w')"
    by (auto simp: hm_defs map_of_filter_other split: if_splits)
qed

definition demo_context :: "string go_map" where
  "demo_context = [(''nqn'', ''nqn.1''), (''image'', ''pvc-1'')]"

theorem volume_context_roundtrip_witness:
  "\<exists>w1 m'. run_state (StashVolumeContext mem_host (Some demo_context) ''/staging'')
       \<lparr>hm_paths = [], hm_files = [], hm_mounts = [], hm_subsystems = [], hm_connected = [], hm_clock = 0\<rparr> = (None, w1) \<and>
     run_state (LookupVolumeContext mem_host ''/staging'') w1 = (Inr m', w1) \<and> map_of m' ''image'' = Some ''pvc-1''"
proof -
  let ?w = "\<lparr>hm_paths = [], hm_files = [], hm_mounts = [], hm_subsystems = [], hm_connected = [], hm_clock = 0\<rparr> :: host_mem"
  obtain e w1 where run: "run_state (StashVolumeContext mem_host (Some demo_context) ''/staging'') ?w = (e, w1)" by fastforce
  moreover have "fst (run_state (StashVolumeContext mem_host (Some demo_context) ''/staging'') ?w) = None"
    by (simp add: StashVolumeContext_def stashContext_def hm_defs Let_def case_prod_beta)
  ultimately have e: "run_state (StashVolumeContext mem_host (Some demo_context) ''/staging'') ?w = (None, w1)" by simp
  have "context_ok demo_context" by (simp add: context_ok_def demo_context_def go_map_ok_def valid_utf8_ascii)
  from volume_context_roundtrip [OF mem_files.file_store_axioms this e] e show ?thesis
    by (auto simp: demo_context_def)
qed

text \<open>A host on which a uuid file gets its content one second after it appears.\<close>

definition late_path :: string where
  "late_path = ''/sys/bus/pci/devices/0000:01:00.0/nvme/nvme0/nvme0n1/uuid''"

definition late_host :: "host_mem host_env" where
  "late_host = mem_host\<lparr>he_Glob := (\<lambda>g. State_Monad.return (Inr [late_path])),
     he_ReadFile := (\<lambda>p. State (\<lambda>w. (Inr (if hm_clock w = 0 then [] else ''u1''), w)))\<rparr>"

definition late_start :: host_mem where
  "late_start = \<lparr>hm_paths = [late_path], hm_files = [], hm_mounts = [], hm_subsystems = [], hm_connected = [], hm_clock = 0\<rparr>"

theorem detect_decided_in_first_round_witness:
  "fst (run_state (detectNvmeDeviceName late_host ''u1'') late_start) = Inl os_ErrDeadlineExceeded \<and>
   fst (run_state (detectNvmeDeviceName late_host ''u1'') (late_start\<lparr>hm_clock := 1\<rparr>)) = Inr ''nvme0n1''"
proof -
  have glob: "fst (run_state (he_Glob late_host uuid_glob) w) = Inr [late_path]" for w by (simp add: late_host_def)
  have "fst (fst (run_state (CheckIfNvmeDeviceExists late_host ''u1'' (Some [])) late_start)) = Inl os_ErrNotExist"
    "fst (fst (run_state (CheckIfNvmeDeviceExists late_host ''u1'' (Some [])) (late_start\<lparr>hm_clock := 1\<rparr>))) = Inr ''nvme0n1''"
    by code_simp+
  then show ?thesis
    unfolding detect_decided_in_first_round [of late_host "[late_path]", OF glob] by simp
qed

end
