(* ===== verification/Node_Properties.thy ===== *)
theory Node_Properties
  imports Host_Mem
begin

text \<open>
  What the handlers of the node service do on any host that keeps the contract \<open>node_host\<close>, with each
  property applied to requests on the host in memory.
\<close>

section \<open>From handlers to their bodies\<close>

context node_host
begin

lemma validate_run:
  assumes "run_state (ValidateNodeStageVolumeRequest env req) w = (e, w')"
  shows "w' = w"
proof -
  obtain c v where "run_state (he_Stat env (nsv_StagingTargetPath req)) w = (c, v)" by (metis prod.collapse)
  with stat [OF this] assms show ?thesis
    by (auto simp: ValidateNodeStageVolumeRequest_def checkDirExists_def split: if_splits)
qed

lemma NodeStage_Done:
  assumes "NodeStageVolume env req (vl, w) = Done (r, vl', w')"
  shows "w' = w \<and> (\<exists>e. r = Inl e) \<or> run_state (NodeStageVolume_body env req) w = (r, w')"
proof -
  obtain e v where e: "run_state (ValidateNodeStageVolumeRequest env req) w = (e, v)" by (metis prod.collapse)
  from validate_run [OF e] assms e show ?thesis
    by (auto simp: NodeStageVolume_def dest: with_lock_DoneD split: option.splits)
qed

lemma NodeStage_body_mounted:
  assumes "run_state (NodeStageVolume_body env req) w = (Inr (), w')"
  shows "mnt w' (stage_at req) \<noteq> []"
proof (cases "mnt w (stage_at req) = []")
  case True
  show ?thesis by (rule NodeStage_body_success [OF True assms]) simp
next
  case False
  with NodeStage_body_staged [OF False assms] show ?thesis by simp
qed

lemma validate_ok:
  assumes "run_state (ValidateNodeStageVolumeRequest env req) w = (None, w')" and "ex v (nsv_StagingTargetPath req)"
  shows "run_state (ValidateNodeStageVolumeRequest env req) v = (None, v)"
proof -
  obtain c u where "run_state (he_Stat env (nsv_StagingTargetPath req)) v = (c, u)" by (metis prod.collapse)
  with stat [OF this] assms show ?thesis
    by (auto simp: ValidateNodeStageVolumeRequest_def checkDirExists_def split: if_splits)
qed

lemma NodeStage_Done_valid:
  assumes "NodeStageVolume env req (vl, w) = Done (Inr (), vl', w')"
  shows "run_state (ValidateNodeStageVolumeRequest env req) w = (None, w)"
proof -
  obtain e v where e: "run_state (ValidateNodeStageVolumeRequest env req) w = (e, v)" by (metis prod.collapse)
  with validate_run [OF e] assms show ?thesis by (auto simp: NodeStageVolume_def split: option.splits)
qed

lemma isStaged_ok:
  assumes "snd (fst (run_state (he_IsNotMountPoint env p) w)) = None"
  shows "run_state (isStaged env p) w = ((mnt w p \<noteq> [], None), w)"
proof -
  obtain b e v where "run_state (he_IsNotMountPoint env p) w = ((b, e), v)" by (metis prod.collapse)
  with check [OF this] assms show ?thesis by (simp add: isStaged_def)
qed

end

section \<open>Concrete requests\<close>

definition demo_publish_context :: "string go_map" where
  "demo_publish_context = [(''uuid'', ''u1''), (''nqn'', ''nqn.1''), (''traddr'', ''10.0.0.1''), (''trsvcid'', ''4420''),
     (''transport'', ''TCP'')]"

definition demo_stage :: NodeStageVolumeRequest where
  "demo_stage = \<lparr>nsv_VolumeId = ''vol1'', nsv_PublishContext = Some demo_publish_context,
     nsv_StagingTargetPath = ''/staging'',
     nsv_VolumeCapability = Some \<lparr>vcap_AccessType = Some AccessBlock, vcap_AccessMode = None\<rparr>\<rparr>"

definition demo_unstage :: NodeUnstageVolumeRequest where
  "demo_unstage = \<lparr>nuv_VolumeId = ''vol1'', nuv_StagingTargetPath = ''/staging''\<rparr>"

definition demo_publish :: NodePublishVolumeRequest where
  "demo_publish = \<lparr>npv_VolumeId = ''vol1'', npv_StagingTargetPath = ''/staging'', npv_TargetPath = ''/pods/p1'',
     npv_VolumeCapability = Some \<lparr>vcap_AccessType = Some AccessBlock, vcap_AccessMode = None\<rparr>\<rparr>"

definition demo_unpublish :: NodeUnpublishVolumeRequest where
  "demo_unpublish = \<lparr>nup_VolumeId = ''vol1'', nup_TargetPath = ''/pods/p1''\<rparr>"

definition demo_host :: host_mem where
  "demo_host = \<lparr>hm_paths = [''/staging''], hm_files = [], hm_mounts = [], hm_subsystems = [(''nqn.1'', ''u1'')],
     hm_connected = [], hm_clock = 0\<rparr>"

definition demo_staged :: host_mem where
  "demo_staged = demo_host\<lparr>hm_paths := [''/staging/vol1'', ''/staging''],
     hm_mounts := [(''/staging/vol1'', ''/dev/disk/by-id/nvme-uuid.u1'')], hm_connected := [''nqn.1'']\<rparr>"

definition demo_published :: host_mem where
  "demo_published = demo_staged\<lparr>hm_paths := [''/pods/p1'', ''/pods'', ''/staging/vol1'', ''/staging''],
     hm_mounts := [(''/pods/p1'', ''/staging/vol1''), (''/staging/vol1'', ''/dev/disk/by-id/nvme-uuid.u1'')]\<rparr>"

lemma demo_stage_runs:
  assumes "locks_inv vl" "lock_free_at vl = lock_free_at NewVolumeLocks"
  shows "\<exists>vl'. NodeStageVolume mem_host demo_stage (vl, demo_host) = Done (Inr (), vl', demo_staged) \<and>
    locks_inv vl' \<and> lock_free_at vl' = lock_free_at NewVolumeLocks"
proof -
  have "run_state (ValidateNodeStageVolumeRequest mem_host demo_stage) demo_host = (None, demo_host)"
    and "run_state (NodeStageVolume_body mem_host demo_stage) demo_host = (Inr (), demo_staged)" by code_simp+
  with with_lock_fresh [OF assms] show ?thesis by (simp add: NodeStageVolume_def)
qed

section \<open>Connecting\<close>

definition demo_initiator :: initiatorNVMf where
  "demo_initiator = \<lparr>targetType = ''TCP'', targetAddr = ''10.0.0.1'', targetPort = ''4420'', ini_nqn = ''nqn.1'',
     ini_uuid = ''u1''\<rparr>"

theorem Connect_decided_by_device_witness:
  "\<exists>dev. fst (run_state (Connect mem_host demo_initiator) demo_host) = Inr dev"
proof -
  let ?w0 = "snd (run_state (he_CombinedOutput mem_host (connect_cmdLine demo_initiator) 40) demo_host)"
    and ?g = "device_glob demo_initiator"
  have "fst (run_state (he_Glob mem_host ?g) ?w0) = Inr [''/dev/disk/by-id/nvme-uuid.u1'']" by code_simp
  then have g0: "poll_glob mem_host ?g 0 ?w0 = Inr [''/dev/disk/by-id/nvme-uuid.u1'']" by simp
  define G where "G = (\<lambda>k. poll_glob mem_host ?g k ?w0)"
  obtain r w' where run: "run_state (Connect mem_host demo_initiator) demo_host = (r, w')" by fastforce
  from Connect_decided_by_device [of mem_host demo_initiator demo_host]
  have "(\<exists>k < 21. (\<forall>j < k. G j = Inr []) \<and> ((\<exists>m ms. G k = Inr (m # ms) \<and> r = Inr m) \<or> (\<exists>err. G k = Inl err \<and> r = Inl err))) \<or>
      (\<forall>j < 21. G j = Inr [])"
    unfolding Let_def run prod.case G_def by blast
  moreover have G0: "G 0 = Inr [''/dev/disk/by-id/nvme-uuid.u1'']" using g0 by (simp add: G_def)
  moreover have "\<not> (\<forall>j < (21 :: nat). G j = Inr [])" using G0 by force
  ultimately obtain k where k: "\<forall>j < k. G j = Inr []"
    "(\<exists>m ms. G k = Inr (m # ms) \<and> r = Inr m) \<or> (\<exists>err. G k = Inl err \<and> r = Inl err)" by blast
  then have "k = 0" using G0 by (cases k) auto
  with k(2) G0 run show ?thesis by auto
qed

theorem Disconnect_decided_by_device_witness:
  "fst (run_state (Disconnect mem_host demo_initiator) demo_staged) = None"
proof -
  let ?w0 = "snd (run_state (he_CombinedOutput mem_host [''nvme'', ''disconnect'', ''-n'', ini_nqn demo_initiator] 40) demo_staged)"
    and ?g = "device_glob demo_initiator"
  define G where "G = (\<lambda>k. poll_glob mem_host ?g k ?w0)"
  have "fst (run_state (he_Glob mem_host ?g) ?w0) = Inr []" by code_simp
  then have G0: "G 0 = Inr []" by (simp add: G_def)
  obtain r w' where run: "run_state (Disconnect mem_host demo_initiator) demo_staged = (r, w')" by fastforce
  from Disconnect_decided_by_device [of mem_host demo_initiator demo_staged]
  have "(\<exists>k < 21. (\<forall>j < k. \<exists>m ms. G j = Inr (m # ms)) \<and> (G k = Inr [] \<and> r = None \<or> (\<exists>err. G k = Inl err \<and> r = Some err))) \<or>
      (\<forall>j < 21. \<exists>m ms. G j = Inr (m # ms))"
    unfolding Let_def run prod.case G_def by blast
  moreover have "\<not> (\<forall>j < (21 :: nat). \<exists>m ms. G j = Inr (m # ms))" using G0 by force
  ultimately obtain k where k: "\<forall>j < k. \<exists>m ms. G j = Inr (m # ms)"
    "G k = Inr [] \<and> r = None \<or> (\<exists>err. G k = Inl err \<and> r = Some err)" by blast
  then have "k = 0" using G0 by (cases k) auto
  with k(2) G0 run show ?thesis by auto
qed

section \<open>Staging\<close>

text \<open>
  C10. Staging succeeds only with the volume mounted: after a successful \<open>NodeStageVolume\<close> the staging
  file is a mount point. If nothing was mounted there before, what is mounted is the device that
  \<open>Connect\<close> returned for the initiator of the publish context; if it was staged already, the host
  is left exactly as it was, so the call may be repeated.
\<close>

theorem stage_mounts_device:
  assumes "node_host env mnt ex" and "NodeStageVolume env req (vl, w) = Done (Inr (), vl', w')"
  shows "if mnt w (stage_at req) = []
    then (\<exists>i dev w1. NewNvmeofCsiInitiator (nsv_PublishContext req) = Inr i \<and>
      run_state (Connect env i) w = (Inr dev, w1) \<and> mnt w' (stage_at req) = [dev])
    else w' = w"
proof -
  have "run_state (NodeStageVolume_body env req) w = (Inr (), w')"
    using node_host.NodeStage_Done [OF assms] by simp
  then show ?thesis
    using node_host.NodeStage_body_success [OF assms(1)] node_host.NodeStage_body_staged [OF assms(1)] by metis
qed

theorem stage_mounts_device_witness:
  "\<exists>vl' w'. NodeStageVolume mem_host demo_stage (NewVolumeLocks, demo_host) = Done (Inr (), vl', w') \<and>
     (\<exists>dev. hm_mnt w' ''/staging/vol1'' = [dev])"
proof -
  obtain vl' where run: "NodeStageVolume mem_host demo_stage (NewVolumeLocks, demo_host) = Done (Inr (), vl', demo_staged)"
    using demo_stage_runs [of NewVolumeLocks] by auto
  from stage_mounts_device [OF mem.node_host_axioms run] have "\<exists>dev. hm_mnt demo_staged ''/staging/vol1'' = [dev]"
    by (auto simp: hm_mnt_def demo_host_def demo_stage_def staging_path_def split: if_splits)
  with run show ?thesis by blast
qed

text \<open>
  C11. How a failed \<open>NodeStageVolume\<close> ends. Every path has the mounts it had before, and the host is as it was, or
  the error is that of \<open>Connect\<close>, after which nothing more is done and in particular nothing is disconnected, or the
  device was connected, staging it failed with the reported error, and the last thing done, in the host that
  this left, was to disconnect the same initiator.
\<close>

theorem stage_failure_ends:
  assumes host: "node_host env mnt ex" and run: "NodeStageVolume env req (vl, w) = Done (Inl err, vl', w')"
  shows "mnt w' = mnt w \<and>
    (w' = w \<or>
     (\<exists>i e. NewNvmeofCsiInitiator (nsv_PublishContext req) = Inr i \<and> run_state (Connect env i) w = (Inl e, w') \<and>
       err = Status Internal (Error e)) \<or>
     (\<exists>i dev w1 e w2. NewNvmeofCsiInitiator (nsv_PublishContext req) = Inr i \<and>
       run_state (Connect env i) w = (Inr dev, w1) \<and> run_state (stageVolume env dev (stage_at req)) w1 = (Some e, w2) \<and>
       w' = snd (run_state (Disconnect env i) w2) \<and> err = Status Internal (Error e)))"
proof (cases "w' = w")
  case False
  then have body: "run_state (NodeStageVolume_body env req) w = (Inl err, w')"
    using node_host.NodeStage_Done [OF host run] by simp
  show ?thesis
    using node_host.NodeStage_body_failure_mnt [OF host body] node_host.NodeStage_body_failure [OF host body] by metis
qed simp

text \<open>
  On a host where the device does not appear in time, the handler ends in the second way, and the subsystem that
  \<^verbatim>\<open>nvme connect-all\<close> connected stays connected.
\<close>

definition slow_host :: host_mem where
  "slow_host = demo_host\<lparr>hm_subsystems := []\<rparr>"

theorem stage_failure_ends_witness:
  "\<exists>e vl' w'. NodeStageVolume mem_host demo_stage (NewVolumeLocks, slow_host) = Done (Inl e, vl', w') \<and>
     hm_mnt w' = hm_mnt slow_host \<and> hm_connected slow_host = [] \<and> hm_connected w' = [''nqn.1'']"
proof -
  let ?run = "run_state (NodeStageVolume_body mem_host demo_stage) slow_host"
  have "run_state (ValidateNodeStageVolumeRequest mem_host demo_stage) slow_host = (None, slow_host)"
    and r: "fst ?run = Inl (Status Internal ''timed out waiting device ready: /dev/disk/by-id/nvme-uuid.*u1*'')"
    and c: "hm_connected (snd ?run) = [''nqn.1'']" "hm_connected slow_host = []" by code_simp+
  moreover have body: "?run = (Inl (Status Internal ''timed out waiting device ready: /dev/disk/by-id/nvme-uuid.*u1*''), snd ?run)"
    using r by (simp only: prod_eq_iff fst_conv snd_conv simp_thms)
  ultimately obtain vl' where run: "NodeStageVolume mem_host demo_stage (NewVolumeLocks, slow_host) =
      Done (Inl (Status Internal ''timed out waiting device ready: /dev/disk/by-id/nvme-uuid.*u1*''), vl', snd ?run)"
    using with_lock_fresh [OF _ refl body, of "nsv_VolumeId demo_stage"] by (auto simp: NodeStageVolume_def)
  from stage_failure_ends [OF mem.node_host_axioms run] c run show ?thesis by blast
qed

text \<open>
  Staging can be repeated: after a successful \<open>NodeStageVolume\<close> the same request, whenever its
  lock is free, the staging directory is still there and the host can check the mount point,
  succeeds again and changes nothing on the host, in particular connects nothing.
\<close>

theorem stage_repeat:
  assumes host: "node_host env mnt ex" and run: "NodeStageVolume env req (vl, w) = Done (Inr (), vl', w')"
    and locks: "locks_inv vl2" "lock_free_at vl2 (nsv_VolumeId req)"
    and dir: "ex w' (nsv_StagingTargetPath req)"
    and ok: "snd (fst (run_state (he_IsNotMountPoint env (stage_at req)) w')) = None"
  shows "\<exists>vl3. NodeStageVolume env req (vl2, w') = Done (Inr (), vl3, w') \<and> lock_free_at vl3 = lock_free_at vl2"
proof -
  have body: "run_state (NodeStageVolume_body env req) w = (Inr (), w')"
    using node_host.NodeStage_Done [OF host run] by simp
  then have "mnt w' (stage_at req) \<noteq> []" by (rule node_host.NodeStage_body_mounted [OF host])
  then have "run_state (NodeStageVolume_body env req) w' = (Inr (), w')"
    using node_host.isStaged_ok [OF host ok] by (simp add: NodeStageVolume_body_def)
  moreover have "run_state (ValidateNodeStageVolumeRequest env req) w' = (None, w')"
    using node_host.validate_ok [OF host node_host.NodeStage_Done_valid [OF host run] dir] .
  moreover obtain vl3 where "with_lock (nsv_VolumeId req) (NodeStageVolume_body env req) (vl2, w') =
      Done (fst (run_state (NodeStageVolume_body env req) w'), vl3, snd (run_state (NodeStageVolume_body env req) w'))"
    "lock_free_at vl3 = lock_free_at vl2" by (rule with_lock_done [OF locks, of "NodeStageVolume_body env req" w'])
  ultimately show ?thesis by (simp add: NodeStageVolume_def)
qed

theorem stage_repeat_witness:
  "\<exists>vl1 vl2. NodeStageVolume mem_host demo_stage (NewVolumeLocks, demo_host) = Done (Inr (), vl1, demo_staged) \<and>
     NodeStageVolume mem_host demo_stage (vl1, demo_staged) = Done (Inr (), vl2, demo_staged)"
proof -
  obtain vl1 where run: "NodeStageVolume mem_host demo_stage (NewVolumeLocks, demo_host) = Done (Inr (), vl1, demo_staged)"
    and vl1: "locks_inv vl1" "lock_free_at vl1 = lock_free_at NewVolumeLocks" using demo_stage_runs [of NewVolumeLocks] by auto
  have "hm_ex demo_staged (nsv_StagingTargetPath demo_stage)"
    "snd (fst (run_state (he_IsNotMountPoint mem_host (stage_at demo_stage)) demo_staged)) = None" by code_simp+
  with stage_repeat [OF mem.node_host_axioms run vl1(1)] vl1(2) run show ?thesis by auto
qed

section \<open>Unstaging\<close>

lemma NodeUnstage_keeps:
  assumes "\<And>p w. f (snd (run_state (he_IsNotMountPoint env p) w)) = f w"
    and "\<And>p w. f (snd (run_state (he_Unmount env p) w)) = f w" and "\<And>p w. f (snd (run_state (he_Remove env p) w)) = f w"
  shows "f (snd (run_state (NodeUnstageVolume_body env req) w)) = f w"
proof -
  have "f (snd (run_state (remove_target env p) w)) = f w" for p w
    by (simp add: remove_target_def assms case_prod_beta Let_def)
  then have "f (snd (run_state (deleteMountPoint env p) w)) = f w" for p w
    by (auto simp: deleteMountPoint_def assms case_prod_beta Let_def split: option.split)
  then show ?thesis
    by (auto simp: NodeUnstageVolume_body_def isStaged_def assms case_prod_beta Let_def split: option.split)
qed

text \<open>
  C16. What unstaging takes back of staging, and what not. When a volume that was not staged is staged and later
  unstaged, both with success and with nothing else mounted in between, the device that \<open>Connect\<close> returned was what was
  mounted at the staging path in between; afterwards the path has no mount again and the file is gone. The connection
  stays: whatever of the host is kept by the mount-point check, by unmounting and by removing files, such as which
  subsystems are connected, is as staging left it.
\<close>

theorem unstage_after_stage:
  assumes host: "node_host env mnt ex"
    and stage: "NodeStageVolume env req (vl, w) = Done (Inr (), vl1, w1)" and fresh: "mnt w (stage_at req) = []"
    and same: "nuv_VolumeId ureq = nsv_VolumeId req" "nuv_StagingTargetPath ureq = nsv_StagingTargetPath req"
    and unstage: "NodeUnstageVolume env ureq (vl2, w1) = Done (Inr (), vl3, w2)"
    and conn: "\<And>p w. conn (snd (run_state (he_IsNotMountPoint env p) w)) = conn w"
      "\<And>p w. conn (snd (run_state (he_Unmount env p) w)) = conn w" "\<And>p w. conn (snd (run_state (he_Remove env p) w)) = conn w"
  shows "(\<exists>i dev v. NewNvmeofCsiInitiator (nsv_PublishContext req) = Inr i \<and> run_state (Connect env i) w = (Inr dev, v) \<and>
      mnt w1 (stage_at req) = [dev]) \<and>
    mnt w2 (stage_at req) = mnt w (stage_at req) \<and> \<not> ex w2 (stage_at req) \<and> conn w2 = conn w1"
proof -
  have at: "unstage_at ureq = stage_at req" using same by simp
  have staged: "run_state (NodeStageVolume_body env req) w = (Inr (), w1)"
    using node_host.NodeStage_Done [OF host stage] by simp
  then have "mnt w1 (stage_at req) \<noteq> []" by (rule node_host.NodeStage_body_mounted [OF host])
  moreover have body: "run_state (NodeUnstageVolume_body env ureq) w1 = (Inr (), w2)"
    using unstage by (auto simp: NodeUnstageVolume_def dest: with_lock_DoneD)
  moreover have "conn w2 = conn w1" using NodeUnstage_keeps [of conn env ureq w1, OF conn] body by simp
  moreover have "\<exists>i dev v. NewNvmeofCsiInitiator (nsv_PublishContext req) = Inr i \<and> run_state (Connect env i) w = (Inr dev, v) \<and>
      mnt w1 (stage_at req) = [dev]" by (rule node_host.NodeStage_body_success [OF host fresh staged]) blast
  ultimately show ?thesis
    using node_host.NodeUnstage_body_success [OF host body] fresh by (auto simp: at)
qed

theorem unstage_after_stage_witness:
  "\<exists>vl1 vl3 w2. NodeStageVolume mem_host demo_stage (NewVolumeLocks, demo_host) = Done (Inr (), vl1, demo_staged) \<and>
     NodeUnstageVolume mem_host demo_unstage (vl1, demo_staged) = Done (Inr (), vl3, w2) \<and>
     hm_mnt w2 ''/staging/vol1'' = [] \<and> \<not> hm_ex w2 ''/staging/vol1'' \<and> hm_connected w2 = [''nqn.1'']"
proof -
  let ?w2 = "snd (run_state (NodeUnstageVolume_body mem_host demo_unstage) demo_staged)"
  obtain vl1 where run: "NodeStageVolume mem_host demo_stage (NewVolumeLocks, demo_host) = Done (Inr (), vl1, demo_staged)"
    and vl1: "locks_inv vl1" "lock_free_at vl1 = lock_free_at NewVolumeLocks" using demo_stage_runs [of NewVolumeLocks] by auto
  have "fst (run_state (NodeUnstageVolume_body mem_host demo_unstage) demo_staged) = Inr ()" by code_simp
  then have "run_state (NodeUnstageVolume_body mem_host demo_unstage) demo_staged = (Inr (), ?w2)" by (metis prod.collapse)
  from with_lock_fresh [OF vl1 this] obtain vl3 where
    un: "NodeUnstageVolume mem_host demo_unstage (vl1, demo_staged) = Done (Inr (), vl3, ?w2)"
    unfolding NodeUnstageVolume_def by blast
  have at: "hm_mnt demo_host (stage_at demo_stage) = []" "stage_at demo_stage = ''/staging/vol1''" by code_simp+
  have "hm_connected (snd (run_state (he_IsNotMountPoint mem_host p) w)) = hm_connected w"
    "hm_connected (snd (run_state (he_Unmount mem_host p) w)) = hm_connected w"
    "hm_connected (snd (run_state (he_Remove mem_host p) w)) = hm_connected w" for p w
    by (simp_all add: mem_host_def hm_check_def hm_unmount_def hm_remove_def)
  moreover have same: "nuv_VolumeId demo_unstage = nsv_VolumeId demo_stage" "nuv_StagingTargetPath demo_unstage = nsv_StagingTargetPath demo_stage"
    "hm_connected demo_staged = [''nqn.1'']" by (simp_all add: demo_unstage_def demo_stage_def demo_staged_def)
  ultimately have "hm_mnt ?w2 ''/staging/vol1'' = [] \<and> \<not> hm_ex ?w2 ''/staging/vol1'' \<and> hm_connected ?w2 = [''nqn.1'']"
    using unstage_after_stage [where conn = hm_connected, OF mem.node_host_axioms run at(1) same(1,2) un] at by simp
  with run un show ?thesis by blast
qed

section \<open>Publishing\<close>

lemma NodePublish_Done:
  "NodePublishVolume env req (vl, w) = Done (r, vl', w') \<Longrightarrow> run_state (NodePublishVolume_body env req) w = (r, w')"
  unfolding NodePublishVolume_def by (rule with_lock_DoneD)

lemma NodeUnpublish_Done:
  "NodeUnpublishVolume env req (vl, w) = Done (r, vl', w') \<Longrightarrow> run_state (NodeUnpublishVolume_body env req) w = (r, w')"
  unfolding NodeUnpublishVolume_def by (rule with_lock_DoneD)

text \<open>
  Publishing puts the staged file on top of the target path, and a successful
  \<open>NodeUnpublishVolume\<close> of that path leaves neither a mount nor a file there.
\<close>

theorem publish_then_unpublish:
  assumes host: "node_host env mnt ex"
    and pub: "NodePublishVolume env req (vl, w) = Done (Inr (), vl1, w1)"
    and unpub: "NodeUnpublishVolume env ureq (vl2, w1) = Done (Inr (), vl3, w2)"
    and same: "nup_TargetPath ureq = npv_TargetPath req"
  shows "mnt w1 (npv_TargetPath req) = [Join (npv_StagingTargetPath req) (npv_VolumeId req)] \<and>
    mnt w2 (npv_TargetPath req) = [] \<and> \<not> ex w2 (npv_TargetPath req)"
  using node_host.NodePublish_body_success [OF host NodePublish_Done [OF pub]]
    node_host.NodeUnpublish_body_success [OF host NodeUnpublish_Done [OF unpub]] same by simp

text \<open>
  C19. Publishing is not idempotent: when \<open>NodePublishVolume\<close> succeeded twice for the same target, the
  target carries two bind mounts, and the next \<open>NodeUnpublishVolume\<close> of it cannot succeed, because it
  takes off one of them and the other keeps the file busy.
\<close>

theorem publish_twice_unpublish_fails:
  assumes host: "node_host env mnt ex"
    and pub1: "NodePublishVolume env req (vl, w) = Done (Inr (), vl1, w1)"
    and pub2: "NodePublishVolume env req (vl2, w1) = Done (Inr (), vl3, w2)"
    and same: "nup_TargetPath ureq = npv_TargetPath req"
  shows "2 \<le> length (mnt w2 (npv_TargetPath req)) \<and>
    NodeUnpublishVolume env ureq (vl4, w2) \<noteq> Done (Inr (), vl5, w3)"
proof -
  have two: "2 \<le> length (mnt w2 (npv_TargetPath req))"
    using node_host.NodePublish_body_success [OF host NodePublish_Done [OF pub1]]
      node_host.NodePublish_body_success [OF host NodePublish_Done [OF pub2]] by simp
  moreover have "NodeUnpublishVolume env ureq (vl4, w2) \<noteq> Done (Inr (), vl5, w3)"
  proof
    assume "NodeUnpublishVolume env ureq (vl4, w2) = Done (Inr (), vl5, w3)"
    from node_host.NodeUnpublish_body_success(3) [OF host NodeUnpublish_Done [OF this]] two same show False by simp
  qed
  ultimately show ?thesis by blast
qed

lemma demo_publish_runs:
  assumes "locks_inv vl" "lock_free_at vl = lock_free_at NewVolumeLocks"
  shows "\<exists>vl'. NodePublishVolume mem_host demo_publish (vl, demo_staged) = Done (Inr (), vl', demo_published) \<and>
    locks_inv vl' \<and> lock_free_at vl' = lock_free_at NewVolumeLocks"
proof -
  have "run_state (NodePublishVolume_body mem_host demo_publish) demo_staged = (Inr (), demo_published)" by code_simp
  from with_lock_fresh [OF assms this] show ?thesis by (simp add: NodePublishVolume_def)
qed

theorem publish_then_unpublish_witness:
  "\<exists>vl1 vl3 w2. NodePublishVolume mem_host demo_publish (NewVolumeLocks, demo_staged) = Done (Inr (), vl1, demo_published) \<and>
     NodeUnpublishVolume mem_host demo_unpublish (vl1, demo_published) = Done (Inr (), vl3, w2) \<and>
     hm_mnt w2 ''/pods/p1'' = []"
proof -
  let ?w2 = "snd (run_state (NodeUnpublishVolume_body mem_host demo_unpublish) demo_published)"
  obtain vl1 where run: "NodePublishVolume mem_host demo_publish (NewVolumeLocks, demo_staged) = Done (Inr (), vl1, demo_published)"
    and vl1: "locks_inv vl1" "lock_free_at vl1 = lock_free_at NewVolumeLocks" using demo_publish_runs [of NewVolumeLocks] by auto
  have "fst (run_state (NodeUnpublishVolume_body mem_host demo_unpublish) demo_published) = Inr ()" by code_simp
  then have "run_state (NodeUnpublishVolume_body mem_host demo_unpublish) demo_published = (Inr (), ?w2)" by (metis prod.collapse)
  from with_lock_fresh [OF vl1 this] obtain vl3 where
    un: "NodeUnpublishVolume mem_host demo_unpublish (vl1, demo_published) = Done (Inr (), vl3, ?w2)"
    unfolding NodeUnpublishVolume_def by blast
  from publish_then_unpublish [OF mem.node_host_axioms run un] run un show ?thesis
    by (auto simp: demo_publish_def demo_unpublish_def)
qed

theorem publish_twice_unpublish_fails_witness:
  "\<exists>vl1 vl2 w2. NodePublishVolume mem_host demo_publish (NewVolumeLocks, demo_staged) = Done (Inr (), vl1, demo_published) \<and>
     NodePublishVolume mem_host demo_publish (vl1, demo_published) = Done (Inr (), vl2, w2) \<and>
     2 \<le> length (hm_mnt w2 ''/pods/p1'')"
proof -
  let ?w2 = "snd (run_state (NodePublishVolume_body mem_host demo_publish) demo_published)"
  obtain vl1 where run: "NodePublishVolume mem_host demo_publish (NewVolumeLocks, demo_staged) = Done (Inr (), vl1, demo_published)"
    and vl1: "locks_inv vl1" "lock_free_at vl1 = lock_free_at NewVolumeLocks" using demo_publish_runs [of NewVolumeLocks] by auto
  have "fst (run_state (NodePublishVolume_body mem_host demo_publish) demo_published) = Inr ()" by code_simp
  then have "run_state (NodePublishVolume_body mem_host demo_publish) demo_published = (Inr (), ?w2)" by (metis prod.collapse)
  from with_lock_fresh [OF vl1 this] obtain vl2 where
    again: "NodePublishVolume mem_host demo_publish (vl1, demo_published) = Done (Inr (), vl2, ?w2)"
    unfolding NodePublishVolume_def by blast
  from publish_twice_unpublish_fails [OF mem.node_host_axioms run again, of demo_unpublish] run again show ?thesis
    by (auto simp: demo_publish_def demo_unpublish_def)
qed

section \<open>Unstaging and the connection\<close>

text \<open>
  C24. \<open>NodeUnstageVolume\<close> does not disconnect: on every host, for every request, from every state, it does
  the same when the commands of the host are replaced by any others. It runs no command at all, so a
  device that \<open>NodeStageVolume\<close> connected stays connected.
\<close>

theorem unstage_runs_no_command:
  "NodeUnstageVolume (env\<lparr>he_CombinedOutput := f\<rparr>) req s = NodeUnstageVolume env req s"
proof -
  let ?env = "env\<lparr>he_CombinedOutput := f\<rparr>"
  have env: "he_Remove ?env = he_Remove env" "he_IsNotMountPoint ?env = he_IsNotMountPoint env"
    "he_Unmount ?env = he_Unmount env" by simp_all
  have remove: "remove_target ?env p = remove_target env p" for p unfolding remove_target_def env by (rule refl)
  have staged: "isStaged ?env p = isStaged env p" for p unfolding isStaged_def env by (rule refl)
  have delete: "deleteMountPoint ?env p = deleteMountPoint env p" for p
    unfolding deleteMountPoint_def env remove by (rule refl)
  show ?thesis unfolding NodeUnstageVolume_def NodeUnstageVolume_body_def staged delete by (rule refl)
qed

end
