(* ===== verification/Mount_Refinement.thy ===== *)
theory Mount_Refinement
  imports Node_Properties
begin

text \<open>
  The node service as a specification of mounts. The requests of the four handlers of
  \<^verbatim>\<open>pkg/driver/nodeserver.go\<close> are served one after the other; what they do to the stacks of mounts is
  the relation \<open>mount_step\<close>, which knows neither locks nor files nor devices. The handlers refine it,
  and what holds of all its runs holds of all sequences of requests.
\<close>

section \<open>Serving requests\<close>

datatype node_request =
    Stage NodeStageVolumeRequest
  | Unstage NodeUnstageVolumeRequest
  | Publish NodePublishVolumeRequest
  | Unpublish NodeUnpublishVolumeRequest

fun node_handle :: "'w host_env \<Rightarrow> node_request \<Rightarrow> VolumeLocks \<times> 'w \<Rightarrow> (unit res \<times> VolumeLocks \<times> 'w) run" where
  "node_handle env (Stage req) = NodeStageVolume env req"
| "node_handle env (Unstage req) = NodeUnstageVolume env req"
| "node_handle env (Publish req) = NodePublishVolume env req"
| "node_handle env (Unpublish req) = NodeUnpublishVolume env req"

fun node_serve :: "'w host_env \<Rightarrow> node_request list \<Rightarrow> VolumeLocks \<times> 'w \<Rightarrow> (unit res list \<times> VolumeLocks \<times> 'w) run" where
  "node_serve env [] s = Done ([], s)"
| "node_serve env (r # rs) s = (case node_handle env r s of
     Done (x, s') \<Rightarrow> (case node_serve env rs s' of
         Done (xs, t) \<Rightarrow> Done (x # xs, t)
       | Blocks \<Rightarrow> Blocks
       | Fatal \<Rightarrow> Fatal)
   | Blocks \<Rightarrow> Blocks
   | Fatal \<Rightarrow> Fatal)"

text \<open>The path a request mounts at or unmounts.\<close>

fun request_path :: "node_request \<Rightarrow> string" where
  "request_path (Stage req) = stage_at req"
| "request_path (Unstage req) = unstage_at req"
| "request_path (Publish req) = npv_TargetPath req"
| "request_path (Unpublish req) = nup_TargetPath req"

fun takes_off :: "node_request \<Rightarrow> bool" where
  "takes_off (Stage req) = False"
| "takes_off (Unstage req) = True"
| "takes_off (Publish req) = False"
| "takes_off (Unpublish req) = True"

abbreviation succeeded :: "unit res \<Rightarrow> bool" where
  "succeeded r \<equiv> r = Inr ()"

text \<open>With all locks free a request is served by what its handler does under the lock.\<close>

fun node_body :: "'w host_env \<Rightarrow> node_request \<Rightarrow> ('w, unit res) action" where
  "node_body env (Stage req) = do {
     err \<leftarrow> ValidateNodeStageVolumeRequest env req;
     case err of Some e \<Rightarrow> State_Monad.return (Inl e) | None \<Rightarrow> NodeStageVolume_body env req
   }"
| "node_body env (Unstage req) = NodeUnstageVolume_body env req"
| "node_body env (Publish req) = NodePublishVolume_body env req"
| "node_body env (Unpublish req) = NodeUnpublishVolume_body env req"

lemma node_handle_fresh:
  assumes "locks_inv vl" "lock_free_at vl = lock_free_at NewVolumeLocks" "run_state (node_body env r) w = (x, w')"
  obtains vl' where "node_handle env r (vl, w) = Done (x, vl', w')" "locks_inv vl'" "lock_free_at vl' = lock_free_at NewVolumeLocks"
proof (cases r)
  case (Stage req)
  obtain e v where "run_state (ValidateNodeStageVolumeRequest env req) w = (e, v)" by fastforce
  with assms Stage show ?thesis using that with_lock_fresh [OF assms(1,2), of "NodeStageVolume_body env req" v]
    by (cases e) (fastforce simp: NodeStageVolume_def)+
qed (use assms that with_lock_fresh [OF assms(1,2)] in
    \<open>fastforce simp: NodeUnstageVolume_def NodePublishVolume_def NodeUnpublishVolume_def\<close>)+

section \<open>The specification\<close>

type_synonym mounts = "string \<Rightarrow> string list"

text \<open>\<open>touches p q\<close> says that a mount at \<open>p\<close> may show at \<open>q\<close>; all other paths keep their stacks.\<close>

definition changed :: "(string \<Rightarrow> string \<Rightarrow> bool) \<Rightarrow> string \<Rightarrow> string list \<Rightarrow> mounts \<Rightarrow> mounts \<Rightarrow> bool" where
  "changed touches p st m m' \<longleftrightarrow> m' p = st \<and> (\<forall>q. q \<noteq> p \<longrightarrow> \<not> touches p q \<longrightarrow> m' q = m q)"

text \<open>
  A request that succeeds: staging finds a mount or makes the only one; publishing puts the staged file
  on top; unstaging and unpublishing find nothing or take the only mount off. A request that fails does
  nothing, or has taken a mount off and could not remove the file.
\<close>

inductive mount_step :: "(string \<Rightarrow> string \<Rightarrow> bool) \<Rightarrow> node_request \<Rightarrow> bool \<Rightarrow> mounts \<Rightarrow> mounts \<Rightarrow> bool"
  for touches where
  failed: "mount_step touches r False m m"
| stage_found: "m (stage_at q) \<noteq> [] \<Longrightarrow> mount_step touches (Stage q) True m m"
| stage_new: "m (stage_at q) = [] \<Longrightarrow> changed touches (stage_at q) [dev] m m' \<Longrightarrow> mount_step touches (Stage q) True m m'"
| publish_on: "changed touches (npv_TargetPath q) (Join (npv_StagingTargetPath q) (npv_VolumeId q) # m (npv_TargetPath q)) m m' \<Longrightarrow>
    mount_step touches (Publish q) True m m'"
| off_none: "takes_off r \<Longrightarrow> m (request_path r) = [] \<Longrightarrow> mount_step touches r True m m"
| off_one: "takes_off r \<Longrightarrow> m (request_path r) = [x] \<Longrightarrow> changed touches (request_path r) [] m m' \<Longrightarrow>
    mount_step touches r True m m'"
| off_failed: "takes_off r \<Longrightarrow> m (request_path r) = x # xs \<Longrightarrow> changed touches (request_path r) xs m m' \<Longrightarrow>
    mount_step touches r False m m'"

inductive mount_run :: "(string \<Rightarrow> string \<Rightarrow> bool) \<Rightarrow> (node_request \<times> bool) list \<Rightarrow> mounts \<Rightarrow> mounts \<Rightarrow> bool"
  for touches where
  run_nil: "mount_run touches [] m m"
| run_step: "mount_step touches r ok m m1 \<Longrightarrow> mount_run touches rs m1 m2 \<Longrightarrow> mount_run touches ((r, ok) # rs) m m2"

lemma off_step:
  assumes "takes_off r" "m' = m \<and> (ok \<longrightarrow> m (request_path r) = []) \<or>
    (\<exists>x xs. m (request_path r) = x # xs \<and> changed touches (request_path r) xs m m' \<and> (ok \<longrightarrow> xs = []))"
  shows "mount_step touches r ok m m'"
  using assms by (cases ok) (auto intro: mount_step.intros)

text \<open>A path that no request touches keeps its stack.\<close>

lemma mount_step_frame:
  "mount_step touches r ok m m' \<Longrightarrow> request_path r \<noteq> q \<Longrightarrow> \<not> touches (request_path r) q \<Longrightarrow> m' q = m q"
  by (induction rule: mount_step.induct) (auto simp: changed_def)

lemma mount_run_frame:
  assumes "mount_run touches rs m m'" "\<forall>r \<in> fst ` set rs. request_path r \<noteq> q \<and> \<not> touches (request_path r) q"
  shows "m' q = m q"
  using assms by (induction rule: mount_run.induct) (auto dest: mount_step_frame)

text \<open>A path at which nothing is published never has a second mount.\<close>

definition only_staged :: "(string \<Rightarrow> string \<Rightarrow> bool) \<Rightarrow> string \<Rightarrow> node_request \<Rightarrow> bool" where
  "only_staged touches p r \<longleftrightarrow> (request_path r = p \<and> (\<forall>q. r \<noteq> Publish q)) \<or> (request_path r \<noteq> p \<and> \<not> touches (request_path r) p)"

lemma mount_step_single:
  assumes "mount_step touches r ok m m'" "only_staged touches p r" "length (m p) \<le> 1"
  shows "length (m' p) \<le> 1"
proof (cases "request_path r = p")
  case True
  with assms show ?thesis by (cases rule: mount_step.cases) (auto simp: only_staged_def changed_def)
next
  case False
  with assms(2) mount_step_frame [OF assms(1)] assms(3) show ?thesis by (auto simp: only_staged_def)
qed

lemma mount_run_single:
  assumes "mount_run touches rs m m'" "\<forall>r \<in> fst ` set rs. only_staged touches p r" "length (m p) \<le> 1"
  shows "length (m' p) \<le> 1"
  using assms by (induction rule: mount_run.induct) (auto dest: mount_step_single)

section \<open>The handlers refine the specification\<close>

text \<open>
  A host on which mounting and unmounting at a path shows only at the paths it touches.
\<close>

locale node_host_frame = node_host +
  fixes touches :: "string \<Rightarrow> string \<Rightarrow> bool"
  assumes mount_frame: "run_state (he_Mount env src p fstype opts) w = (e, w') \<Longrightarrow> \<not> touches p q \<Longrightarrow> p \<noteq> q \<Longrightarrow> mnt w' q = mnt w q"
    and unmount_frame: "run_state (he_Unmount env p) w = (e, w') \<Longrightarrow> \<not> touches p q \<Longrightarrow> p \<noteq> q \<Longrightarrow> mnt w' q = mnt w q"
begin

abbreviation change :: "string \<Rightarrow> string list \<Rightarrow> 'a \<Rightarrow> 'a \<Rightarrow> bool" where
  "change p st w w' \<equiv> changed touches p st (mnt w) (mnt w')"

lemma mount_changed:
  "run_state (he_Mount env src p fstype opts) w = (None, w') \<Longrightarrow> change p (src # mnt w p) w w'"
  using mount [of src p fstype opts w None w'] mount_frame [of src p fstype opts w None w'] by (auto simp: changed_def)

lemma unmount_changed: "run_state (he_Unmount env p) w = (None, w') \<Longrightarrow> change p (tl (mnt w p)) w w'"
  using unmount [of p w None w'] unmount_frame [of p w None w'] by (auto simp: changed_def)

lemma deleteMountPoint_changed:
  assumes "run_state (deleteMountPoint env p) w = (e, w')"
  shows "mnt w' = mnt w \<and> (e = None \<longrightarrow> mnt w p = []) \<or>
    (\<exists>x xs. mnt w p = x # xs \<and> change p xs w w' \<and> (e = None \<longrightarrow> xs = []))"
proof -
  obtain b c v where c: "run_state (he_IsNotMountPoint env p) w = ((b, c), v)" by (metis prod.collapse)
  obtain m x where m: "run_state (he_Unmount env p) w = (m, x)" by (metis prod.collapse)
  consider "w' = w" "e = None \<longrightarrow> \<not> ex w p" | "m \<noteq> None" "w' = x" "e \<noteq> None"
    | "mnt w p = []" "run_state (remove_target env p) w = (e, w')"
    | "mnt w p \<noteq> []" "m = None" "run_state (remove_target env p) x = (e, w')"
    using assms check [OF c] by (auto simp: deleteMountPoint_def c m split: if_splits option.splits)
  then show ?thesis
  proof cases
    case 1
    then show ?thesis using mounted_ex [of w p] by auto
  next
    case 2
    then show ?thesis using unmount [OF m] by auto
  next
    case 3
    then show ?thesis using remove_target_run by blast
  next
    case 4
    then have "change p (tl (mnt w p)) w w'" using unmount_changed [of p w x] m remove_target_run by simp
    moreover have "e = None \<longrightarrow> length (mnt w p) \<le> 1" using path.deleteMountPoint_at(3) [OF assms] by blast
    ultimately show ?thesis using 4(1) by (cases "mnt w p") auto
  qed
qed

lemma Publish_step:
  assumes "run_state (NodePublishVolume_body env req) w = (r, w')"
  shows "mount_step touches (Publish req) (succeeded r) (mnt w) (mnt w')"
proof -
  let ?p = "npv_TargetPath req" and ?src = "Join (npv_StagingTargetPath req) (npv_VolumeId req)"
  obtain b e v where c: "run_state (createMountPoint env ?p) w = ((b, e), v)" by (metis prod.collapse)
  obtain m x where m: "run_state (he_Mount env ?src ?p [] [''bind'']) v = (m, x)" by (metis prod.collapse)
  have v: "mnt v = mnt w" using createMountPoint_run(1) [OF c] .
  consider "mnt w' = mnt w" "\<not> succeeded r" | "m = None" "w' = x" "succeeded r"
    using assms mount [OF m] v
    by (auto simp: NodePublishVolume_body_def c m split: option.splits if_splits)
  then show ?thesis
  proof cases
    case 1
    then show ?thesis by (simp add: mount_step.failed)
  next
    case 2
    with mount_changed [of ?src ?p "[]" "[''bind'']" v x] m v show ?thesis by (simp add: mount_step.publish_on)
  qed
qed

lemma Unpublish_step:
  assumes "run_state (NodeUnpublishVolume_body env req) w = (r, w')"
  shows "mount_step touches (Unpublish req) (succeeded r) (mnt w) (mnt w')"
proof -
  obtain e x where d: "run_state (deleteMountPoint env (nup_TargetPath req)) w = (e, x)" by (metis prod.collapse)
  then have "x = w'" "succeeded r \<longleftrightarrow> e = None"
    using assms by (auto simp: NodeUnpublishVolume_body_def split: option.splits)
  with deleteMountPoint_changed [OF d] show ?thesis by (intro off_step) auto
qed

lemma Unstage_step:
  assumes "run_state (NodeUnstageVolume_body env req) w = (r, w')"
  shows "mount_step touches (Unstage req) (succeeded r) (mnt w) (mnt w')"
proof -
  let ?p = "unstage_at req"
  obtain b c v where st: "run_state (isStaged env ?p) w = ((b, c), v)" by (metis prod.collapse)
  obtain e x where d: "run_state (deleteMountPoint env ?p) w = (e, x)" by (metis prod.collapse)
  consider "w' = w" "\<not> succeeded r" | "w' = w" "mnt w ?p = []" "succeeded r" | "x = w'" "succeeded r \<longleftrightarrow> e = None"
    using assms isStaged_run [OF st] d by (auto simp: NodeUnstageVolume_body_def st Let_def split: option.splits if_splits)
  then show ?thesis
  proof cases
    case 3
    with deleteMountPoint_changed [OF d] show ?thesis by (intro off_step) auto
  qed (auto intro: mount_step.intros)
qed

lemma Stage_step:
  assumes "run_state (NodeStageVolume_body env req) w = (r, w')"
  shows "mount_step touches (Stage req) (succeeded r) (mnt w) (mnt w')"
proof (cases "\<exists>err. r = Inl err")
  case True
  with assms NodeStage_body_failure_mnt show ?thesis by (auto intro: mount_step.failed)
next
  case False
  then have ok: "succeeded r" by (cases r) auto
  show ?thesis
  proof (cases "mnt w (stage_at req) = []")
    case True
    show ?thesis
    proof (rule NodeStage_body_success [OF True assms [unfolded ok]])
      fix dev assume "\<exists>v. mnt v = mnt w \<and> run_state (he_Mount env dev (stage_at req) [] [''bind'']) v = (None, w')"
      then have "change (stage_at req) [dev] w w'" using mount_changed True by fastforce
      with ok True show ?thesis by (simp add: mount_step.stage_new)
    qed
  next
    case staged: False
    with NodeStage_body_staged [OF staged assms] ok show ?thesis by (simp add: mount_step.stage_found)
  qed
qed

lemma node_handle_step:
  assumes "node_handle env r (vl, w) = Done (x, vl', w')"
  shows "mount_step touches r (succeeded x) (mnt w) (mnt w')"
proof (cases r)
  case (Stage req)
  with NodeStage_Done assms Stage_step show ?thesis by (fastforce intro: mount_step.failed)
next
  case (Unstage req)
  with assms Unstage_step show ?thesis by (auto simp: NodeUnstageVolume_def dest: with_lock_DoneD)
next
  case (Publish req)
  with assms Publish_step NodePublish_Done show ?thesis by fastforce
next
  case (Unpublish req)
  with assms Unpublish_step NodeUnpublish_Done show ?thesis by fastforce
qed

lemma node_serve_run:
  "node_serve env rs (vl, w) = Done (xs, vl', w') \<Longrightarrow> length xs = length rs \<and> mount_run touches (zip rs (map succeeded xs)) (mnt w) (mnt w')"
proof (induction rs arbitrary: vl w xs)
  case Nil
  then show ?case by (simp add: mount_run.run_nil)
next
  case (Cons r rs)
  from Cons.prems obtain x xs' vl1 w1 where r: "node_handle env r (vl, w) = Done (x, vl1, w1)"
    and rs: "node_serve env rs (vl1, w1) = Done (xs', vl', w')" and xs: "xs = x # xs'"
    by (auto split: run.splits)
  from Cons.IH [OF rs] mount_run.run_step [OF node_handle_step [OF r]] xs show ?case by simp
qed

end

lemma unmount_first_other:
  "p \<noteq> q \<Longrightarrow> filter (\<lambda>tm. fst tm = q) (unmount_first p ms) = filter (\<lambda>tm. fst tm = q) ms"
  by (induction p ms rule: unmount_first.induct) auto

interpretation mem_frame: node_host_frame mem_host hm_mnt hm_ex "(=)"
proof
  fix w w' p q e src fstype opts
  show "run_state (he_Mount mem_host src p fstype opts) w = (e, w') \<Longrightarrow> p \<noteq> q \<Longrightarrow> hm_mnt w' q = hm_mnt w q"
    by (auto simp: hm_defs hm_mnt_def split: if_splits)
  show "run_state (he_Unmount mem_host p) w = (e, w') \<Longrightarrow> p \<noteq> q \<Longrightarrow> hm_mnt w' q = hm_mnt w q"
    by (auto simp: hm_defs hm_mnt_def unmount_first_other split: if_splits)
qed

section \<open>Sequences of requests\<close>

lemma node_handle_returns:
  assumes "locks_inv vl" "\<forall>i. lock_free_at vl i"
  obtains x vl' w' where "node_handle env r (vl, w) = Done (x, vl', w')" "locks_inv vl'" "\<forall>i. lock_free_at vl' i"
proof -
  have "returns_unlocked vl (node_handle env r (vl, w))"
    using assms(1)
    by (cases r) (auto simp: NodeStageVolume_def NodeUnstageVolume_def NodePublishVolume_def NodeUnpublishVolume_def
        Let_def split: option.split prod.split intro: invar_intros)
  with that assms(2) show ?thesis by (cases "node_handle env r (vl, w)") (auto simp: returns_unlocked_def)
qed

lemma node_serve_returns:
  assumes "locks_inv vl" "\<forall>i. lock_free_at vl i"
  shows "\<exists>xs vl' w'. node_serve env rs (vl, w) = Done (xs, vl', w') \<and> locks_inv vl' \<and> (\<forall>i. lock_free_at vl' i)"
  using assms
proof (induction rs arbitrary: vl w)
  case (Cons r rs)
  obtain x vl1 w1 where r: "node_handle env r (vl, w) = Done (x, vl1, w1)" "locks_inv vl1" "\<forall>i. lock_free_at vl1 i"
    by (rule node_handle_returns [OF Cons.prems])
  from Cons.IH [OF r(2,3), of w1] r(1) show ?case by auto
qed simp

text \<open>
  C4. The node service implements the specification of mounts: any sequence of requests, with all locks
  free at the start, is served to the end, each request getting its answer, with all locks free again;
  and the stacks of mounts go through a run of \<open>mount_step\<close> in which exactly the requests that were
  answered with success succeed.
\<close>

theorem node_requests_refine_mounts:
  assumes host: "node_host_frame env mnt ex touches" and locks: "locks_inv vl" "\<forall>i. lock_free_at vl i"
  shows "\<exists>xs vl' w'. node_serve env rs (vl, w) = Done (xs, vl', w') \<and> length xs = length rs \<and>
    mount_run touches (zip rs (map succeeded xs)) (mnt w) (mnt w') \<and> locks_inv vl' \<and> (\<forall>i. lock_free_at vl' i)"
  using node_serve_returns [OF locks, of env rs w] node_host_frame.node_serve_run [OF host] by blast

definition demo_requests :: "node_request list" where
  "demo_requests = [Stage demo_stage, Publish demo_publish]"

text \<open>The demo requests are served with success.\<close>

lemma demo_served:
  obtains vl' where "node_serve mem_host demo_requests (NewVolumeLocks, demo_host) = Done ([Inr (), Inr ()], vl', demo_published)"
proof -
  obtain vl1 where "NodeStageVolume mem_host demo_stage (NewVolumeLocks, demo_host) = Done (Inr (), vl1, demo_staged)"
    and vl1: "locks_inv vl1" "lock_free_at vl1 = lock_free_at NewVolumeLocks" using demo_stage_runs [of NewVolumeLocks] by auto
  moreover obtain vl2 where "NodePublishVolume mem_host demo_publish (vl1, demo_staged) = Done (Inr (), vl2, demo_published)"
    using demo_publish_runs [OF vl1] by blast
  ultimately show ?thesis using that by (simp add: demo_requests_def)
qed

theorem node_requests_refine_mounts_witness:
  "mount_run (=) [(Stage demo_stage, True), (Publish demo_publish, True)] (hm_mnt demo_host) (hm_mnt demo_published)"
proof -
  obtain vl' where run: "node_serve mem_host demo_requests (NewVolumeLocks, demo_host) = Done ([Inr (), Inr ()], vl', demo_published)"
    by (rule demo_served)
  with node_requests_refine_mounts [OF mem_frame.node_host_frame_axioms, of NewVolumeLocks demo_requests demo_host]
  show ?thesis by (simp add: demo_requests_def)
qed

text \<open>
  C5. A staging path never carries a second mount: over every sequence of requests, as long as nothing is
  published at a path that touches it, a staging path that had at most one mount has at most one
  mount, however often and in whatever order the volume is staged and unstaged, with success or not.
\<close>

theorem staging_never_stacked:
  assumes host: "node_host_frame env mnt ex touches"
    and run: "node_serve env rs (vl, w) = Done (xs, vl', w')"
    and only: "\<forall>r \<in> set rs. only_staged touches p r" and one: "length (mnt w p) \<le> 1"
  shows "length (mnt w' p) \<le> 1"
proof -
  note refined = node_host_frame.node_serve_run [OF host run]
  have "\<forall>r \<in> fst ` set (zip rs (map succeeded xs)). only_staged touches p r"
    using only by (auto dest: set_zip_leftD)
  with mount_run_single refined one show ?thesis by blast
qed

theorem staging_never_stacked_witness:
  "\<exists>xs vl' w'. node_serve mem_host demo_requests (NewVolumeLocks, demo_host) = Done (xs, vl', w') \<and>
     length (hm_mnt w' ''/staging/vol1'') \<le> 1"
proof -
  obtain vl' where run: "node_serve mem_host demo_requests (NewVolumeLocks, demo_host) = Done ([Inr (), Inr ()], vl', demo_published)"
    by (rule demo_served)
  have "\<forall>r \<in> set demo_requests. only_staged (=) ''/staging/vol1'' r" "length (hm_mnt demo_host ''/staging/vol1'') \<le> 1"
    by (simp_all add: demo_requests_def only_staged_def demo_stage_def demo_publish_def staging_path_def hm_mnt_def demo_host_def)
  with staging_never_stacked [OF mem_frame.node_host_frame_axioms run] run show ?thesis by blast
qed

text \<open>
  C6. Requests do not disturb one another's paths: over every sequence of requests, failed ones included,
  a path that is not, and is not touched by, a staging or target path of one of the requests has at the
  end exactly the mounts it had at the start.
\<close>

theorem other_paths_keep_mounts:
  assumes host: "node_host_frame env mnt ex touches"
    and run: "node_serve env rs (vl, w) = Done (xs, vl', w')"
    and other: "\<forall>r \<in> set rs. request_path r \<noteq> q \<and> \<not> touches (request_path r) q"
  shows "mnt w' q = mnt w q"
proof -
  note refined = node_host_frame.node_serve_run [OF host run]
  have "\<forall>r \<in> fst ` set (zip rs (map succeeded xs)). request_path r \<noteq> q \<and> \<not> touches (request_path r) q"
    using other by (auto dest: set_zip_leftD)
  with mount_run_frame refined show ?thesis by blast
qed

theorem other_paths_keep_mounts_witness:
  "\<exists>xs vl' w'. node_serve mem_host demo_requests (NewVolumeLocks, demo_host) = Done (xs, vl', w') \<and>
     hm_mnt w' ''/pods/p2'' = hm_mnt demo_host ''/pods/p2''"
proof -
  obtain vl' where run: "node_serve mem_host demo_requests (NewVolumeLocks, demo_host) = Done ([Inr (), Inr ()], vl', demo_published)"
    by (rule demo_served)
  have "\<forall>r \<in> set demo_requests. request_path r \<noteq> ''/pods/p2'' \<and> \<not> request_path r = ''/pods/p2''"
    by (simp add: demo_requests_def demo_stage_def demo_publish_def staging_path_def)
  with other_paths_keep_mounts [OF mem_frame.node_host_frame_axioms run] run show ?thesis by blast
qed

end
