(* ===== verification/Volume_Life.thy ===== *)
theory Volume_Life
  imports Gateway_Contract Mount_Refinement
begin

text \<open>
  The life of a volume over both services: the controller works on the gateway, the node on its host,
  each with locks of its own, and the CSI client carries the volume ID, the volume context and the
  publish context from one to the other.
\<close>

section \<open>Staging file and bind source\<close>

text \<open>
  \<open>NodeStageVolume\<close> concatenates the staging path and the volume ID, \<open>NodePublishVolume\<close> joins them; for an ID
  without a slash and a clean staging path both mean the same file.
\<close>

lemma volume_id_plain:
  assumes "created_volume req nsid = Inr vol0" "CHR ''/'' \<notin> set (VolumeId vol0)"
  shows "plain_name (VolumeId vol0)"
proof -
  have e: "encodeVolumeID \<lparr>NSID = nsid, NQN = param req ''SubsystemNqn'', VolumeName = cvr_Name req\<rparr> = Inr (VolumeId vol0)"
    using assms(1) by (auto simp: created_volume_def namespace_add_req_def split: sum.splits)
  from encodeVolumeID_not_empty [OF e] encodeVolumeID_no_dot [OF e] assms(2) show ?thesis
    by (auto simp: plain_name_def)
qed

section \<open>The node part\<close>

lemma node_serve_two:
  assumes "node_serve env [r1, r2] (vl, w) = Done ([Inr (), Inr ()], vl', w')"
  obtains vl1 w1 where "node_handle env r1 (vl, w) = Done (Inr (), vl1, w1)" "node_handle env r2 (vl1, w1) = Done (Inr (), vl', w')"
  using assms by (auto split: run.splits prod.splits)

context node_host_frame
begin

text \<open>Staging and publishing, then unpublishing and unstaging, on a staging path and a target path that are apart.\<close>

lemma staged_and_published:
  assumes "node_serve env [Stage sreq, Publish preq] (vl, w) = Done ([Inr (), Inr ()], vl', w')"
    and "mnt w (stage_at sreq) = []"
    and apart: "npv_TargetPath preq \<noteq> stage_at sreq" "\<not> touches (npv_TargetPath preq) (stage_at sreq)"
      "\<not> touches (stage_at sreq) (npv_TargetPath preq)"
  obtains i dev w1 where "NewNvmeofCsiInitiator (nsv_PublishContext sreq) = Inr i" "run_state (Connect env i) w = (Inr dev, w1)"
    "mnt w' (stage_at sreq) = [dev]"
    "mnt w' (npv_TargetPath preq) = Join (npv_StagingTargetPath preq) (npv_VolumeId preq) # mnt w (npv_TargetPath preq)"
proof (rule node_serve_two [OF assms(1)])
  fix vl1 w1
  assume s: "node_handle env (Stage sreq) (vl, w) = Done (Inr (), vl1, w1)"
    and p: "node_handle env (Publish preq) (vl1, w1) = Done (Inr (), vl', w')"
  have body: "run_state (NodeStageVolume_body env sreq) w = (Inr (), w1)" using NodeStage_Done [of sreq vl w] s by auto
  have pub: "mnt w' (npv_TargetPath preq) = Join (npv_StagingTargetPath preq) (npv_VolumeId preq) # mnt w1 (npv_TargetPath preq)"
    using NodePublish_body_success [OF NodePublish_Done] p by simp
  have same: "mnt w1 (npv_TargetPath preq) = mnt w (npv_TargetPath preq)" "mnt w' (stage_at sreq) = mnt w1 (stage_at sreq)"
    using mount_step_frame [OF node_handle_step [OF s]] mount_step_frame [OF node_handle_step [OF p]] apart by simp_all
  show ?thesis
    by (rule NodeStage_body_success [OF assms(2) body], rule that) (use pub same in simp_all)
qed

lemma unpublished_and_unstaged:
  assumes "node_serve env [Unpublish pureq, Unstage sureq] (vl, w) = Done ([Inr (), Inr ()], vl', w')"
    and apart: "nup_TargetPath pureq \<noteq> unstage_at sureq" "\<not> touches (nup_TargetPath pureq) (unstage_at sureq)"
      "\<not> touches (unstage_at sureq) (nup_TargetPath pureq)"
  shows "mnt w' (nup_TargetPath pureq) = []" "mnt w' (unstage_at sureq) = []" "length (mnt w (nup_TargetPath pureq)) \<le> 1"
proof -
  obtain vl1 w1 where u: "node_handle env (Unpublish pureq) (vl, w) = Done (Inr (), vl1, w1)"
    and s: "node_handle env (Unstage sureq) (vl1, w1) = Done (Inr (), vl', w')" by (rule node_serve_two [OF assms(1)])
  have "run_state (NodeUnpublishVolume_body env pureq) w = (Inr (), w1)" using u NodeUnpublish_Done by simp
  note unpub = NodeUnpublish_body_success [OF this]
  have "run_state (NodeUnstageVolume_body env sureq) w1 = (Inr (), w')"
    using s by (auto simp: NodeUnstageVolume_def dest: with_lock_DoneD)
  from NodeUnstage_body_success(1) [OF this] show "mnt w' (unstage_at sureq) = []" .
  have "mnt w' (nup_TargetPath pureq) = mnt w1 (nup_TargetPath pureq)"
    using mount_step_frame [OF node_handle_step [OF s]] apart by simp
  with unpub show "mnt w' (nup_TargetPath pureq) = []" "length (mnt w (nup_TargetPath pureq)) \<le> 1" by simp_all
qed

end

section \<open>From creation to deletion\<close>

text \<open>
  C1. The life of a volume. A volume is created for an image that no namespace of the subsystem has, is
  published by the controller, staged and published by a node with the contexts it was given, later
  unpublished, unstaged and deleted, each with success; while it is in use the target keeps its mount,
  and the gateway and the host may change otherwise. Then there is a namespace, the one the creation added, such that the
  node connected to the transport, address, port, subsystem and UUID of it; while published, the
  device the node found is what is mounted at the staging file, and the staging file is what is
  mounted at the target; and at the end the namespace and both mounts are gone again, and the staging and the
  target path have the mounts they had before.
\<close>

theorem volume_life:
  assumes gw: "gateway (cs_gatewayClient cs) nss I" and host: "node_host_frame env mnt ex touches"
    and inv: "I g" "I g3" and locks: "locks_inv vl"
    and params: "cvr_Parameters req = Some params" "go_map_ok params" "map_of params ''nqn'' = None" "map_of params ''image'' = None"
    and utf8: "valid_utf8 (cvr_Name req)" "valid_utf8 (go_index params ''SubsystemNqn'')"
    and fresh: "\<forall>k n. nss g (go_index params ''SubsystemNqn'', k) = Some n \<longrightarrow> nc_RbdImageName n \<noteq> cvr_Name req"
    and create: "CreateVolume cs req (vl, g) = Done (Inr vol, vl1, g1)"
    and controller: "run_state (ControllerPublishVolume cs
        \<lparr>cpr_VolumeId = VolumeId vol, cpr_NodeId = node, cpr_VolumeContext = VolumeContext vol\<rparr>) g1 = (Inr pc, g2)"
    and paths: "Clean staging = staging" "HasPrefix staging ''/''" "staging \<noteq> ''/''" "CHR ''/'' \<notin> set (VolumeId vol)"
    and apart: "target \<noteq> staging_path staging (VolumeId vol)" "\<not> touches target (staging_path staging (VolumeId vol))"
      "\<not> touches (staging_path staging (VolumeId vol)) target"
    and unstaged: "mnt h (staging_path staging (VolumeId vol)) = []"
    and up: "node_serve env
        [Stage \<lparr>nsv_VolumeId = VolumeId vol, nsv_PublishContext = Some pc, nsv_StagingTargetPath = staging, nsv_VolumeCapability = cap\<rparr>,
         Publish \<lparr>npv_VolumeId = VolumeId vol, npv_StagingTargetPath = staging, npv_TargetPath = target, npv_VolumeCapability = cap\<rparr>]
        (nl, h) = Done ([Inr (), Inr ()], nl1, h1)"
    and used: "mnt h2 target = mnt h1 target"
    and down: "node_serve env
        [Unpublish \<lparr>nup_VolumeId = VolumeId vol, nup_TargetPath = target\<rparr>,
         Unstage \<lparr>nuv_VolumeId = VolumeId vol, nuv_StagingTargetPath = staging\<rparr>]
        (nl2, h2) = Done ([Inr (), Inr ()], nl3, h3)"
    and delete: "DeleteVolume cs \<lparr>dvr_VolumeId = VolumeId vol\<rparr> (vl2, g3) = Done (Inr (), vl3, g4)"
  shows "\<exists>nsid ns i dev h'.
    nss g (go_index params ''SubsystemNqn'', nsid) = None \<and>
    nss g2 = (nss g)((go_index params ''SubsystemNqn'', nsid) \<mapsto> ns) \<and> nc_RbdImageName ns = cvr_Name req \<and>
    i = \<lparr>targetType = go_index params ''transport'', targetAddr = go_index params ''traddr'',
      targetPort = go_index params ''trsvcid'', ini_nqn = go_index params ''SubsystemNqn'', ini_uuid = nc_Uuid ns\<rparr> \<and>
    run_state (Connect env i) h = (Inr dev, h') \<and>
    mnt h1 (staging_path staging (VolumeId vol)) = [dev] \<and> mnt h1 target = [staging_path staging (VolumeId vol)] \<and>
    nss g4 = (nss g3)((go_index params ''SubsystemNqn'', nsid) := None) \<and>
    mnt h3 (staging_path staging (VolumeId vol)) = mnt h (staging_path staging (VolumeId vol)) \<and> mnt h3 target = mnt h target"
proof -
  let ?nqn = "go_index params ''SubsystemNqn''" and ?S = "staging_path staging (VolumeId vol)"
  have nqn: "param req k = go_index params k" for k using params(1) by simp
  obtain nsid ns vol0 where vol0: "created_volume req nsid = Inr vol0" "vol = add_parameters req vol0"
    and ns: "nss g (?nqn, nsid) = None" "nss g1 = (nss g)((?nqn, nsid) \<mapsto> ns)"
      "nc_RbdPoolName ns = go_index params ''RbdPoolName''" "nc_RbdImageName ns = cvr_Name req" "nc_Uuid ns \<noteq> []"
    and g1: "I g1"
    by (rule gateway.CreateVolume_adds [OF gw locks create refl inv(1), unfolded nqn])
  obtain ctx where ctx: "VolumeContext vol = Some ctx" "go_index ctx ''nqn'' = ?nqn" "go_index ctx ''image'' = cvr_Name req"
    "go_index ctx ''traddr'' = go_index params ''traddr''" "go_index ctx ''trsvcid'' = go_index params ''trsvcid''"
    "go_index ctx ''transport'' = go_index params ''transport''"
    by (rule created_context_look [OF vol0 params])
  have listed: "nss g1 (?nqn, nsid) = Some ns" using ns(2) by simp
  have only: "k = nsid" if "nss g1 (?nqn, k) = Some n" "nc_RbdImageName n = cvr_Name req" for k n
    using that ns(2) fresh by (cases "k = nsid") auto
  note finds = gateway.ControllerPublish_finds [OF gw controller refl g1, where nsid = nsid and ns = ns,
      simplified ControllerPublishVolumeRequest.simps ctx go_index_simps(3), OF listed ns(4)]
  have pc: "pc = [(''uuid'', nc_Uuid ns), (''nqn'', ?nqn), (''traddr'', go_index params ''traddr''),
      (''trsvcid'', go_index params ''trsvcid''), (''transport'', go_index params ''transport'')]"
    by (rule finds(1)) (rule only)
  have g2: "nss g2 = nss g1" by (rule finds(2)) (rule only)
  obtain i dev h' where i: "NewNvmeofCsiInitiator (Some pc) = Inr i" "run_state (Connect env i) h = (Inr dev, h')"
    and up': "mnt h1 ?S = [dev]" "mnt h1 target = Join staging (VolumeId vol) # mnt h target"
    by (rule node_host_frame.staged_and_published [OF host up]) (use unstaged apart in simp_all)
  have "plain_name (VolumeId vol)" using volume_id_plain [OF vol0(1)] paths(4) by (simp add: vol0(2))
  with Join_plain [OF paths(1-3)] have J: "Join staging (VolumeId vol) = ?S" by (simp add: staging_path_def)
  note down' = node_host_frame.unpublished_and_unstaged [OF host down, simplified, OF apart]
  have empty: "mnt h target = []" using down'(3) used up'(2) by simp
  have "nss g4 = (nss g3)((?nqn, nsid) := None)"
    using gateway.DeleteVolume_deletes(2) [OF gw vol0(1) _ _ delete [unfolded vol0(2)] refl inv(2)] utf8 by (simp add: nqn)
  moreover have "i = \<lparr>targetType = go_index params ''transport'', targetAddr = go_index params ''traddr'',
      targetPort = go_index params ''trsvcid'', ini_nqn = ?nqn, ini_uuid = nc_Uuid ns\<rparr>"
    using i(1) by (auto simp: NewNvmeofCsiInitiator_def pc split: if_splits)
  ultimately show ?thesis
    using ns g2 i(2) up' J down' empty unstaged by (intro exI [of _ nsid] exI [of _ ns] exI [of _ i] exI [of _ dev] exI [of _ h']) simp
qed

text \<open>The demo volume on the gateway and the host in memory.\<close>

definition life_id :: string where
  "life_id = ''eyJuc2lkIjo3LCJucW4iOiJucW4uMSIsInZvbHVtZV9uYW1lIjoicHZjLTEifQ==''"

definition life_context :: "string go_map" where
  "life_context = [(''uuid'', ''uuid-7''), (''nqn'', ''nqn.1''), (''traddr'', ''10.0.0.1''), (''trsvcid'', ''4420''),
     (''transport'', ''TCP'')]"

abbreviation life_cap :: "VolumeCapability option" where
  "life_cap \<equiv> Some \<lparr>vcap_AccessType = Some AccessBlock, vcap_AccessMode = None\<rparr>"

definition life_stage :: NodeStageVolumeRequest where
  "life_stage = \<lparr>nsv_VolumeId = life_id, nsv_PublishContext = Some life_context, nsv_StagingTargetPath = ''/staging'',
     nsv_VolumeCapability = life_cap\<rparr>"

definition life_publish :: NodePublishVolumeRequest where
  "life_publish = \<lparr>npv_VolumeId = life_id, npv_StagingTargetPath = ''/staging'', npv_TargetPath = ''/pods/p1'',
     npv_VolumeCapability = life_cap\<rparr>"

definition life_unpublish :: NodeUnpublishVolumeRequest where
  "life_unpublish = \<lparr>nup_VolumeId = life_id, nup_TargetPath = ''/pods/p1''\<rparr>"

definition life_unstage :: NodeUnstageVolumeRequest where
  "life_unstage = \<lparr>nuv_VolumeId = life_id, nuv_StagingTargetPath = ''/staging''\<rparr>"

definition life_host :: host_mem where
  "life_host = demo_host\<lparr>hm_subsystems := [(''nqn.1'', ''uuid-7'')]\<rparr>"

lemma life_id_encoded: "encodeVolumeID \<lparr>NSID = 7, NQN = ''nqn.1'', VolumeName = ''pvc-1''\<rparr> = Inr life_id"
  by code_simp

text \<open>The demo volume is created with that ID, published with that context, used on the node and deleted.\<close>

lemma demo_volume_id:
  assumes "created_volume demo_request 7 = Inr vol0"
  shows "VolumeId (add_parameters demo_request vol0) = life_id"
proof -
  have "encodeVolumeID \<lparr>NSID = 7, NQN = ''nqn.1'', VolumeName = ''pvc-1''\<rparr> = Inr (VolumeId vol0)"
    using assms by (auto simp: created_volume_def namespace_add_req_def split: sum.splits)
  with life_id_encoded show ?thesis by simp
qed

lemma demo_controller_publish:
  assumes "created_volume demo_request 7 = Inr vol0" "vol = add_parameters demo_request vol0"
  shows "run_state (ControllerPublishVolume demo_controller
      \<lparr>cpr_VolumeId = i, cpr_NodeId = node, cpr_VolumeContext = VolumeContext vol\<rparr>)
      (snd (mem_add (namespace_add_req demo_request) demo_gateway)) =
    (Inr life_context, snd (mem_add (namespace_add_req demo_request) demo_gateway))"
proof -
  have keys: "map_of demo_params ''nqn'' = None" "map_of demo_params ''image'' = None"
    "go_index demo_params ''transport'' = ''TCP''" "go_index demo_params ''traddr'' = ''10.0.0.1''"
    "go_index demo_params ''trsvcid'' = ''4420''" by (simp_all add: demo_params_def)
  obtain ctx where ctx: "VolumeContext vol = Some ctx" "go_index ctx ''nqn'' = ''nqn.1''" "go_index ctx ''image'' = ''pvc-1''"
    "go_index ctx ''traddr'' = ''10.0.0.1''" "go_index ctx ''trsvcid'' = ''4420''" "go_index ctx ''transport'' = ''TCP''"
    using created_context_look [OF assms, of demo_params] keys by auto
  have "dec_of_nat 7 = ''7''" by code_simp
  with ctx show ?thesis
    by (simp add: ControllerPublishVolume_def run_simps mem_list_def mem_add_def mem_namespace_def namespace_add_req_def
        demo_gateway_def life_context_def getter_defs Let_def)
qed

lemma node_serve_fresh:
  assumes "locks_inv vl" "lock_free_at vl = lock_free_at NewVolumeLocks"
    and "fst (run_state (node_body env r1) w) = Inr ()" "run_state (node_body env r2) (snd (run_state (node_body env r1) w)) = (Inr (), w')"
  obtains vl' where "node_serve env [r1, r2] (vl, w) = Done ([Inr (), Inr ()], vl', w')" "locks_inv vl'"
    "lock_free_at vl' = lock_free_at NewVolumeLocks"
proof -
  let ?w1 = "snd (run_state (node_body env r1) w)"
  have "run_state (node_body env r1) w = (Inr (), ?w1)" using assms(3) by (metis prod.collapse)
  then obtain vl1 where vl1: "node_handle env r1 (vl, w) = Done (Inr (), vl1, ?w1)" "locks_inv vl1"
    "lock_free_at vl1 = lock_free_at NewVolumeLocks" by (rule node_handle_fresh [OF assms(1,2)])
  obtain vl' where "node_handle env r2 (vl1, ?w1) = Done (Inr (), vl', w')" "locks_inv vl'"
    "lock_free_at vl' = lock_free_at NewVolumeLocks" by (rule node_handle_fresh [OF vl1(2,3) assms(4)])
  with vl1(1) that show ?thesis by simp
qed

definition life_published :: host_mem where
  "life_published = life_host\<lparr>hm_paths := [''/pods/p1'', ''/pods'', ''/staging/'' @ life_id, ''/staging''],
     hm_mounts := [(''/pods/p1'', ''/staging/'' @ life_id), (''/staging/'' @ life_id, ''/dev/disk/by-id/nvme-uuid.uuid-7'')],
     hm_connected := [''nqn.1'']\<rparr>"

definition life_over :: host_mem where
  "life_over = snd (run_state (node_body mem_host (Unstage life_unstage))
     (snd (run_state (node_body mem_host (Unpublish life_unpublish)) life_published)))"

lemma life_bodies:
  "fst (run_state (node_body mem_host (Stage life_stage)) life_host) = Inr ()"
  "run_state (node_body mem_host (Publish life_publish)) (snd (run_state (node_body mem_host (Stage life_stage)) life_host)) = (Inr (), life_published)"
  "fst (run_state (node_body mem_host (Unpublish life_unpublish)) life_published) = Inr ()"
  "run_state (node_body mem_host (Unstage life_unstage))
    (snd (run_state (node_body mem_host (Unpublish life_unpublish)) life_published)) = (Inr (), life_over)"
  by code_simp+

lemma life_served:
  obtains nl1 nl3 where
    "node_serve mem_host [Stage life_stage, Publish life_publish] (NewVolumeLocks, life_host) = Done ([Inr (), Inr ()], nl1, life_published)"
    "node_serve mem_host [Unpublish life_unpublish, Unstage life_unstage] (nl1, life_published) = Done ([Inr (), Inr ()], nl3, life_over)"
proof -
  have "locks_inv NewVolumeLocks" by simp
  from node_serve_fresh [OF this refl life_bodies(1,2)] obtain nl1 where
    up: "node_serve mem_host [Stage life_stage, Publish life_publish] (NewVolumeLocks, life_host) = Done ([Inr (), Inr ()], nl1, life_published)"
    and nl1: "locks_inv nl1" "lock_free_at nl1 = lock_free_at NewVolumeLocks" by blast
  from node_serve_fresh [OF nl1 life_bodies(3,4)] up that show ?thesis by blast
qed

theorem volume_life_witness:
  "\<exists>vol vl1 g1 nl1 h1 nl3 h3 vl3 g4.
     CreateVolume demo_controller demo_request (NewVolumeLocks, demo_gateway) = Done (Inr vol, vl1, g1) \<and>
     VolumeId (vol :: unit Volume) = life_id \<and>
     run_state (ControllerPublishVolume demo_controller
       \<lparr>cpr_VolumeId = life_id, cpr_NodeId = ''node-1'', cpr_VolumeContext = VolumeContext vol\<rparr>) g1 = (Inr life_context, g1) \<and>
     node_serve mem_host [Stage life_stage, Publish life_publish] (NewVolumeLocks, life_host) = Done ([Inr (), Inr ()], nl1, h1) \<and>
     hm_mnt h1 ''/pods/p1'' = [''/staging/'' @ life_id] \<and>
     node_serve mem_host [Unpublish life_unpublish, Unstage life_unstage] (nl1, h1) = Done ([Inr (), Inr ()], nl3, h3) \<and>
     hm_mnt h3 ''/pods/p1'' = [] \<and>
     DeleteVolume demo_controller \<lparr>dvr_VolumeId = life_id\<rparr> (vl1, g1) = Done (Inr (), vl3, g4)"
proof -
  let ?g1 = "snd (mem_add (namespace_add_req demo_request) demo_gateway)" and ?g4 = "demo_gateway\<lparr>gm_next := 8\<rparr>"
  obtain vol :: "unit Volume" and vl1 vl3 where
    c: "CreateVolume demo_controller demo_request (NewVolumeLocks, demo_gateway) = Done (Inr vol, vl1, ?g1)"
    and d: "DeleteVolume demo_controller \<lparr>dvr_VolumeId = VolumeId vol\<rparr> (vl1, ?g1) = Done (Inr (), vl3, ?g4)"
    and "\<exists>vol0. created_volume demo_request 7 = Inr vol0 \<and> vol = add_parameters demo_request vol0"
    by (rule demo_life)
  then obtain vol0 where vol0: "created_volume demo_request 7 = Inr vol0" "vol = add_parameters demo_request vol0" by blast
  have id: "VolumeId vol = life_id" using demo_volume_id vol0 by simp
  note p = demo_controller_publish [OF vol0, of "VolumeId vol" "''node-1''"]
  obtain nl1 nl3 where
    up: "node_serve mem_host [Stage life_stage, Publish life_publish] (NewVolumeLocks, life_host) = Done ([Inr (), Inr ()], nl1, life_published)"
    and down: "node_serve mem_host [Unpublish life_unpublish, Unstage life_unstage] (nl1, life_published) = Done ([Inr (), Inr ()], nl3, life_over)"
    by (rule life_served)
  have gw: "gateway (cs_gatewayClient demo_controller) mem_nss mem_inv" using mem_gw.gateway_axioms by simp
  have inv: "mem_inv demo_gateway" "mem_inv ?g1" by (simp_all add: mem_inv_def mem_add_def demo_gateway_def)
  have no: "mem_nss demo_gateway k = None" for k by (simp add: mem_nss_def demo_gateway_def)
  have path: "Clean ''/staging'' = ''/staging''" "HasPrefix ''/staging'' ''/''" "''/staging'' \<noteq> ''/''" "CHR ''/'' \<notin> set life_id"
    "''/pods/p1'' \<noteq> staging_path ''/staging'' life_id" "staging_path ''/staging'' life_id \<noteq> ''/pods/p1''"
    "hm_mnt life_host (staging_path ''/staging'' life_id) = []" "hm_mnt life_host ''/pods/p1'' = []" by code_simp+
  have params: "cvr_Parameters demo_request = Some demo_params" "go_map_ok demo_params" "map_of demo_params ''nqn'' = None"
    "map_of demo_params ''image'' = None" "valid_utf8 (cvr_Name demo_request)" "valid_utf8 (go_index demo_params ''SubsystemNqn'')"
    "\<forall>k n. mem_nss demo_gateway (go_index demo_params ''SubsystemNqn'', k) = Some n \<longrightarrow> nc_RbdImageName n \<noteq> cvr_Name demo_request"
    by (simp_all add: valid_utf8_ascii no) (simp_all add: demo_params_def)
  have "hm_mnt life_published ''/pods/p1'' = [''/staging/'' @ life_id] \<and> hm_mnt life_over ''/pods/p1'' = []"
    using volume_life [OF gw mem_frame.node_host_frame_axioms inv NewVolumeLocks_inv params c p path(1-3) path(4,5,5,6,7) [folded id]
        up [unfolded life_stage_def life_publish_def, folded id] refl down [unfolded life_unpublish_def life_unstage_def, folded id] d]
      id path(8) by (auto simp: staging_path_def)
  with c d p up down id show ?thesis by auto
qed

end
