(* ===== verification/Interference.thy ===== *)
theory Interference
  imports Mount_Refinement
begin

text \<open>
  Handlers of different volumes run at the same time: a volume's lock keeps out only the handlers of that
  volume. Here a handler runs while others act on the host between any two of its calls. What it relies
  on is that the others leave its mount point alone, and what it guarantees is which calls it makes; the
  guarantees of handlers on other paths give what a handler relies on.
\<close>

section \<open>A host that others use\<close>

text \<open>
  \<open>others k\<close> is what the other goroutines have done to the host when the handler makes its call number \<open>k\<close>:
  one call or many, or nothing.
\<close>

definition disturb :: "(nat \<Rightarrow> 'w \<Rightarrow> 'w) \<Rightarrow> ('w, 'a) action \<Rightarrow> ('w \<times> nat, 'a) action" where
  "disturb others act = State (\<lambda>(w, k). let (x, w') = run_state act (others k w) in (x, w', Suc k))"

definition disturbed :: "(nat \<Rightarrow> 'w \<Rightarrow> 'w) \<Rightarrow> 'w host_env \<Rightarrow> ('w \<times> nat) host_env" where
  "disturbed others env =
     \<lparr>he_IsNotMountPoint = (\<lambda>p. disturb others (he_IsNotMountPoint env p)),
      he_Mount = (\<lambda>src p fstype opts. disturb others (he_Mount env src p fstype opts)),
      he_Unmount = (\<lambda>p. disturb others (he_Unmount env p)),
      he_Stat = (\<lambda>p. disturb others (he_Stat env p)),
      he_MkdirAll = (\<lambda>p. disturb others (he_MkdirAll env p)),
      he_Create = (\<lambda>p. disturb others (he_Create env p)),
      he_Remove = (\<lambda>p. disturb others (he_Remove env p)),
      he_ReadFile = (\<lambda>p. disturb others (he_ReadFile env p)),
      he_WriteFile = (\<lambda>p s. disturb others (he_WriteFile env p s)),
      he_OpenAppend = (\<lambda>p. disturb others (he_OpenAppend env p)),
      he_WriteString = (\<lambda>p s. disturb others (he_WriteString env p s)),
      he_ReadDir = (\<lambda>d. disturb others (he_ReadDir env d)),
      he_Getenv = (\<lambda>v. disturb others (he_Getenv env v)),
      he_Glob = (\<lambda>g. disturb others (he_Glob env g)),
      he_CombinedOutput = (\<lambda>cmd n. disturb others (he_CombinedOutput env cmd n)),
      he_Sleep = (\<lambda>n. disturb others (he_Sleep env n))\<rparr>"

lemma run_disturb:
  "run_state (disturb others act) s = (x, s') \<longleftrightarrow> run_state act (others (snd s) (fst s)) = (x, fst s') \<and> snd s' = Suc (snd s)"
  by (cases s; cases s') (auto simp: disturb_def case_prod_beta Let_def prod_eq_iff)

text \<open>What a handler relies on: the others change neither the mounts of its path nor whether it exists.\<close>

locale disturbed_host = node_host +
  fixes others :: "nat \<Rightarrow> 'a \<Rightarrow> 'a" and own :: string
  assumes rely_mnt: "mnt (others k w) own = mnt w own"
    and rely_ex: "ex (others k w) own = ex w own"

sublocale disturbed_host \<subseteq> shared: node_path "disturbed others env" "\<lambda>s. mnt (fst s)" "\<lambda>s. ex (fst s)" own
proof
  fix s s' :: "'a \<times> nat" and q e b src fstype opts
  show "mnt (fst s) own \<noteq> [] \<Longrightarrow> ex (fst s) own" by (rule mounted_ex)
  show "mnt (fst s') own = mnt (fst s) own \<and> ex (fst s') own = ex (fst s) own \<and>
      (q = own \<longrightarrow> (os_IsNotExist e \<longleftrightarrow> \<not> ex (fst s) own) \<and> (e = None \<longrightarrow> b = (mnt (fst s) own = [])))"
    if "run_state (he_IsNotMountPoint (disturbed others env) q) s = ((b, e), s')"
    using that path.check_at [of q "others (snd s) (fst s)" b e "fst s'" own] by (simp add: disturbed_def run_disturb rely_mnt rely_ex)
  show "mnt (fst s') own = mnt (fst s) own" if "run_state (he_Stat (disturbed others env) q) s = (e, s')"
    using that path.stat_at [of q "others (snd s) (fst s)" e "fst s'" own] by (simp add: disturbed_def run_disturb rely_mnt)
  show "mnt (fst s') own = mnt (fst s) own" if "run_state (he_MkdirAll (disturbed others env) q) s = (e, s')"
    using that path.mkdir_at [of q "others (snd s) (fst s)" e "fst s'" own] by (simp add: disturbed_def run_disturb rely_mnt)
  show "mnt (fst s') own = mnt (fst s) own" if "run_state (he_Create (disturbed others env) q) s = (e, s')"
    using that path.create_at [of q "others (snd s) (fst s)" e "fst s'" own] by (simp add: disturbed_def run_disturb rely_mnt)
  show "mnt (fst s') own = (if e = None then src # mnt (fst s) own else mnt (fst s) own)"
    if "run_state (he_Mount (disturbed others env) src own fstype opts) s = (e, s')"
    using that path.mount_at [of src own fstype opts "others (snd s) (fst s)" e "fst s'"] by (simp add: disturbed_def run_disturb rely_mnt)
  show "mnt (fst s') own = (if e = None then tl (mnt (fst s) own) else mnt (fst s) own)"
    if "run_state (he_Unmount (disturbed others env) own) s = (e, s')"
    using that path.unmount_at [of own "others (snd s) (fst s)" e "fst s'"] by (simp add: disturbed_def run_disturb rely_mnt)
  show "mnt (fst s') own = mnt (fst s) own \<and> (ex (fst s') own \<longrightarrow> ex (fst s) own) \<and>
      (q = own \<and> (e = None \<or> os_IsNotExist e) \<longrightarrow> \<not> ex (fst s') own)"
    if "run_state (he_Remove (disturbed others env) q) s = (e, s')"
    using that path.remove_at [of q "others (snd s) (fst s)" e "fst s'" own] by (simp add: disturbed_def run_disturb rely_mnt rely_ex)
next
  fix s s' :: "'a \<times> nat" and cmd :: "string list" and n :: nat and r :: "string \<times> go_error option \<times> bool" and g :: string
    and m :: "string list res" and u :: unit
  show "mnt (fst s') own = mnt (fst s) own" if "run_state (he_CombinedOutput (disturbed others env) cmd n) s = (r, s')"
    using that path.exec_at [of cmd n "others (snd s) (fst s)" r "fst s'" own] by (simp add: disturbed_def run_disturb rely_mnt)
  show "mnt (fst s') own = mnt (fst s) own" if "run_state (he_Glob (disturbed others env) g) s = (m, s')"
    using that path.glob_at [of g "others (snd s) (fst s)" m "fst s'" own] by (simp add: disturbed_def run_disturb rely_mnt)
  show "mnt (fst s') own = mnt (fst s) own" if "run_state (he_Sleep (disturbed others env) n) s = (u, s')"
    using that path.sleep_at [of n "others (snd s) (fst s)" u "fst s'" own] by (simp add: disturbed_def run_disturb rely_mnt)
qed

section \<open>A handler at its mount point\<close>

text \<open>What the specification of mounts says of the path of a request alone.\<close>

fun stack_step :: "node_request \<Rightarrow> bool \<Rightarrow> string list \<Rightarrow> string list \<Rightarrow> bool" where
  "stack_step (Stage q) ok st st' = (if ok \<and> st = [] then length st' = 1 else st' = st)"
| "stack_step (Publish q) ok st st' = (st' = (if ok then Join (npv_StagingTargetPath q) (npv_VolumeId q) # st else st))"
| "stack_step (Unstage q) ok st st' = (if ok then st' = [] \<and> length st \<le> 1 else st' \<in> {st, tl st})"
| "stack_step (Unpublish q) ok st st' = (if ok then st' = [] \<and> length st \<le> 1 else st' \<in> {st, tl st})"

lemma stack_step_failed: "stack_step r False st st"
  by (cases r) simp_all

lemma mount_step_stack:
  "mount_step touches r ok m m' \<Longrightarrow> stack_step r ok (m (request_path r)) (m' (request_path r))"
  by (induction rule: mount_step.induct) (auto simp: changed_def stack_step_failed elim: takes_off.elims)

context node_path
begin

lemma node_body_at:
  assumes "run_state (node_body env r) w = (x, w')" and "request_path r = P"
  shows "stack_step r (succeeded x) (mnt w P) (mnt w' P)"
proof (cases r)
  case (Stage req)
  obtain c v where s: "run_state (ValidateNodeStageVolumeRequest env req) w = (c, v)" by (metis prod.collapse)
  obtain d u where t: "run_state (he_Stat env (nsv_StagingTargetPath req)) w = (d, u)" by (metis prod.collapse)
  have v: "mnt v P = mnt w P"
    using s t stat_at [OF t] by (auto simp: ValidateNodeStageVolumeRequest_def checkDirExists_def split: if_splits)
  show ?thesis
  proof (cases c)
    case None
    with assms Stage s have "run_state (NodeStageVolume_body env req) v = (x, w')" "stage_at req = P" by simp_all
    from NodeStage_body_at [OF this] v Stage show ?thesis by auto
  qed (use assms Stage s v in auto)
next
  case (Unstage req)
  with assms NodeUnstage_body_at [of req w x w'] show ?thesis by auto
next
  case (Publish req)
  with assms NodePublish_body_at [of req w x w'] show ?thesis by auto
next
  case (Unpublish req)
  with assms NodeUnpublish_body_at [of req w x w'] show ?thesis by auto
qed

end

context disturbed_host
begin

lemma own_body:
  assumes "run_state (node_body (disturbed others env) r) (w, k) = (x, w', k')" "request_path r = own"
  shows "stack_step r (succeeded x) (mnt w (request_path r)) (mnt w' (request_path r))"
  using shared.node_body_at [OF assms] assms(2) by simp

end

section \<open>What a handler guarantees\<close>

text \<open>
  The calls the handler of a request may make: it looks at, makes, mounts, unmounts and removes its own
  path and the directory of it, and asks whether a path exists; a staging request also runs commands,
  globs and sleeps.
\<close>

inductive host_call :: "'w host_env \<Rightarrow> node_request \<Rightarrow> 'w \<Rightarrow> 'w \<Rightarrow> bool" for env r where
  call_check: "run_state (he_IsNotMountPoint env (request_path r)) w = (be, w') \<Longrightarrow> host_call env r w w'"
| call_stat: "run_state (he_Stat env p) w = (e, w') \<Longrightarrow> host_call env r w w'"
| call_mkdir: "run_state (he_MkdirAll env (Dir (request_path r))) w = (e, w') \<Longrightarrow> host_call env r w w'"
| call_create: "run_state (he_Create env (request_path r)) w = (e, w') \<Longrightarrow> host_call env r w w'"
| call_mount: "run_state (he_Mount env src (request_path r) fstype opts) w = (e, w') \<Longrightarrow> host_call env r w w'"
| call_unmount: "run_state (he_Unmount env (request_path r)) w = (e, w') \<Longrightarrow> host_call env r w w'"
| call_remove: "p \<in> {request_path r, Dir (request_path r)} \<Longrightarrow> run_state (he_Remove env p) w = (e, w') \<Longrightarrow> host_call env r w w'"
| call_exec: "run_state (he_CombinedOutput env cmd n) w = (out, w') \<Longrightarrow> r = Stage req \<Longrightarrow> host_call env r w w'"
| call_glob: "run_state (he_Glob env g) w = (m, w') \<Longrightarrow> r = Stage req \<Longrightarrow> host_call env r w w'"
| call_sleep: "run_state (he_Sleep env n) w = (u, w') \<Longrightarrow> r = Stage req \<Longrightarrow> host_call env r w w'"

text \<open>Two hosts that agree on the calls of a request.\<close>

definition agree_on :: "node_request \<Rightarrow> 'w host_env \<Rightarrow> 'w host_env \<Rightarrow> bool" where
  "agree_on r env env' \<longleftrightarrow>
     he_IsNotMountPoint env (request_path r) = he_IsNotMountPoint env' (request_path r) \<and>
     he_Stat env = he_Stat env' \<and>
     he_MkdirAll env (Dir (request_path r)) = he_MkdirAll env' (Dir (request_path r)) \<and>
     he_Create env (request_path r) = he_Create env' (request_path r) \<and>
     (\<forall>src. he_Mount env src (request_path r) = he_Mount env' src (request_path r)) \<and>
     he_Unmount env (request_path r) = he_Unmount env' (request_path r) \<and>
     he_Remove env (request_path r) = he_Remove env' (request_path r) \<and>
     he_Remove env (Dir (request_path r)) = he_Remove env' (Dir (request_path r)) \<and>
     ((\<exists>req. r = Stage req) \<longrightarrow> he_CombinedOutput env = he_CombinedOutput env' \<and> he_Glob env = he_Glob env' \<and>
       he_Sleep env = he_Sleep env')"

lemma poll_cong:
  assumes "he_Glob env = he_Glob env'" "he_Sleep env = he_Sleep env'"
  shows "ready_loop env g n = ready_loop env' g n" "gone_loop env g n = gone_loop env' g n"
proof -
  show "ready_loop env g n = ready_loop env' g n"
  proof (induction n)
    case (Suc n)
    show ?case unfolding ready_loop.simps Suc assms by (rule refl)
  qed simp
  show "gone_loop env g n = gone_loop env' g n"
  proof (induction n)
    case (Suc n)
    show ?case unfolding gone_loop.simps Suc assms by (rule refl)
  qed simp
qed

lemma initiator_cong:
  assumes "he_CombinedOutput env = he_CombinedOutput env'" "he_Glob env = he_Glob env'" "he_Sleep env = he_Sleep env'"
  shows "Connect env i = Connect env' i" "Disconnect env i = Disconnect env' i"
  unfolding Connect_def Disconnect_def execWithTimeout_def waitForDeviceReady_def waitForDeviceGone_def assms(1)
    poll_cong [OF assms(2,3)] by (rule refl)+

lemma mount_point_cong:
  assumes "agree_on r env env'"
  shows "isStaged env (request_path r) = isStaged env' (request_path r)"
    "createMountPoint env (request_path r) = createMountPoint env' (request_path r)"
    "stageVolume env dev (request_path r) = stageVolume env' dev (request_path r)"
    "deleteMountPoint env (request_path r) = deleteMountPoint env' (request_path r)"
proof -
  from assms have eqs: "he_IsNotMountPoint env (request_path r) = he_IsNotMountPoint env' (request_path r)"
    "he_Stat env = he_Stat env'" "he_MkdirAll env (Dir (request_path r)) = he_MkdirAll env' (Dir (request_path r))"
    "he_Create env (request_path r) = he_Create env' (request_path r)"
    "\<And>src. he_Mount env src (request_path r) = he_Mount env' src (request_path r)"
    "he_Unmount env (request_path r) = he_Unmount env' (request_path r)"
    "he_Remove env (request_path r) = he_Remove env' (request_path r)"
    "he_Remove env (Dir (request_path r)) = he_Remove env' (Dir (request_path r))" by (simp_all add: agree_on_def)
  show "isStaged env (request_path r) = isStaged env' (request_path r)"
    "createMountPoint env (request_path r) = createMountPoint env' (request_path r)"
    "stageVolume env dev (request_path r) = stageVolume env' dev (request_path r)"
    "deleteMountPoint env (request_path r) = deleteMountPoint env' (request_path r)"
    unfolding isStaged_def createMountPoint_def make_target_file_def stageVolume_def deleteMountPoint_def remove_target_def eqs
    by (rule refl)+
qed

lemma stage_body_cong:
  assumes agree: "agree_on (Stage req) env env'"
  shows "NodeStageVolume_body env req = NodeStageVolume_body env' req"
proof -
  have os: "he_CombinedOutput env = he_CombinedOutput env'" "he_Glob env = he_Glob env'" "he_Sleep env = he_Sleep env'"
    using agree by (simp_all add: agree_on_def)
  note cong = mount_point_cong(1,3) [OF agree, unfolded request_path.simps]
  have device: "stage_device env i dev (stage_at req) = stage_device env' i dev (stage_at req)" for i dev
    unfolding stage_device_def initiator_cong(2) [OF os] cong by (rule refl)
  show ?thesis unfolding NodeStageVolume_body_def initiator_cong(1) [OF os] device cong by (rule refl)
qed

lemma node_body_cong:
  assumes agree: "agree_on r env env'"
  shows "node_body env r = node_body env' r"
proof (cases r)
  case (Stage req)
  have stat: "he_Stat env = he_Stat env'" using agree by (simp add: agree_on_def)
  show ?thesis
    unfolding Stage node_body.simps ValidateNodeStageVolumeRequest_def checkDirExists_def stat stage_body_cong [OF agree [unfolded Stage]]
    by (rule refl)
next
  case (Unstage req)
  note cong = mount_point_cong(1,4) [OF agree, unfolded Unstage request_path.simps]
  show ?thesis unfolding Unstage node_body.simps NodeUnstageVolume_body_def Let_def cong by (rule refl)
next
  case (Publish req)
  have mount: "he_Mount env src (npv_TargetPath req) = he_Mount env' src (npv_TargetPath req)" for src
    using agree Publish by (simp add: agree_on_def)
  note cong = mount_point_cong(2) [OF agree, unfolded Publish request_path.simps]
  show ?thesis unfolding Publish node_body.simps NodePublishVolume_body_def cong mount by (rule refl)
next
  case (Unpublish req)
  note cong = mount_point_cong(4) [OF agree, unfolded Unpublish request_path.simps]
  show ?thesis unfolding Unpublish node_body.simps NodeUnpublishVolume_body_def cong by (rule refl)
qed

section \<open>Handlers on other paths\<close>

text \<open>
  A host on which making, mounting and removing show only at the paths they touch; \<open>volatile\<close> are the
  paths of devices, which come and go with commands and time.
\<close>

locale node_host_shared = node_host_frame +
  fixes volatile :: "string \<Rightarrow> bool"
  assumes mkdir_ex: "run_state (he_MkdirAll env p) w = (e, w') \<Longrightarrow> \<not> touches p q \<Longrightarrow> p \<noteq> q \<Longrightarrow> ex w' q = ex w q"
    and create_ex: "run_state (he_Create env p) w = (e, w') \<Longrightarrow> \<not> touches p q \<Longrightarrow> p \<noteq> q \<Longrightarrow> ex w' q = ex w q"
    and mount_ex: "run_state (he_Mount env src p fstype opts) w = (e, w') \<Longrightarrow> \<not> touches p q \<Longrightarrow> p \<noteq> q \<Longrightarrow> ex w' q = ex w q"
    and unmount_ex: "run_state (he_Unmount env p) w = (e, w') \<Longrightarrow> \<not> touches p q \<Longrightarrow> p \<noteq> q \<Longrightarrow> ex w' q = ex w q"
    and remove_ex: "run_state (he_Remove env p) w = (e, w') \<Longrightarrow> \<not> touches p q \<Longrightarrow> p \<noteq> q \<Longrightarrow> ex w' q = ex w q"
    and exec_ex: "run_state (he_CombinedOutput env cmd n) w = (r, w') \<Longrightarrow> \<not> volatile q \<Longrightarrow> ex w' q = ex w q"
    and glob_ex: "run_state (he_Glob env g) w = (m, w') \<Longrightarrow> \<not> volatile q \<Longrightarrow> ex w' q = ex w q"
    and sleep_ex: "run_state (he_Sleep env n) w = (u, w') \<Longrightarrow> \<not> volatile q \<Longrightarrow> ex w' q = ex w q"

text \<open>A request whose path and directory are not, and do not touch, the path of interest.\<close>

definition apart :: "(string \<Rightarrow> string \<Rightarrow> bool) \<Rightarrow> string \<Rightarrow> node_request \<Rightarrow> bool" where
  "apart touches p r \<longleftrightarrow> (\<forall>q \<in> {request_path r, Dir (request_path r)}. q \<noteq> p \<and> \<not> touches q p)"

inductive others_run :: "'w host_env \<Rightarrow> node_request set \<Rightarrow> 'w \<Rightarrow> 'w \<Rightarrow> bool" for env rs where
  others_none: "others_run env rs w w"
| others_call: "others_run env rs w v \<Longrightarrow> r \<in> rs \<Longrightarrow> host_call env r v w' \<Longrightarrow> others_run env rs w w'"

context node_host_shared
begin

lemma host_call_apart:
  assumes "host_call env r w w'" "apart touches p r" "\<not> volatile p"
  shows "mnt w' p = mnt w p \<and> ex w' p = ex w p"
  using assms
proof (induction rule: host_call.induct)
  case (call_check w be w')
  then show ?case using check [of "request_path r" w "fst be" "snd be" w'] by simp
next
  case (call_stat q w e w')
  then show ?case using stat by blast
next
  case (call_mkdir w e w')
  then show ?case using mkdir [OF call_mkdir(1)] mkdir_ex [OF call_mkdir(1)] by (simp add: apart_def)
next
  case (call_create w e w')
  then show ?case using create [OF call_create(1)] create_ex [OF call_create(1)] by (simp add: apart_def)
next
  case (call_mount src fstype opts w e w')
  then show ?case using mount_frame [OF call_mount(1)] mount_ex [OF call_mount(1)] by (simp add: apart_def)
next
  case (call_unmount w e w')
  then show ?case using unmount_frame [OF call_unmount(1)] unmount_ex [OF call_unmount(1)] by (simp add: apart_def)
next
  case (call_remove q w e w')
  then show ?case using remove [OF call_remove(2)] remove_ex [OF call_remove(2)] by (auto simp: apart_def)
next
  case (call_exec cmd n w out w' req)
  then show ?case using exec [OF call_exec(1)] exec_ex [OF call_exec(1)] by simp
next
  case (call_glob g w m w' req)
  then show ?case using glob [OF call_glob(1)] glob_ex [OF call_glob(1)] by simp
next
  case (call_sleep n w u w' req)
  then show ?case using sleep [OF call_sleep(1)] sleep_ex [OF call_sleep(1)] by simp
qed

lemma others_run_apart:
  assumes "others_run env rs w w'" "\<forall>r \<in> rs. apart touches p r" "\<not> volatile p"
  shows "mnt w' p = mnt w p \<and> ex w' p = ex w p"
  using assms by (induction rule: others_run.induct) (auto dest: host_call_apart)

lemma disturbed_by_others:
  assumes "\<forall>k w. others_run env rs w (others k w)" "\<forall>r \<in> rs. apart touches p r" "\<not> volatile p"
  shows "disturbed_host env mnt ex others p"
proof
  fix k w
  from others_run_apart [OF _ assms(2,3)] assms(1)
  show "mnt (others k w) p = mnt w p" "ex (others k w) p = ex w p" by blast+
qed

lemma node_body_disturbed:
  assumes "\<forall>k w. others_run env rs w (others k w)" "\<forall>r' \<in> rs. apart touches (request_path r) r'" "\<not> volatile (request_path r)"
    and "run_state (node_body (disturbed others env) r) (w, k) = (x, w', k')"
  shows "stack_step r (succeeded x) (mnt w (request_path r)) (mnt w' (request_path r))"
  using disturbed_host.own_body [OF disturbed_by_others [OF assms(1-3)] assms(4) refl] .

end

interpretation mem_shared: node_host_shared mem_host hm_mnt hm_ex "(=)" "\<lambda>_. False"
proof
  fix w w' p q e src fstype opts
  show "run_state (he_MkdirAll mem_host p) w = (e, w') \<Longrightarrow> p \<noteq> q \<Longrightarrow> hm_ex w' q = hm_ex w q"
    "run_state (he_Create mem_host p) w = (e, w') \<Longrightarrow> p \<noteq> q \<Longrightarrow> hm_ex w' q = hm_ex w q"
    by (auto simp: hm_defs hm_ex_def hm_mnt_def)
  show "run_state (he_Mount mem_host src p fstype opts) w = (e, w') \<Longrightarrow> p \<noteq> q \<Longrightarrow> hm_ex w' q = hm_ex w q"
    by (auto simp: hm_defs hm_ex_def hm_mnt_def split: if_splits)
  show "run_state (he_Unmount mem_host p) w = (e, w') \<Longrightarrow> p \<noteq> q \<Longrightarrow> hm_ex w' q = hm_ex w q"
    "run_state (he_Remove mem_host p) w = (e, w') \<Longrightarrow> p \<noteq> q \<Longrightarrow> hm_ex w' q = hm_ex w q"
    by (auto simp: hm_defs hm_ex_def hm_mnt_def unmount_first_other split: if_splits)
next
  fix w w' q and cmd :: "string list" and n :: nat and r :: "string \<times> go_error option \<times> bool" and g :: string
    and m :: "string list res" and u :: unit
  show "run_state (he_CombinedOutput mem_host cmd n) w = (r, w') \<Longrightarrow> hm_ex w' q = hm_ex w q"
    by (auto simp: hm_defs hm_ex_def hm_mnt_def split: if_splits)
  show "run_state (he_Glob mem_host g) w = (m, w') \<Longrightarrow> hm_ex w' q = hm_ex w q" by (auto simp: hm_defs)
  show "run_state (he_Sleep mem_host n) w = (u, w') \<Longrightarrow> hm_ex w' q = hm_ex w q" by (auto simp: hm_defs hm_ex_def hm_mnt_def)
qed

section \<open>Handlers at the same time\<close>

text \<open>
  C7. Handlers on different paths do not disturb one another: while the handler of a request runs under
  its lock, between any two of its calls the handlers of any set of other requests may make any number
  of their calls, as long as their paths and the directories of these are not its path and do not touch
  it. Whatever they do, the handler returns, and what it answers and what it leaves at its path is what
  the specification of mounts says: staging mounts one device or finds a mount, publishing puts the staged
  file on top, unstaging and unpublishing leave no mount; a failure leaves the stack, or, when the file
  could not be removed, has taken one mount off.
\<close>

theorem handlers_isolated:
  assumes host: "node_host_shared env mnt ex touches volatile"
    and others: "\<forall>k w. others_run env rs w (others k w)"
    and apart: "\<forall>r' \<in> rs. apart touches (request_path r) r'" "\<not> volatile (request_path r)"
  shows "\<exists>x w' k'. run_state (node_body (disturbed others env) r) (w, k) = (x, w', k') \<and>
    stack_step r (succeeded x) (mnt w (request_path r)) (mnt w' (request_path r))"
proof -
  obtain x w' k' where "run_state (node_body (disturbed others env) r) (w, k) = (x, w', k')" by (metis prod.collapse)
  with node_host_shared.node_body_disturbed [OF host others apart this] show ?thesis by blast
qed

text \<open>Another volume is published while the demo volume is staged.\<close>

definition other_publish :: NodePublishVolumeRequest where
  "other_publish = \<lparr>npv_VolumeId = ''vol2'', npv_StagingTargetPath = ''/staging'', npv_TargetPath = ''/pods/p2'',
     npv_VolumeCapability = Some \<lparr>vcap_AccessType = Some AccessBlock, vcap_AccessMode = None\<rparr>\<rparr>"

definition publishing :: "nat \<Rightarrow> host_mem \<Rightarrow> host_mem" where
  "publishing k w =
     (if k = 1 then snd (run_state (he_Create mem_host ''/pods/p2'') w)
      else if k = 2 then snd (run_state (he_Mount mem_host ''/staging/vol2'' ''/pods/p2'' [] [''bind'']) w)
      else w)"

lemma publishing_run: "others_run mem_host {Publish other_publish} w (publishing k w)"
proof -
  have "host_call mem_host (Publish other_publish) w (snd (run_state (he_Create mem_host ''/pods/p2'') w))"
    by (rule host_call.call_create [of _ _ _ "fst (run_state (he_Create mem_host ''/pods/p2'') w)"]) (simp add: other_publish_def)
  moreover have "host_call mem_host (Publish other_publish) w
      (snd (run_state (he_Mount mem_host ''/staging/vol2'' ''/pods/p2'' [] [''bind'']) w))"
    by (rule host_call.call_mount [of _ "''/staging/vol2''" _ "[]" "[''bind'']" _
        "fst (run_state (he_Mount mem_host ''/staging/vol2'' ''/pods/p2'' [] [''bind'']) w)"]) (simp add: other_publish_def)
  ultimately show ?thesis
    by (auto simp: publishing_def intro: others_run.others_none others_run.others_call [OF others_run.others_none])
qed

theorem handlers_isolated_witness:
  "\<exists>w' k'. run_state (node_body (disturbed publishing mem_host) (Stage demo_stage)) (demo_host, 0) = (Inr (), w', k') \<and>
     length (hm_mnt w' ''/staging/vol1'') = 1 \<and> hm_mnt w' ''/pods/p2'' = [''/staging/vol2'']"
proof -
  let ?run = "run_state (node_body (disturbed publishing mem_host) (Stage demo_stage)) (demo_host, 0)"
  have path: "request_path (Stage demo_stage) = ''/staging/vol1''" "hm_mnt demo_host ''/staging/vol1'' = []"
    "apart (=) ''/staging/vol1'' (Publish other_publish)" by code_simp+
  have "fst ?run = Inr ()" "hm_mnt (fst (snd ?run)) ''/pods/p2'' = [''/staging/vol2'']" by code_simp+
  moreover have "\<forall>k w. others_run mem_host {Publish other_publish} w (publishing k w)" using publishing_run by blast
  from handlers_isolated [OF mem_shared.node_host_shared_axioms this, of "Stage demo_stage" demo_host 0, unfolded path(1,2)] path(3)
  obtain x w' k' where "?run = (x, w', k')" "stack_step (Stage demo_stage) (succeeded x) [] (hm_mnt w' ''/staging/vol1'')"
    by (auto simp del: node_body.simps stack_step.simps)
  ultimately show ?thesis by auto
qed

text \<open>
  C8. What a handler does to the host is confined: it depends only on, and consists only of, the calls
  that make, mount, unmount and remove the path of its request and its directory, that look at paths,
  and, for staging alone, that run commands, glob and sleep. On two hosts that agree on these calls it is
  the same function of the lock table and the world, whatever the other calls are.
\<close>

theorem handlers_confined:
  assumes agree: "agree_on r env env'"
  shows "node_handle env r = node_handle env' r"
proof (cases r)
  case (Stage req)
  have stat: "he_Stat env = he_Stat env'" using agree by (simp add: agree_on_def)
  show ?thesis
    unfolding Stage node_handle.simps fun_eq_iff NodeStageVolume_def ValidateNodeStageVolumeRequest_def checkDirExists_def stat
      stage_body_cong [OF agree [unfolded Stage]] by simp
qed (use node_body_cong [OF agree] in
    \<open>simp_all add: fun_eq_iff NodeUnstageVolume_def NodePublishVolume_def NodeUnpublishVolume_def\<close>)

text \<open>A host that has no commands and no files, and mounts at no path but the target of the demo request.\<close>

definition bare_host :: "host_mem host_env" where
  "bare_host = mem_host\<lparr>he_Mount := (\<lambda>src p. if p = ''/pods/p1'' then he_Mount mem_host src p else (\<lambda>_ _. State_Monad.return (Some EBUSY))),
     he_CombinedOutput := (\<lambda>_ _. State_Monad.return ([], Some ENOENT, False)), he_ReadFile := (\<lambda>_. State_Monad.return (Inl ENOENT))\<rparr>"

theorem handlers_confined_witness:
  "\<exists>vl'. NodePublishVolume bare_host demo_publish (NewVolumeLocks, demo_staged) = Done (Inr (), vl', demo_published)"
proof -
  have "agree_on (Publish demo_publish) bare_host mem_host"
    by (simp add: agree_on_def bare_host_def demo_publish_def)
  from handlers_confined [OF this] have "NodePublishVolume bare_host demo_publish = NodePublishVolume mem_host demo_publish" by simp
  with demo_publish_runs [of NewVolumeLocks] show ?thesis by auto
qed

end
