(* ===== verification/Nvmf_Node.thy ===== *)
theory Nvmf_Node
  imports Json_Rpc
begin

text \<open>
  An SPDK node that exports logical volumes over NVMe-oF (\<^verbatim>\<open>pkg/util/nvmf.go\<close>, and
  \<^verbatim>\<open>NewSpdkNode\<close> of \<^verbatim>\<open>pkg/util/jsonrpc.go\<close>). Every operation is a sequence of
  JSON-RPC calls; the methods that look a volume up inherit the panic of \<^verbatim>\<open>getVolume\<close>.
\<close>

record nodeNVMf =
  nd_client :: rpcClient
  nd_targetType :: string
  nd_targetAddr :: string
  nd_targetPort :: string

abbreviation cfgNVMfSvcPort :: string where "cfgNVMfSvcPort \<equiv> ''4420''"
definition cfgAllowAnyHost :: bool where "cfgAllowAnyHost = True"
abbreviation cfgAddrFamily :: string where "cfgAddrFamily \<equiv> ''IPv4''"

definition newNVMf :: "rpcClient \<Rightarrow> string \<Rightarrow> string \<Rightarrow> nodeNVMf" where
  "newNVMf client targetType targetAddr =
     \<lparr>nd_client = client, nd_targetType = targetType, nd_targetAddr = targetAddr, nd_targetPort = cfgNVMfSvcPort\<rparr>"

definition NewSpdkNode :: "string \<Rightarrow> string \<Rightarrow> string \<Rightarrow> string \<Rightarrow> string \<Rightarrow> nodeNVMf res" where
  "NewSpdkNode url user pass targetType targetAddr =
     (let client = \<lparr>rpcURL = url, rpcUser = user, rpcPass = pass\<rparr> in
      if ToLower targetType = ''nvme-rdma'' then Inr (newNVMf client ''RDMA'' targetAddr)
      else if ToLower targetType = ''nvme-tcp'' then Inr (newNVMf client ''TCP'' targetAddr)
      else Inl (Errorf (''unknown transport: '' @ targetType)))"

definition Info :: "nodeNVMf \<Rightarrow> string" where
  "Info node = client_info (nd_client node)"

definition node_LvStores :: "'w http_env \<Rightarrow> nodeNVMf \<Rightarrow> ('w rpc_world, LvStore list res) action" where
  "node_LvStores env node = lvStores env (nd_client node)"

definition getVolumeModel :: "string \<Rightarrow> string" where
  "getVolumeModel lvolID = lvolID"

definition getVolumeNqn :: "string \<Rightarrow> string" where
  "getVolumeNqn lvolID = ''nqn.2020-04.io.spdk.csi:uuid:'' @ getVolumeModel lvolID"

definition VolumeInfo :: "'w http_env \<Rightarrow> nodeNVMf \<Rightarrow> string \<Rightarrow> ('w rpc_world, string go_map res ret) action" where
  "VolumeInfo env node lvolID = and_then (getVolume env (nd_client node) lvolID) (\<lambda>r.
     case r of
       Inl err \<Rightarrow> returns (Inl err)
     | Inr lvol \<Rightarrow> and_then (getLvstore env (nd_client node) lvolID) (\<lambda>r.
         case r of
           Inl err \<Rightarrow> returns (Inl err)
         | Inr lvStore \<Rightarrow> returns (Inr
             [(''targetType'', nd_targetType node),
              (''targetAddr'', nd_targetAddr node),
              (''targetPort'', nd_targetPort node),
              (''nqn'', getVolumeNqn lvolID),
              (''model'', getVolumeModel lvolID),
              (''lvolSize'', FormatInt (sint (BlockSize lvol * NumBlocks lvol))),
              (''lvstore'', lvStore)])))"

text \<open>The alias of a volume is the name of its store and its own name.\<close>

definition node_CreateVolume ::
    "'w http_env \<Rightarrow> nodeNVMf \<Rightarrow> string \<Rightarrow> string \<Rightarrow> int64 \<Rightarrow> ('w rpc_world, string res ret) action" where
  "node_CreateVolume env node lvolName lvsName sizeMiB =
     and_then (getVolume env (nd_client node) (lvsName @ ''/'' @ lvolName)) (\<lambda>r.
       case r of
         Inr lvol \<Rightarrow> returns (Inr (bdev_UUID lvol))
       | Inl _ \<Rightarrow> and_then (safely (client_createVolume env (nd_client node) lvolName lvsName sizeMiB)) (\<lambda>(lvolID, err).
           case err of Some e \<Rightarrow> returns (Inl e) | None \<Rightarrow> returns (Inr lvolID)))"

definition node_CloneVolume ::
    "'w http_env \<Rightarrow> nodeNVMf \<Rightarrow> string \<Rightarrow> string \<Rightarrow> string \<Rightarrow> ('w rpc_world, string res ret) action" where
  "node_CloneVolume env node lvolName lvsName sourceLvolID =
     and_then (getVolume env (nd_client node) (lvsName @ ''/'' @ lvolName)) (\<lambda>r.
       case r of
         Inr lvol \<Rightarrow> returns (Inr (bdev_UUID lvol))
       | Inl _ \<Rightarrow> and_then (safely (client_cloneVolume env (nd_client node) lvolName sourceLvolID)) (\<lambda>(lvolID, err).
           case err of Some e \<Rightarrow> returns (Inl e) | None \<Rightarrow> returns (Inr lvolID)))"

definition node_GetVolume ::
    "'w http_env \<Rightarrow> nodeNVMf \<Rightarrow> string \<Rightarrow> string \<Rightarrow> ('w rpc_world, string res ret) action" where
  "node_GetVolume env node lvolName lvsName =
     and_then (getVolume env (nd_client node) (lvsName @ ''/'' @ lvolName)) (\<lambda>r.
       case r of Inl err \<Rightarrow> returns (Inl err) | Inr lvol \<Rightarrow> returns (Inr (bdev_UUID lvol)))"

definition node_CreateSnapshot ::
    "'w http_env \<Rightarrow> nodeNVMf \<Rightarrow> string \<Rightarrow> string \<Rightarrow> ('w rpc_world, string res ret) action" where
  "node_CreateSnapshot env node lvolName snapshotName =
     and_then (getLvstore env (nd_client node) lvolName) (\<lambda>r.
       case r of
         Inl err \<Rightarrow> returns (Inl err)
       | Inr lvsName \<Rightarrow> and_then (getVolume env (nd_client node) (lvsName @ ''/'' @ snapshotName)) (\<lambda>r.
           case r of
             Inr lvol \<Rightarrow> returns (Inr (bdev_UUID lvol))
           | Inl _ \<Rightarrow> and_then (safely (snapshot env (nd_client node) lvolName snapshotName)) (\<lambda>(snapshotID, err).
               case err of Some e \<Rightarrow> returns (Inl e) | None \<Rightarrow> returns (Inr snapshotID))))"

definition node_DeleteVolume :: "'w http_env \<Rightarrow> nodeNVMf \<Rightarrow> string \<Rightarrow> ('w rpc_world, go_error option) action" where
  "node_DeleteVolume env node lvolID = do {
     err \<leftarrow> client_deleteVolume env (nd_client node) lvolID;
     case err of Some e \<Rightarrow> State_Monad.return (Some e) | None \<Rightarrow> State_Monad.return None
   }"

section \<open>Subsystems\<close>

definition createSubsystem :: "'w http_env \<Rightarrow> nodeNVMf \<Rightarrow> string \<Rightarrow> ('w rpc_world, go_error option) action" where
  "createSubsystem env node lvolID = call_nil env (nd_client node) ''nvmf_create_subsystem'' (Some (JObj
     [(''nqn'', JStr (getVolumeNqn lvolID)), (''allow_any_host'', JBool cfgAllowAnyHost),
      (''serial_number'', JStr ''spdkcsi-sn''), (''model_number'', JStr (getVolumeModel lvolID))]))"

definition subsystemAddNs :: "'w http_env \<Rightarrow> nodeNVMf \<Rightarrow> string \<Rightarrow> ('w rpc_world, int64 \<times> go_error option) action" where
  "subsystemAddNs env node lvolID = call env (nd_client node) ''nvmf_subsystem_add_ns'' (Some (JObj
     [(''nqn'', JStr (getVolumeNqn lvolID)), (''namespace'', JObj [(''bdev_name'', JStr lvolID)])])) dec_int 0"

record ns_result =
  nsr_NSID :: int64
  nsr_BdevName :: string

record subsystem_result =
  ssr_Nqn :: string
  ssr_Namespace :: "ns_result list"

definition ns_fields :: "ns_result fields" where
  "ns_fields =
     [(''nsid'', field dec_int nsr_NSID nsr_NSID_update), (''bdev_name'', field dec_string nsr_BdevName nsr_BdevName_update)]"

definition subsystem_fields :: "subsystem_result fields" where
  "subsystem_fields =
     [(''nqn'', field dec_string ssr_Nqn ssr_Nqn_update),
      (''namespaces'',
       field (dec_slice \<lparr>nsr_NSID = 0, nsr_BdevName = []\<rparr> (dec_struct ns_fields)) ssr_Namespace ssr_Namespace_update)]"

text \<open>The inner and the outer loop of \<open>subsystemGetNsID\<close>.\<close>

fun find_bdev :: "string \<Rightarrow> ns_result list \<Rightarrow> int64 option" where
  "find_bdev lvolID [] = None"
| "find_bdev lvolID (n # ns) = (if nsr_BdevName n = lvolID then Some (nsr_NSID n) else find_bdev lvolID ns)"

fun find_nsid :: "string \<Rightarrow> string \<Rightarrow> subsystem_result list \<Rightarrow> int64 option" where
  "find_nsid nqn lvolID [] = None"
| "find_nsid nqn lvolID (r # rs) =
     (if ssr_Nqn r = nqn
      then (case find_bdev lvolID (ssr_Namespace r) of Some i \<Rightarrow> Some i | None \<Rightarrow> find_nsid nqn lvolID rs)
      else find_nsid nqn lvolID rs)"

definition subsystemGetNsID :: "'w http_env \<Rightarrow> nodeNVMf \<Rightarrow> string \<Rightarrow> ('w rpc_world, int64 res) action" where
  "subsystemGetNsID env node lvolID = do {
     (results, err) \<leftarrow> call env (nd_client node) ''nvmf_get_subsystems'' None
       (dec_slice \<lparr>ssr_Nqn = [], ssr_Namespace = []\<rparr> (dec_struct subsystem_fields)) [];
     case err of
       Some e \<Rightarrow> State_Monad.return (Inl e)
     | None \<Rightarrow>
         (case find_nsid (getVolumeNqn lvolID) lvolID results of
            Some i \<Rightarrow> State_Monad.return (Inr i)
          | None \<Rightarrow> State_Monad.return (Inl (Errorf ''no such namespace'')))
   }"

definition subsystemAddListener :: "'w http_env \<Rightarrow> nodeNVMf \<Rightarrow> string \<Rightarrow> ('w rpc_world, go_error option) action" where
  "subsystemAddListener env node lvolID = call_nil env (nd_client node) ''nvmf_subsystem_add_listener'' (Some (JObj
     [(''nqn'', JStr (getVolumeNqn lvolID)),
      (''listen_address'', JObj
        [(''trtype'', JStr (nd_targetType node)), (''adrfam'', JStr cfgAddrFamily),
         (''traddr'', JStr (nd_targetAddr node)), (''trsvcid'', JStr (nd_targetPort node))])]))"

definition subsystemRemoveNs :: "'w http_env \<Rightarrow> nodeNVMf \<Rightarrow> string \<Rightarrow> ('w rpc_world, go_error option) action" where
  "subsystemRemoveNs env node lvolID = do {
     r \<leftarrow> subsystemGetNsID env node lvolID;
     case r of
       Inl err \<Rightarrow> State_Monad.return (Some err)
     | Inr nsID \<Rightarrow> call_nil env (nd_client node) ''nvmf_subsystem_remove_ns'' (Some (JObj
         [(''nqn'', JStr (getVolumeNqn lvolID)), (''nsid'', JNum (FormatInt (sint nsID)))]))
   }"

definition deleteSubsystem :: "'w http_env \<Rightarrow> nodeNVMf \<Rightarrow> string \<Rightarrow> ('w rpc_world, go_error option) action" where
  "deleteSubsystem env node lvolID = call_nil env (nd_client node) ''nvmf_delete_subsystem'' (Some (JObj
     [(''nqn'', JStr (getVolumeNqn lvolID))]))"

definition createTransport :: "'w http_env \<Rightarrow> nodeNVMf \<Rightarrow> ('w rpc_world, go_error option) action" where
  "createTransport env node = do {
     s \<leftarrow> State_Monad.get;
     if rw_transCreated s \<noteq> 0 then State_Monad.return None
     else do {
       err \<leftarrow> call_nil env (nd_client node) ''nvmf_create_transport'' (Some (JObj [(''trtype'', JStr (nd_targetType node))]));
       case err of
         None \<Rightarrow> do { State_Monad.update (rw_transCreated_update (\<lambda>_. 1)); State_Monad.return None }
       | Some e \<Rightarrow>
           if Contains (Error e) ''already exists''
           then do { State_Monad.update (rw_transCreated_update (\<lambda>_. 1)); State_Monad.return None }
           else State_Monad.return (Some e)
     }
   }"

section \<open>Publishing\<close>

record listener_result =
  TrType :: string
  AdrFam :: string
  TrAddr :: string
  TrSvcID :: string

definition address_fields :: "listener_result fields" where
  "address_fields =
     [(''trtype'', field dec_string TrType TrType_update), (''adrfam'', field dec_string AdrFam AdrFam_update),
      (''traddr'', field dec_string TrAddr TrAddr_update), (''trsvcid'', field dec_string TrSvcID TrSvcID_update)]"

definition listener_fields :: "listener_result fields" where
  "listener_fields = [(''address'', dec_struct address_fields)]"

fun listens :: "nodeNVMf \<Rightarrow> listener_result list \<Rightarrow> bool" where
  "listens node [] = False"
| "listens node (l # ls) =
     (if TrType l = nd_targetType node \<and> TrAddr l = nd_targetAddr node \<and> TrSvcID l = nd_targetPort node \<and>
         AdrFam l = cfgAddrFamily
      then True else listens node ls)"

definition isVolumePublished :: "'w http_env \<Rightarrow> nodeNVMf \<Rightarrow> string \<Rightarrow> ('w rpc_world, bool res) action" where
  "isVolumePublished env node lvolID = do {
     (result, err) \<leftarrow> call env (nd_client node) ''nvmf_subsystem_get_listeners''
       (Some (JObj [(''nqn'', JStr (getVolumeNqn lvolID))]))
       (dec_slice \<lparr>TrType = [], AdrFam = [], TrAddr = [], TrSvcID = []\<rparr> (dec_struct listener_fields)) [];
     case err of
       Some e \<Rightarrow>
         if errorMatches (Some e) ErrInvalidParameters then State_Monad.return (Inr False)
         else State_Monad.return (Inl e)
     | None \<Rightarrow> State_Monad.return (Inr (listens node result))
   }"

text \<open>The calls that export a volume, with what is undone when one of them fails.\<close>

definition export_volume :: "'w http_env \<Rightarrow> nodeNVMf \<Rightarrow> string \<Rightarrow> ('w rpc_world, go_error option) action" where
  "export_volume env node lvolID = do {
     err \<leftarrow> createTransport env node;
     case err of
       Some e \<Rightarrow> State_Monad.return (Some e)
     | None \<Rightarrow> do {
         err \<leftarrow> createSubsystem env node lvolID;
         case err of
           Some e \<Rightarrow> State_Monad.return (Some e)
         | None \<Rightarrow> do {
             (nsID, err) \<leftarrow> subsystemAddNs env node lvolID;
             case err of
               Some e \<Rightarrow> do { derr \<leftarrow> deleteSubsystem env node lvolID; State_Monad.return (Some e) }
             | None \<Rightarrow> do {
                 err \<leftarrow> subsystemAddListener env node lvolID;
                 case err of
                   Some e \<Rightarrow> do {
                     rerr \<leftarrow> subsystemRemoveNs env node lvolID;
                     derr \<leftarrow> deleteSubsystem env node lvolID;
                     State_Monad.return (Some e)
                   }
                 | None \<Rightarrow> State_Monad.return None
               }
           }
       }
   }"

abbreviation node_isVolumeCreated :: "'w http_env \<Rightarrow> nodeNVMf \<Rightarrow> string \<Rightarrow> ('w rpc_world, bool res ret) action" where
  "node_isVolumeCreated env node lvolID \<equiv> isVolumeCreated env (nd_client node) lvolID"

definition PublishVolume :: "'w http_env \<Rightarrow> nodeNVMf \<Rightarrow> string \<Rightarrow> ('w rpc_world, go_error option ret) action" where
  "PublishVolume env node lvolID = and_then (node_isVolumeCreated env node lvolID) (\<lambda>r.
     case r of
       Inl err \<Rightarrow> returns (Some err)
     | Inr exists \<Rightarrow>
         if \<not> exists then returns (Some ErrVolumeDeleted)
         else and_then (safely (isVolumePublished env node lvolID)) (\<lambda>r.
           case r of
             Inl err \<Rightarrow> returns (Some err)
           | Inr published \<Rightarrow>
               if published then returns None
               else safely (export_volume env node lvolID)))"

text \<open>The calls that take the export back; a failure to remove the namespace is only logged.\<close>

definition unexport_volume :: "'w http_env \<Rightarrow> nodeNVMf \<Rightarrow> string \<Rightarrow> ('w rpc_world, go_error option) action" where
  "unexport_volume env node lvolID = do {
     rerr \<leftarrow> subsystemRemoveNs env node lvolID;
     err \<leftarrow> deleteSubsystem env node lvolID;
     case err of Some e \<Rightarrow> State_Monad.return (Some e) | None \<Rightarrow> State_Monad.return None
   }"

definition UnpublishVolume :: "'w http_env \<Rightarrow> nodeNVMf \<Rightarrow> string \<Rightarrow> ('w rpc_world, go_error option ret) action" where
  "UnpublishVolume env node lvolID = and_then (node_isVolumeCreated env node lvolID) (\<lambda>r.
     case r of
       Inl err \<Rightarrow> returns (Some err)
     | Inr exists \<Rightarrow>
         if \<not> exists then returns (Some ErrVolumeDeleted)
         else and_then (safely (isVolumePublished env node lvolID)) (\<lambda>r.
           case r of
             Inl err \<Rightarrow> returns (Some err)
           | Inr published \<Rightarrow>
               if \<not> published then returns None
               else safely (unexport_volume env node lvolID)))"

section \<open>The transport is created once\<close>

lemma run_update [simp]: "run_state (State_Monad.update f) s = ((), f s)"
  by (simp add: State_Monad.update_def State_Monad.get_def State_Monad.set_def State_Monad.bind_def)

lemma transCreated_call [simp]:
  "rw_transCreated (snd (run_state (call env client method args d x) s)) = rw_transCreated s"
  by (simp add: call_def next_rpcID_def on_ext_def case_prod_beta Let_def split: option.split)

lemma transCreated_call_nil [simp]:
  "rw_transCreated (snd (run_state (call_nil env client method args) s)) = rw_transCreated s"
  by (simp add: call_nil_def case_prod_beta Let_def)

text \<open>
  After \<open>createTransport\<close> has succeeded once, or has found that the transport exists, every later
  call succeeds without sending anything to the target; while it fails, the flag stays as it was and
  the next call tries again.
\<close>

theorem createTransport_once:
  assumes "run_state (createTransport env node) s = (err, s')"
  shows "if err = None
    then rw_transCreated s' \<noteq> 0 \<and> run_state (createTransport env node') s' = (None, s')
    else rw_transCreated s' = rw_transCreated s \<and> rw_transCreated s = 0"
proof -
  let ?m = "call_nil env (nd_client node) ''nvmf_create_transport'' (Some (JObj [(''trtype'', JStr (nd_targetType node))]))"
  obtain e v where m: "run_state ?m s = (e, v)" by fastforce
  from transCreated_call_nil [of env "nd_client node" "''nvmf_create_transport''"
      "Some (JObj [(''trtype'', JStr (nd_targetType node))])" s] m
  have v: "rw_transCreated v = rw_transCreated s" by simp
  have "if err = None then rw_transCreated s' \<noteq> 0 else rw_transCreated s' = rw_transCreated s \<and> rw_transCreated s = 0"
    using assms v by (auto simp: createTransport_def m split: if_splits option.splits)
  then show ?thesis by (simp add: createTransport_def split: if_splits)
qed

definition demo_node :: nodeNVMf where
  "demo_node = newNVMf demo_rpcClient ''TCP'' ''10.0.0.1''"

theorem createTransport_once_witness:
  "\<exists>err s'. run_state (createTransport dead_target demo_node) demo_rpc = (err, s') \<and> err \<noteq> None \<and>
     rw_transCreated s' = 0"
proof -
  obtain err s' where run: "run_state (createTransport dead_target demo_node) demo_rpc = (err, s')" by fastforce
  have "fst (run_state (createTransport dead_target demo_node) demo_rpc) \<noteq> None" by code_simp
  with run createTransport_once [OF run] show ?thesis by (auto split: if_splits)
qed

end
