(* ===== verification/Spdk_Target.thy ===== *)
theory Spdk_Target
  imports Nvmf_Node
begin

text \<open>
  Exporting a volume, seen from the SPDK target. The target is not part of the driver; what its
  documentation promises of the calls the driver makes is the locale \<open>spdk_target\<close>. Its client is
  \<^verbatim>\<open>nodeNVMf\<close> (\<^verbatim>\<open>pkg/util/nvmf.go\<close>), whose operations are followed from the JSON
  text of the requests to the subsystems of the target.
\<close>

section \<open>What the target keeps and answers\<close>

record subsystem =
  ss_namespaces :: "(int64 \<times> string) list"
  ss_listeners :: "listener_result list"

definition empty_subsystem :: subsystem where
  "empty_subsystem = \<lparr>ss_namespaces = [], ss_listeners = []\<rparr>"

type_synonym subsystems = "string \<rightharpoonup> subsystem"

text \<open>
  The kinds of answers to the call with identifier \<open>i\<close>: done with a result, denied by the target with an
  error of its own, or lost, when the exchange failed or HTTP reported an error.
\<close>

definition error_response :: "int32 \<Rightarrow> int64 \<Rightarrow> string \<Rightarrow> json" where
  "error_response i code msg = JObj [(''jsonrpc'', JStr ''2.0''), (''id'', JNum (FormatInt (sint i))),
     (''error'', JObj [(''code'', JNum (FormatInt (sint code))), (''message'', JStr msg)])]"

definition executed :: "int32 \<Rightarrow> json \<Rightarrow> http_response res \<Rightarrow> bool" where
  "executed i r reply \<longleftrightarrow> reply = Inr \<lparr>StatusCode = 200, Body = render (ok_response i r)\<rparr> \<and>
     json_wf r \<and> r \<noteq> JNull \<and> json_depth r < max_depth"

definition denied :: "int32 \<Rightarrow> http_response res \<Rightarrow> bool" where
  "denied i reply \<longleftrightarrow> (\<exists>resp code msg. reply = Inr resp \<and> code \<noteq> 0 \<and> valid_utf8 msg \<and>
     Body resp = render (error_response i code msg))"

definition lost :: "http_response res \<Rightarrow> bool" where
  "lost reply \<longleftrightarrow> (case reply of Inl _ \<Rightarrow> True | Inr resp \<Rightarrow> 400 \<le> StatusCode resp)"

text \<open>A call took effect when it was answered as done, and it may have done so when its answer was lost.\<close>

definition took_effect :: "('w \<Rightarrow> subsystems) \<Rightarrow> int32 \<Rightarrow> json \<Rightarrow> http_response res \<Rightarrow> 'w \<Rightarrow> 'w \<Rightarrow> bool" where
  "took_effect subs i r reply w w' \<longleftrightarrow> executed i r reply \<or> lost reply \<and> subs w' \<noteq> subs w"

text \<open>The parameters the driver sends, read off the JSON value.\<close>

fun member :: "json \<Rightarrow> string \<Rightarrow> json option" where
  "member (JObj ms) k = map_of ms k"
| "member _ k = None"

fun as_string :: "json \<Rightarrow> string" where
  "as_string (JStr s) = s"
| "as_string _ = []"

definition str_member :: "json \<Rightarrow> string \<Rightarrow> string" where
  "str_member v k = (case member v k of None \<Rightarrow> [] | Some x \<Rightarrow> as_string x)"

definition sub_member :: "json \<Rightarrow> string \<Rightarrow> json" where
  "sub_member v k = (case member v k of None \<Rightarrow> JNull | Some x \<Rightarrow> x)"

definition listen_address :: "json \<Rightarrow> listener_result" where
  "listen_address v =
     \<lparr>TrType = str_member v ''trtype'', AdrFam = str_member v ''adrfam'',
      TrAddr = str_member v ''traddr'', TrSvcID = str_member v ''trsvcid''\<rparr>"

definition listener_json :: "listener_result \<Rightarrow> json" where
  "listener_json l = JObj [(''address'', JObj
     [(''trtype'', JStr (TrType l)), (''adrfam'', JStr (AdrFam l)),
      (''traddr'', JStr (TrAddr l)), (''trsvcid'', JStr (TrSvcID l))]), (''ana_state'', JStr ''optimized'')]"

abbreviation exchange ::
    "'w http_env \<Rightarrow> rpcClient \<Rightarrow> int32 \<Rightarrow> string \<Rightarrow> json option \<Rightarrow> 'w \<Rightarrow> http_response res \<times> 'w" where
  "exchange env client i m args w \<equiv> run_state (ht_Do env (rpc_http client i m args)) w"

definition changing :: "string \<Rightarrow> bool" where
  "changing m \<longleftrightarrow> m \<in> {''nvmf_create_subsystem'', ''nvmf_delete_subsystem'', ''nvmf_subsystem_add_ns'',
     ''nvmf_subsystem_remove_ns'', ''nvmf_subsystem_add_listener''}"

text \<open>
  The promises: a call is answered as done, or denied without an effect, or its answer is lost, and then it
  was done or not; only the calls named above change subsystems, each as documented.
\<close>

locale spdk_target =
  fixes env :: "'w http_env" and client :: rpcClient and subs :: "'w \<Rightarrow> subsystems"
  assumes url: "ht_NewRequest env (rpcURL client) = None"
    and answers: "request_ok i m args \<Longrightarrow> exchange env client i m args w = (reply, w') \<Longrightarrow>
      (\<exists>r. executed i r reply) \<or> denied i reply \<and> subs w' = subs w \<or> lost reply"
    and quiet: "request_ok i m args \<Longrightarrow> exchange env client i m args w = (reply, w') \<Longrightarrow>
      \<not> changing m \<Longrightarrow> subs w' = subs w"
    and create: "request_ok i ''nvmf_create_subsystem'' (Some v) \<Longrightarrow>
      exchange env client i ''nvmf_create_subsystem'' (Some v) w = (reply, w') \<Longrightarrow> took_effect subs i r reply w w' \<Longrightarrow>
      subs w (str_member v ''nqn'') = None \<and> subs w' = (subs w)(str_member v ''nqn'' \<mapsto> empty_subsystem)"
    and delete: "request_ok i ''nvmf_delete_subsystem'' (Some v) \<Longrightarrow>
      exchange env client i ''nvmf_delete_subsystem'' (Some v) w = (reply, w') \<Longrightarrow> took_effect subs i r reply w w' \<Longrightarrow>
      subs w' = (subs w)(str_member v ''nqn'' := None)"
    and add_ns: "request_ok i ''nvmf_subsystem_add_ns'' (Some v) \<Longrightarrow>
      exchange env client i ''nvmf_subsystem_add_ns'' (Some v) w = (reply, w') \<Longrightarrow> took_effect subs i r reply w w' \<Longrightarrow>
      \<exists>ss nsid. subs w (str_member v ''nqn'') = Some ss \<and> (executed i r reply \<longrightarrow> r = JNum (FormatInt (sint (nsid :: int64)))) \<and>
        subs w' = (subs w)(str_member v ''nqn'' \<mapsto> ss\<lparr>ss_namespaces := ss_namespaces ss @
          [(nsid, str_member (sub_member v ''namespace'') ''bdev_name'')]\<rparr>)"
    and remove_ns: "request_ok i ''nvmf_subsystem_remove_ns'' (Some v) \<Longrightarrow>
      exchange env client i ''nvmf_subsystem_remove_ns'' (Some v) w = (reply, w') \<Longrightarrow> took_effect subs i r reply w w' \<Longrightarrow>
      \<exists>ss. subs w (str_member v ''nqn'') = Some ss \<and>
        subs w' = (subs w)(str_member v ''nqn'' \<mapsto> ss\<lparr>ss_namespaces :=
          filter (\<lambda>n. Some (JNum (FormatInt (sint (fst n)))) \<noteq> member v ''nsid'') (ss_namespaces ss)\<rparr>)"
    and add_listener: "request_ok i ''nvmf_subsystem_add_listener'' (Some v) \<Longrightarrow>
      exchange env client i ''nvmf_subsystem_add_listener'' (Some v) w = (reply, w') \<Longrightarrow> took_effect subs i r reply w w' \<Longrightarrow>
      \<exists>ss. subs w (str_member v ''nqn'') = Some ss \<and>
        subs w' = (subs w)(str_member v ''nqn'' \<mapsto> ss\<lparr>ss_listeners := ss_listeners ss @
          [listen_address (sub_member v ''listen_address'')]\<rparr>)"
    and get_listeners: "request_ok i ''nvmf_subsystem_get_listeners'' (Some v) \<Longrightarrow>
      exchange env client i ''nvmf_subsystem_get_listeners'' (Some v) w = (reply, w') \<Longrightarrow> executed i r reply \<Longrightarrow>
      \<exists>ss. subs w (str_member v ''nqn'') = Some ss \<and> r = JArr (map listener_json (ss_listeners ss))"

definition listener_ok :: "listener_result \<Rightarrow> bool" where
  "listener_ok l \<longleftrightarrow> valid_utf8 (TrType l) \<and> valid_utf8 (AdrFam l) \<and> valid_utf8 (TrAddr l) \<and> valid_utf8 (TrSvcID l)"

text \<open>A target that lists the listeners of a subsystem that exists when it is asked.\<close>

locale spdk_serves = spdk_target +
  assumes listeners_done: "request_ok i ''nvmf_subsystem_get_listeners'' (Some v) \<Longrightarrow>
      subs w (str_member v ''nqn'') = Some ss \<Longrightarrow> list_all listener_ok (ss_listeners ss) \<Longrightarrow>
      \<exists>r. executed i r (fst (exchange env client i ''nvmf_subsystem_get_listeners'' (Some v) w))"

section \<open>What a call reports\<close>

lemma dec_refused:
  "find_field (rpc_response_fields d) ''error'' = Some (field (dec_struct rpc_error_fields) resp_Error resp_Error_update)"
  "find_field rpc_error_fields ''code'' = Some (field dec_int err_Code err_Code_update)"
  "find_field rpc_error_fields ''message'' = Some (field dec_string err_Message err_Message_update)"
  by (simp_all add: find_field_def rpc_response_fields_def rpc_error_fields_def)

lemma dec_error_response:
  "dec_struct (rpc_response_fields d) (error_response i code msg) (empty_response x) =
    ((empty_response x)\<lparr>resp_ID := i, resp_Error := \<lparr>err_Code = code, err_Message = msg\<rparr>\<rparr>, False)"
  by (simp add: dec_struct_def error_response_def find_response_fields dec_refused field_def empty_response_def
      dec_string_def)

lemma error_response_ok: "valid_utf8 msg \<Longrightarrow> json_wf (error_response i code msg) \<and> json_depth (error_response i code msg) \<le> max_depth"
  by (simp add: error_response_def valid_utf8_ascii)

text \<open>
  A call that was denied or whose answer was lost reports an error, and an executed one the decoded result,
  whatever it is decoded into.
\<close>

lemma call_failed: "denied i reply \<or> lost reply \<Longrightarrow> snd (call_reply m i d x reply) \<noteq> None"
  by (auto simp: denied_def lost_def call_reply_def json_Decode_render error_response_ok dec_error_response json_finish_def
      split: sum.splits)

lemma call_executed:
  assumes "executed i r reply"
  shows "call_reply m i d x reply =
    (fst (d r x), if snd (d r x) then Some (Wrapf (m @ '': '') json_type_error) else None)"
  using assms
  by (auto simp: executed_def call_reply_def json_Decode_render ok_response_wf dec_ok_response json_finish_def Let_def
      ok_response_def [THEN arg_cong, of json_depth] )

lemma valid_utf8_ascii_append:
  "\<forall>c \<in> set p. of_char c < (0x80 :: nat) \<Longrightarrow> valid_utf8 s \<Longrightarrow> valid_utf8 (p @ s)"
  by (induction p) (simp_all add: valid_utf8.simps(2) rune_size_def byte_in_def)

lemma valid_nqn [simp]: "valid_utf8 lvolID \<Longrightarrow> valid_utf8 (getVolumeNqn lvolID)"
  unfolding getVolumeNqn_def getVolumeModel_def by (rule valid_utf8_ascii_append) simp_all

text \<open>The strings of a node that go into requests.\<close>

definition node_ok :: "nodeNVMf \<Rightarrow> string \<Rightarrow> bool" where
  "node_ok node lvolID \<longleftrightarrow> valid_utf8 lvolID \<and> valid_utf8 (nd_targetType node) \<and>
     valid_utf8 (nd_targetAddr node) \<and> valid_utf8 (nd_targetPort node)"

lemmas request_simps = request_ok_def request_json_def valid_utf8_ascii str_member_def sub_member_def getVolumeModel_def

definition node_listener :: "nodeNVMf \<Rightarrow> listener_result" where
  "node_listener node =
     \<lparr>TrType = nd_targetType node, AdrFam = cfgAddrFamily, TrAddr = nd_targetAddr node, TrSvcID = nd_targetPort node\<rparr>"

lemma listens_iff: "listens node ls \<longleftrightarrow> node_listener node \<in> set ls"
  by (induction ls) (auto simp: node_listener_def)

lemma dec_listeners:
  "dec_slice \<lparr>TrType = [], AdrFam = [], TrAddr = [], TrSvcID = []\<rparr> (dec_struct listener_fields)
     (JArr (map listener_json ls)) [] = (ls, False)"
proof -
  have "dec_struct listener_fields (listener_json l) x = (l, False)" for l x
    by (cases l) (simp add: listener_json_def listener_fields_def address_fields_def dec_struct_def find_field_def
        field_def dec_string_def lower_byte_def HasPrefix_def char_of_eq_iff)
  then have "dec_elems \<lparr>TrType = [], AdrFam = [], TrAddr = [], TrSvcID = []\<rparr> (dec_struct listener_fields)
     (map listener_json ls) xs = (ls, False)" for xs
    by (induction ls arbitrary: xs) (simp_all add: Let_def)
  then show ?thesis by (simp add: dec_slice_def)
qed

section \<open>The operations of the node on the subsystems\<close>

text \<open>At most one subsystem, which exists, was changed, and it still exists.\<close>

definition touched :: "string \<Rightarrow> subsystems \<Rightarrow> subsystems \<Rightarrow> bool" where
  "touched k m m' \<longleftrightarrow> m' = m \<or> (\<exists>ss ss'. m k = Some ss \<and> m' = m(k \<mapsto> ss'))"

context spdk_target
begin

text \<open>One call: not done; done with the answer lost; or executed, and then the error is that of the decoding.\<close>

lemma call_target:
  assumes "run_state (call env client m args d x) s = ((y, err), s')" and "\<And>i. request_ok i m args"
  obtains (not_done) "err \<noteq> None" "subs (rw_ext s') = subs (rw_ext s)"
    | (unheard) reply where "err \<noteq> None" "exchange env client (rw_rpcID s + 1) m args (rw_ext s) = (reply, rw_ext s')"
      "lost reply" "\<And>r. took_effect subs (rw_rpcID s + 1) r reply (rw_ext s) (rw_ext s')"
    | (acted) r reply where "exchange env client (rw_rpcID s + 1) m args (rw_ext s) = (reply, rw_ext s')"
      "executed (rw_rpcID s + 1) r reply" "took_effect subs (rw_rpcID s + 1) r reply (rw_ext s) (rw_ext s')"
      "y = fst (d r x)" "err = None \<longleftrightarrow> \<not> snd (d r x)"
proof -
  obtain reply w where e: "exchange env client (rw_rpcID s + 1) m args (rw_ext s) = (reply, w)" by fastforce
  with assms(1) have y: "(y, err) = call_reply m (rw_rpcID s + 1) d x reply" and w: "w = rw_ext s'"
    by (auto simp: run_call [OF url] Let_def)
  have bad: "err \<noteq> None" if "denied (rw_rpcID s + 1) reply \<or> lost reply"
    using call_failed [OF that, of m d x] y by (metis snd_conv)
  from answers [OF assms(2) e] show ?thesis
  proof (elim disjE conjE exE)
    fix r assume x: "executed (rw_rpcID s + 1) r reply"
    then show ?thesis
      using acted [OF e [unfolded w] x] y call_executed [OF x, of m d x] by (simp add: took_effect_def)
  next
    assume "denied (rw_rpcID s + 1) reply" "subs w = subs (rw_ext s)"
    with bad w show ?thesis by (intro not_done) simp_all
  next
    assume l: "lost reply"
    show ?thesis
    proof (cases "subs w = subs (rw_ext s)")
      case True
      with bad l w show ?thesis by (intro not_done) simp_all
    next
      case False
      with l w have "took_effect subs (rw_rpcID s + 1) r reply (rw_ext s) (rw_ext s')" for r by (simp add: took_effect_def)
      with bad l show ?thesis by (intro unheard [OF _ e [unfolded w]]) simp_all
    qed
  qed
qed

lemma call_nil_target:
  assumes "run_state (call_nil env client m args) s = (err, s')" and "\<And>i. request_ok i m args"
  obtains (not_done) "err \<noteq> None" "subs (rw_ext s') = subs (rw_ext s)"
    | (unheard) reply where "err \<noteq> None" "exchange env client (rw_rpcID s + 1) m args (rw_ext s) = (reply, rw_ext s')"
      "lost reply" "\<And>r. took_effect subs (rw_rpcID s + 1) r reply (rw_ext s) (rw_ext s')"
    | (acted) r reply where "exchange env client (rw_rpcID s + 1) m args (rw_ext s) = (reply, rw_ext s')"
      "took_effect subs (rw_rpcID s + 1) r reply (rw_ext s) (rw_ext s')" "err = None"
proof -
  from assms(1) obtain y where "run_state (call env client m args dec_ignore ()) s = ((y, err), s')"
    by (auto simp: call_nil_def Let_def split: prod.splits)
  then show ?thesis
    by (rule call_target [OF _ assms(2)]) (auto simp: dec_ignore_def intro: that)
qed

lemma call_quiet:
  assumes "\<And>i. request_ok i m args" "\<not> changing m"
  shows "subs (rw_ext (snd (run_state (call env client m args d x) s))) = subs (rw_ext s)"
  using quiet [OF assms(1) prod.collapse [symmetric] assms(2)]
  by (simp add: run_call [OF url] Let_def case_prod_beta)

text \<open>Each operation of the node, on the subsystems \<open>subs (rw_ext s)\<close>.\<close>

lemma createSubsystem_target:
  assumes "run_state (createSubsystem env node lvolID) s = (err, s')" "nd_client node = client" "node_ok node lvolID"
  shows "if err = None
    then subs (rw_ext s) (getVolumeNqn lvolID) = None \<and>
      subs (rw_ext s') = (subs (rw_ext s))(getVolumeNqn lvolID \<mapsto> empty_subsystem)
    else subs (rw_ext s') = subs (rw_ext s) \<or>
      subs (rw_ext s) (getVolumeNqn lvolID) = None \<and>
      subs (rw_ext s') = (subs (rw_ext s))(getVolumeNqn lvolID \<mapsto> empty_subsystem) \<and>
      (\<exists>args. lost (fst (exchange env client (rw_rpcID s + 1) ''nvmf_create_subsystem'' args (rw_ext s))))"
proof -
  let ?v = "JObj [(''nqn'', JStr (getVolumeNqn lvolID)), (''allow_any_host'', JBool cfgAllowAnyHost),
      (''serial_number'', JStr ''spdkcsi-sn''), (''model_number'', JStr (getVolumeModel lvolID))]"
  have ok: "request_ok i ''nvmf_create_subsystem'' (Some ?v)" for i
    using assms(3) by (simp add: request_simps node_ok_def)
  have nqn: "str_member ?v ''nqn'' = getVolumeNqn lvolID" by (simp add: str_member_def)
  from assms(1,2) have "run_state (call_nil env client ''nvmf_create_subsystem'' (Some ?v)) s = (err, s')"
    by (simp add: createSubsystem_def)
  then show ?thesis
    by (rule call_nil_target [OF _ ok]) (use create [OF ok, unfolded nqn] in \<open>auto intro: exI [of _ "Some ?v"]\<close>)
qed

lemma deleteSubsystem_target:
  assumes "run_state (deleteSubsystem env node lvolID) s = (err, s')" "nd_client node = client" "node_ok node lvolID"
  shows "if err = None then subs (rw_ext s') = (subs (rw_ext s))(getVolumeNqn lvolID := None)
    else subs (rw_ext s') = subs (rw_ext s) \<or> subs (rw_ext s') = (subs (rw_ext s))(getVolumeNqn lvolID := None)"
proof -
  let ?v = "JObj [(''nqn'', JStr (getVolumeNqn lvolID))]"
  have ok: "request_ok i ''nvmf_delete_subsystem'' (Some ?v)" for i
    using assms(3) by (simp add: request_simps node_ok_def)
  have nqn: "str_member ?v ''nqn'' = getVolumeNqn lvolID" by (simp add: str_member_def)
  from assms(1,2) have "run_state (call_nil env client ''nvmf_delete_subsystem'' (Some ?v)) s = (err, s')"
    by (simp add: deleteSubsystem_def)
  then show ?thesis
    by (rule call_nil_target [OF _ ok]) (use delete [OF ok, unfolded nqn] in auto)
qed

lemma subsystemAddNs_target:
  assumes "run_state (subsystemAddNs env node lvolID) s = ((n, err), s')" "nd_client node = client" "node_ok node lvolID"
  shows "if err = None
    then \<exists>ss. subs (rw_ext s) (getVolumeNqn lvolID) = Some ss \<and>
      subs (rw_ext s') = (subs (rw_ext s))(getVolumeNqn lvolID \<mapsto> ss\<lparr>ss_namespaces := ss_namespaces ss @ [(n, lvolID)]\<rparr>)
    else touched (getVolumeNqn lvolID) (subs (rw_ext s)) (subs (rw_ext s'))"
proof -
  let ?v = "JObj [(''nqn'', JStr (getVolumeNqn lvolID)), (''namespace'', JObj [(''bdev_name'', JStr lvolID)])]"
  have ok: "request_ok i ''nvmf_subsystem_add_ns'' (Some ?v)" for i
    using assms(3) by (simp add: request_simps node_ok_def)
  have v: "str_member ?v ''nqn'' = getVolumeNqn lvolID"
    "str_member (sub_member ?v ''namespace'') ''bdev_name'' = lvolID" by (simp_all add: str_member_def sub_member_def)
  from assms(1,2) have "run_state (call env client ''nvmf_subsystem_add_ns'' (Some ?v) dec_int 0) s = ((n, err), s')"
    by (simp add: subsystemAddNs_def)
  then show ?thesis
  proof (rule call_target [OF _ ok])
    fix reply assume u: "err \<noteq> None" "exchange env client (rw_rpcID s + 1) ''nvmf_subsystem_add_ns'' (Some ?v) (rw_ext s) = (reply, rw_ext s')"
      "\<And>r. took_effect subs (rw_rpcID s + 1) r reply (rw_ext s) (rw_ext s')"
    from add_ns [OF ok u(2,3), unfolded v] u(1) show ?thesis by (auto simp: touched_def)
  next
    fix r reply assume a: "exchange env client (rw_rpcID s + 1) ''nvmf_subsystem_add_ns'' (Some ?v) (rw_ext s) = (reply, rw_ext s')"
      "executed (rw_rpcID s + 1) r reply" "took_effect subs (rw_rpcID s + 1) r reply (rw_ext s) (rw_ext s')"
      "n = fst (dec_int r 0)" "(err = None) = (\<not> snd (dec_int r (0 :: int64)))"
    from add_ns [OF ok a(1,3), unfolded v] a(2,4,5) show ?thesis by auto
  qed (auto simp: touched_def)
qed

lemma subsystemAddListener_target:
  assumes "run_state (subsystemAddListener env node lvolID) s = (err, s')" "nd_client node = client" "node_ok node lvolID"
  shows "if err = None
    then \<exists>ss. subs (rw_ext s) (getVolumeNqn lvolID) = Some ss \<and>
      subs (rw_ext s') = (subs (rw_ext s))(getVolumeNqn lvolID \<mapsto> ss\<lparr>ss_listeners := ss_listeners ss @ [node_listener node]\<rparr>)
    else touched (getVolumeNqn lvolID) (subs (rw_ext s)) (subs (rw_ext s'))"
proof -
  let ?v = "JObj [(''nqn'', JStr (getVolumeNqn lvolID)), (''listen_address'', JObj
        [(''trtype'', JStr (nd_targetType node)), (''adrfam'', JStr cfgAddrFamily),
         (''traddr'', JStr (nd_targetAddr node)), (''trsvcid'', JStr (nd_targetPort node))])]"
  have ok: "request_ok i ''nvmf_subsystem_add_listener'' (Some ?v)" for i
    using assms(3) by (simp add: request_simps node_ok_def)
  have v: "str_member ?v ''nqn'' = getVolumeNqn lvolID"
    "listen_address (sub_member ?v ''listen_address'') = node_listener node"
    by (simp_all add: str_member_def sub_member_def listen_address_def node_listener_def)
  from assms(1,2) have "run_state (call_nil env client ''nvmf_subsystem_add_listener'' (Some ?v)) s = (err, s')"
    by (simp add: subsystemAddListener_def)
  then show ?thesis
    by (rule call_nil_target [OF _ ok]) (auto simp: touched_def dest: add_listener [OF ok, unfolded v])
qed

text \<open>Removing the namespace touches at most the subsystem of the volume, and does not delete it.\<close>

lemma subsystemRemoveNs_target:
  assumes "run_state (subsystemRemoveNs env node lvolID) s = (err, s')" "nd_client node = client" "node_ok node lvolID"
  shows "touched (getVolumeNqn lvolID) (subs (rw_ext s)) (subs (rw_ext s'))"
proof -
  have list_ok: "request_ok i ''nvmf_get_subsystems'' None" "\<not> changing ''nvmf_get_subsystems''" for i
    by (simp_all add: request_simps changing_def)
  have get: "subs (rw_ext (snd (run_state (subsystemGetNsID env node lvolID) s))) = subs (rw_ext s)"
    using assms(2) by (simp add: subsystemGetNsID_def call_quiet [OF list_ok] case_prod_beta Let_def split: option.split)
  obtain r s1 where run: "run_state (subsystemGetNsID env node lvolID) s = (r, s1)" by fastforce
  show ?thesis
  proof (cases r)
    case (Inl e)
    with assms(1) run get show ?thesis by (simp add: subsystemRemoveNs_def touched_def)
  next
    case (Inr n)
    let ?v = "JObj [(''nqn'', JStr (getVolumeNqn lvolID)), (''nsid'', JNum (FormatInt (sint n)))]"
    have ok: "request_ok i ''nvmf_subsystem_remove_ns'' (Some ?v)" for i
      using assms(3) by (simp add: request_simps node_ok_def)
    have v: "str_member ?v ''nqn'' = getVolumeNqn lvolID" by (simp add: str_member_def)
    from assms(1,2) run Inr have "run_state (call_nil env client ''nvmf_subsystem_remove_ns'' (Some ?v)) s1 = (err, s')"
      by (simp add: subsystemRemoveNs_def)
    then show ?thesis
      by (rule call_nil_target [OF _ ok]) (use remove_ns [OF ok, unfolded v] get run in \<open>fastforce simp: touched_def\<close>)+
  qed
qed

text \<open>The calls that only look, and the creation of the transport.\<close>

lemma createTransport_target:
  assumes "run_state (createTransport env node) s = (err, s')" "nd_client node = client" "node_ok node lvolID"
  shows "subs (rw_ext s') = subs (rw_ext s)"
proof -
  let ?a = "Some (JObj [(''trtype'', JStr (nd_targetType node))])"
  have ok: "request_ok i ''nvmf_create_transport'' ?a" "\<not> changing ''nvmf_create_transport''" for i
    using assms(3) by (simp_all add: request_simps node_ok_def changing_def)
  obtain e s1 where run: "run_state (call_nil env client ''nvmf_create_transport'' ?a) s = (e, s1)" by fastforce
  then have "subs (rw_ext s1) = subs (rw_ext s)"
    using call_quiet [OF ok, of dec_ignore "()" s] by (auto simp: call_nil_def case_prod_beta Let_def)
  with assms(1,2) run show ?thesis by (auto simp: createTransport_def split: if_splits option.splits)
qed

lemma isVolumeCreated_target:
  assumes "run_state (isVolumeCreated env client lvolID) s = (r, s')" "node_ok node lvolID"
  shows "subs (rw_ext s') = subs (rw_ext s)"
proof -
  have ok: "request_ok i ''bdev_get_bdevs'' (Some (JObj [(''name'', JStr lvolID)]))" "\<not> changing ''bdev_get_bdevs''" for i
    using assms(2) by (simp_all add: request_simps node_ok_def changing_def)
  have "subs (rw_ext (snd (run_state (getVolume env client lvolID) s))) = subs (rw_ext s)"
    by (simp add: getVolume_def call_quiet [OF ok] case_prod_beta Let_def split: list.split)
  with assms(1) show ?thesis
    by (auto simp: isVolumeCreated_def run_and_then split: prod.splits ret.splits sum.splits if_splits)
qed

lemma isVolumePublished_target:
  assumes "run_state (isVolumePublished env node lvolID) s = (r, s')" "nd_client node = client" "node_ok node lvolID"
  shows "subs (rw_ext s') = subs (rw_ext s) \<and>
    (r = Inr True \<longrightarrow> (\<exists>ss. subs (rw_ext s) (getVolumeNqn lvolID) = Some ss \<and> node_listener node \<in> set (ss_listeners ss)))"
proof -
  let ?v = "JObj [(''nqn'', JStr (getVolumeNqn lvolID))]" and
    ?d = "dec_slice \<lparr>TrType = [], AdrFam = [], TrAddr = [], TrSvcID = []\<rparr> (dec_struct listener_fields)"
  have ok: "request_ok i ''nvmf_subsystem_get_listeners'' (Some ?v)" for i
    using assms(3) by (simp add: request_simps node_ok_def)
  have v: "str_member ?v ''nqn'' = getVolumeNqn lvolID" by (simp add: str_member_def)
  obtain y err where run: "run_state (call env client ''nvmf_subsystem_get_listeners'' (Some ?v) ?d []) s = ((y, err), s')"
    and r: "err = None \<Longrightarrow> r = Inr (listens node y)" "err \<noteq> None \<Longrightarrow> r \<noteq> Inr True"
    using assms(1,2) by (auto simp: isVolumePublished_def Let_def split: prod.splits option.splits if_splits)
  have same: "subs (rw_ext s') = subs (rw_ext s)"
    using call_quiet [OF ok, of ?d "[]" s] run by (simp add: changing_def)
  show ?thesis
  proof (rule call_target [OF run ok])
    assume "err \<noteq> None"
    with same r show ?thesis by simp
  next
    assume "err \<noteq> None"
    with same r show ?thesis by simp
  next
    fix q reply assume "exchange env client (rw_rpcID s + 1) ''nvmf_subsystem_get_listeners'' (Some ?v) (rw_ext s) = (reply, rw_ext s')"
      and "executed (rw_rpcID s + 1) q reply" and y: "y = fst (?d q [])" "(err = None) = (\<not> snd (?d q []))"
    then obtain ss where "subs (rw_ext s) (getVolumeNqn lvolID) = Some ss" "q = JArr (map listener_json (ss_listeners ss))"
      using get_listeners [OF ok, unfolded v] by blast
    with same y r show ?thesis by (simp add: dec_listeners listens_iff)
  qed
qed

text \<open>The state after an export that succeeded, and after one that failed.\<close>

lemma export_volume_done:
  assumes "run_state (export_volume env node lvolID) s = (None, s')" "nd_client node = client" "node_ok node lvolID"
  shows "subs (rw_ext s) (getVolumeNqn lvolID) = None \<and> (\<exists>n. subs (rw_ext s') = (subs (rw_ext s))
    (getVolumeNqn lvolID \<mapsto> \<lparr>ss_namespaces = [(n, lvolID)], ss_listeners = [node_listener node]\<rparr>))"
proof -
  from assms(1) obtain s1 s2 n s3 where
    t: "run_state (createTransport env node) s = (None, s1)" and
    c: "run_state (createSubsystem env node lvolID) s1 = (None, s2)" and
    a: "run_state (subsystemAddNs env node lvolID) s2 = ((n, None), s3)" and
    l: "run_state (subsystemAddListener env node lvolID) s3 = (None, s')"
    by (auto simp: export_volume_def Let_def split: prod.splits option.splits)
  show ?thesis
    using createTransport_target [OF t assms(2,3)] createSubsystem_target [OF c assms(2,3)]
      subsystemAddNs_target [OF a assms(2,3)] subsystemAddListener_target [OF l assms(2,3)]
    by (auto simp: empty_subsystem_def)
qed

text \<open>
  Where a failed export ends: with nothing created; with a subsystem created and the answer to that lost; or
  with the deletion of the subsystem.
\<close>

lemma export_volume_failed:
  assumes "run_state (export_volume env node lvolID) s = (Some e, s')" "nd_client node = client" "node_ok node lvolID"
  obtains (nothing) "subs (rw_ext s') = subs (rw_ext s)"
    | (unheard) s1 where "subs (rw_ext s1) = subs (rw_ext s)" "subs (rw_ext s) (getVolumeNqn lvolID) = None"
      "run_state (createSubsystem env node lvolID) s1 = (Some e, s')"
      "subs (rw_ext s') = (subs (rw_ext s))(getVolumeNqn lvolID \<mapsto> empty_subsystem)"
      "\<exists>args. lost (fst (exchange env client (rw_rpcID s1 + 1) ''nvmf_create_subsystem'' args (rw_ext s1)))"
    | (deleted) s4 ss err where "subs (rw_ext s) (getVolumeNqn lvolID) = None"
      "subs (rw_ext s4) = (subs (rw_ext s))(getVolumeNqn lvolID \<mapsto> ss)"
      "run_state (deleteSubsystem env node lvolID) s4 = (err, s')"
proof -
  obtain terr s1 where t: "run_state (createTransport env node) s = (terr, s1)" by fastforce
  obtain cerr s2 where c: "run_state (createSubsystem env node lvolID) s1 = (cerr, s2)" by fastforce
  obtain n aerr s3 where a: "run_state (subsystemAddNs env node lvolID) s2 = ((n, aerr), s3)" by (metis prod.collapse)
  obtain lerr s4 where l: "run_state (subsystemAddListener env node lvolID) s3 = (lerr, s4)" by fastforce
  obtain rerr s5 where r: "run_state (subsystemRemoveNs env node lvolID) s4 = (rerr, s5)" by fastforce
  note effects = createTransport_target [OF t assms(2,3)] createSubsystem_target [OF c assms(2,3)]
    subsystemAddNs_target [OF a assms(2,3)] subsystemAddListener_target [OF l assms(2,3)]
    subsystemRemoveNs_target [OF r assms(2,3)]
  consider "terr \<noteq> None" "s' = s1" | "terr = None" "cerr = Some e" "s' = s2" | "terr = None" "cerr = None"
    using assms(1) t c by (cases terr; cases cerr) (auto simp: export_volume_def)
  then show ?thesis
  proof cases
    case 1
    with effects(1) have "subs (rw_ext s') = subs (rw_ext s)" by simp
    then show ?thesis by (rule nothing)
  next
    case 2
    with effects(1,2) consider "subs (rw_ext s') = subs (rw_ext s)" | "subs (rw_ext s) (getVolumeNqn lvolID) = None"
        "subs (rw_ext s') = (subs (rw_ext s))(getVolumeNqn lvolID \<mapsto> empty_subsystem)"
        "\<exists>args. lost (fst (exchange env client (rw_rpcID s1 + 1) ''nvmf_create_subsystem'' args (rw_ext s1)))" by auto
    then show ?thesis
    proof cases
      case 1
      then show ?thesis by (rule nothing)
    next
      case found: 2
      with 2 c effects(1) show ?thesis by (intro unheard [of s1]) simp_all
    qed
  next
    case 3
    then have s2: "subs (rw_ext s) (getVolumeNqn lvolID) = None"
      "subs (rw_ext s2) = (subs (rw_ext s))(getVolumeNqn lvolID \<mapsto> empty_subsystem)"
      using effects(1,2) by simp_all
    then obtain ss where s3: "subs (rw_ext s3) = (subs (rw_ext s))(getVolumeNqn lvolID \<mapsto> ss)"
      using effects(3) by (auto simp: touched_def split: if_splits)
    show ?thesis
    proof (cases aerr)
      case (Some e')
      then have "run_state (deleteSubsystem env node lvolID) s3 = (fst (run_state (deleteSubsystem env node lvolID) s3), s')"
        using assms(1) 3 by (auto simp: export_volume_def t c a Let_def split: prod.splits)
      with s3 show ?thesis by (rule deleted [OF s2(1)])
    next
      case None
      from assms(1) 3 None obtain e' where lerr: "lerr = Some e'"
        by (cases lerr) (auto simp: export_volume_def t c a l)
      then have "run_state (deleteSubsystem env node lvolID) s5 = (fst (run_state (deleteSubsystem env node lvolID) s5), s')"
        using assms(1) 3 None by (auto simp: export_volume_def t c a l r Let_def split: prod.splits)
      moreover from s3 lerr effects(4,5) obtain ss' where
        "subs (rw_ext s5) = (subs (rw_ext s))(getVolumeNqn lvolID \<mapsto> ss')" by (auto simp: touched_def)
      ultimately show ?thesis using deleted [OF s2(1)] by blast
    qed
  qed
qed

lemma unexport_volume_done:
  assumes "run_state (unexport_volume env node lvolID) s = (None, s')" "nd_client node = client" "node_ok node lvolID"
  shows "subs (rw_ext s') = (subs (rw_ext s))(getVolumeNqn lvolID := None)"
proof -
  obtain rerr s1 where r: "run_state (subsystemRemoveNs env node lvolID) s = (rerr, s1)" by fastforce
  with assms(1) have d: "run_state (deleteSubsystem env node lvolID) s1 = (None, s')"
    by (auto simp: unexport_volume_def Let_def split: prod.splits option.splits)
  from subsystemRemoveNs_target [OF r assms(2,3)] deleteSubsystem_target [OF d assms(2,3)] show ?thesis
    by (auto simp: touched_def)
qed

text \<open>Publishing and unpublishing look first; only then is anything changed.\<close>

lemma PublishVolume_target:
  assumes "run_state (PublishVolume env node lvolID) s = (r, s')" "nd_client node = client" "node_ok node lvolID"
  obtains (looked) "subs (rw_ext s') = subs (rw_ext s)" "r = Ret None \<Longrightarrow>
      \<exists>ss. subs (rw_ext s) (getVolumeNqn lvolID) = Some ss \<and> node_listener node \<in> set (ss_listeners ss)"
    | (exported) s2 err where "subs (rw_ext s2) = subs (rw_ext s)"
      "run_state (export_volume env node lvolID) s2 = (err, s')" "r = Ret err"
proof -
  obtain cr s1 where c: "run_state (isVolumeCreated env client lvolID) s = (cr, s1)" by fastforce
  obtain pr s2 where p: "run_state (isVolumePublished env node lvolID) s1 = (pr, s2)" by fastforce
  have same: "subs (rw_ext s1) = subs (rw_ext s)" "subs (rw_ext s2) = subs (rw_ext s)"
    using isVolumeCreated_target [OF c assms(3)] isVolumePublished_target [OF p assms(2,3)] by simp_all
  show ?thesis
  proof (cases "cr = Ret (Inr True) \<and> pr = Inr False")
    case True
    with assms(1,2) c p obtain err where "run_state (export_volume env node lvolID) s2 = (err, s')" "r = Ret err"
      by (cases "run_state (export_volume env node lvolID) s2") (auto simp: PublishVolume_def run_and_then run_safely)
    with same(2) show ?thesis by (rule exported)
  next
    case False
    with assms(1,2) c p have "(s' = s1 \<or> s' = s2) \<and> (r = Ret None \<longrightarrow> pr = Inr True)"
      by (auto simp: PublishVolume_def run_and_then run_safely split: ret.splits sum.splits if_splits)
    with same isVolumePublished_target [OF p assms(2,3)] show ?thesis by (intro looked) auto
  qed
qed

lemma UnpublishVolume_target:
  assumes "run_state (UnpublishVolume env node lvolID) s = (Ret None, s')" "nd_client node = client" "node_ok node lvolID"
  obtains (looked) s1 where "subs (rw_ext s1) = subs (rw_ext s)" "subs (rw_ext s') = subs (rw_ext s)"
      "run_state (isVolumePublished env node lvolID) s1 = (Inr False, s')"
    | (removed) "subs (rw_ext s') = (subs (rw_ext s))(getVolumeNqn lvolID := None)"
proof -
  obtain cr s1 where c: "run_state (isVolumeCreated env client lvolID) s = (cr, s1)" by fastforce
  obtain pr s2 where p: "run_state (isVolumePublished env node lvolID) s1 = (pr, s2)" by fastforce
  have same: "subs (rw_ext s1) = subs (rw_ext s)" "subs (rw_ext s2) = subs (rw_ext s)"
    using isVolumeCreated_target [OF c assms(3)] isVolumePublished_target [OF p assms(2,3)] by simp_all
  from assms(1,2) c p consider "pr = Inr False" "s' = s2"
    | "run_state (unexport_volume env node lvolID) s2 = (None, s')"
    by (auto simp: UnpublishVolume_def run_and_then run_safely prod_eq_iff split: ret.splits sum.splits if_splits)
  then show ?thesis
  proof cases
    case 1
    with same p show ?thesis by (intro looked [of s1]) simp_all
  next
    case 2
    from unexport_volume_done [OF this assms(2,3)] same show ?thesis by (intro removed) simp
  qed
qed

end

context spdk_serves
begin

text \<open>Whether a volume is published is whether its subsystem listens on the address of the node.\<close>

lemma isVolumePublished_existing:
  assumes "subs (rw_ext s) (getVolumeNqn lvolID) = Some ss" "list_all listener_ok (ss_listeners ss)"
    "nd_client node = client" "node_ok node lvolID"
  shows "fst (run_state (isVolumePublished env node lvolID) s) = Inr (node_listener node \<in> set (ss_listeners ss))"
proof -
  let ?v = "JObj [(''nqn'', JStr (getVolumeNqn lvolID))]"
  have ok: "request_ok i ''nvmf_subsystem_get_listeners'' (Some ?v)" for i
    using assms(4) by (simp add: request_simps node_ok_def)
  have v: "str_member ?v ''nqn'' = getVolumeNqn lvolID" by (simp add: str_member_def)
  obtain r reply w where e: "exchange env client (rw_rpcID s + 1) ''nvmf_subsystem_get_listeners'' (Some ?v) (rw_ext s) = (reply, w)"
    and x: "executed (rw_rpcID s + 1) r reply"
    using listeners_done [OF ok, unfolded v, OF assms(1,2)] by (metis prod.collapse)
  from get_listeners [OF ok e x] assms(1) v have "r = JArr (map listener_json (ss_listeners ss))" by simp
  with call_executed [OF x, of "''nvmf_subsystem_get_listeners''"
      "dec_slice \<lparr>TrType = [], AdrFam = [], TrAddr = [], TrSvcID = []\<rparr> (dec_struct listener_fields)" "[]"]
  show ?thesis using assms(3) e
    by (simp add: isVolumePublished_def run_call [OF url] dec_listeners listens_iff Let_def
        del: list.map listens.simps)
qed

lemma node_listener_ok: "node_ok node lvolID \<Longrightarrow> listener_ok (node_listener node)"
  by (simp add: listener_ok_def node_listener_def node_ok_def valid_utf8_ascii)

lemma isVolumePublished_listening:
  assumes "subs (rw_ext s) (getVolumeNqn lvolID) = Some ss" "ss_listeners ss = [node_listener node]"
    "nd_client node = client" "node_ok node lvolID"
  shows "fst (run_state (isVolumePublished env node lvolID) s) = Inr True"
  using isVolumePublished_existing [OF assms(1) _ assms(3,4)] assms(2) node_listener_ok [OF assms(4)] by simp

text \<open>What follows for a volume that exists and whose subsystem does.\<close>

lemma PublishVolume_existing:
  assumes "subs (rw_ext s) (getVolumeNqn lvolID) = Some ss" "list_all listener_ok (ss_listeners ss)"
    "nd_client node = client" "node_ok node lvolID"
    and created: "fst (run_state (isVolumeCreated env client lvolID) s) = Ret (Inr True)"
    and run: "run_state (PublishVolume env node lvolID) s = (r, s')"
  shows "subs (rw_ext s') = subs (rw_ext s)" and "r = Ret None \<longleftrightarrow> node_listener node \<in> set (ss_listeners ss)"
proof -
  obtain s1 where c: "run_state (isVolumeCreated env client lvolID) s = (Ret (Inr True), s1)"
    using created by (metis prod.collapse)
  obtain pr s2 where p: "run_state (isVolumePublished env node lvolID) s1 = (pr, s2)" by fastforce
  have same: "subs (rw_ext s1) = subs (rw_ext s)" "subs (rw_ext s2) = subs (rw_ext s)"
    using isVolumeCreated_target [OF c assms(4)] isVolumePublished_target [OF p assms(3,4)] by simp_all
  have pr: "pr = Inr (node_listener node \<in> set (ss_listeners ss))"
    using isVolumePublished_existing [of s1, OF _ assms(2-4)] same assms(1) p by simp
  have "subs (rw_ext s') = subs (rw_ext s) \<and> (r = Ret None \<longleftrightarrow> node_listener node \<in> set (ss_listeners ss))"
  proof (cases "node_listener node \<in> set (ss_listeners ss)")
    case True
    with run c p pr same assms(3) show ?thesis by (simp add: PublishVolume_def run_and_then run_safely)
  next
    case False
    obtain e t where x: "run_state (export_volume env node lvolID) s2 = (e, t)" by fastforce
    have e: "e \<noteq> None" using export_volume_done [of node lvolID s2 t] x assms(1,3,4) same(2) by auto
    then obtain e' where e': "e = Some e'" by blast
    with x have "subs (rw_ext t) = subs (rw_ext s)"
      using export_volume_failed [of node lvolID s2 e' t, OF _ assms(3,4)] same(2) assms(1) by (metis option.distinct(1))
    with False run c p pr x e' assms(3) show ?thesis by (auto simp: PublishVolume_def run_and_then run_safely)
  qed
  then show "subs (rw_ext s') = subs (rw_ext s)" and "r = Ret None \<longleftrightarrow> node_listener node \<in> set (ss_listeners ss)" by simp_all
qed

lemma UnpublishVolume_not_listening:
  assumes "subs (rw_ext s) (getVolumeNqn lvolID) = Some ss" "list_all listener_ok (ss_listeners ss)"
    "nd_client node = client" "node_ok node lvolID"
    and created: "fst (run_state (isVolumeCreated env client lvolID) s) = Ret (Inr True)"
    and none: "node_listener node \<notin> set (ss_listeners ss)"
    and run: "run_state (UnpublishVolume env node lvolID) s = (r, s')"
  shows "r = Ret None" and "subs (rw_ext s') = subs (rw_ext s)"
proof -
  obtain s1 where c: "run_state (isVolumeCreated env client lvolID) s = (Ret (Inr True), s1)"
    using created by (metis prod.collapse)
  obtain pr s2 where p: "run_state (isVolumePublished env node lvolID) s1 = (pr, s2)" by fastforce
  have same: "subs (rw_ext s1) = subs (rw_ext s)" "subs (rw_ext s2) = subs (rw_ext s)"
    using isVolumeCreated_target [OF c assms(4)] isVolumePublished_target [OF p assms(3,4)] by simp_all
  have "pr = Inr False"
    using isVolumePublished_existing [of s1, OF _ assms(2-4)] same assms(1) p none by simp
  with run c p same assms(3) show "r = Ret None" "subs (rw_ext s') = subs (rw_ext s)"
    by (simp_all add: UnpublishVolume_def run_and_then run_safely)
qed

end

end
