(* ===== verification/Spdk_Mem.thy ===== *)
theory Spdk_Mem
  imports Spdk_Target
begin

text \<open>
  A target in memory that reads the JSON text of the requests and answers them, on which the contract of
  \<open>Spdk_Target\<close> holds; and the properties of publishing and unpublishing a volume
  (\<^verbatim>\<open>PublishVolume\<close> and \<^verbatim>\<open>UnpublishVolume\<close> of \<^verbatim>\<open>pkg/util/nvmf.go\<close>).
\<close>

section \<open>A target in memory\<close>

record spdk_mem =
  sm_bdevs :: "string list"
  sm_subs :: subsystems
  sm_next :: int64

text \<open>The calls: an error message, or a result with the new state.\<close>

definition mem_lookup :: "json \<Rightarrow> spdk_mem \<Rightarrow> (subsystem \<Rightarrow> json \<times> subsystem option) \<Rightarrow> string + json \<times> spdk_mem" where
  "mem_lookup v w f = (case sm_subs w (str_member v ''nqn'') of
      None \<Rightarrow> Inl ''Invalid parameters''
    | Some ss \<Rightarrow> (case f ss of (r, new) \<Rightarrow> Inr (r, w\<lparr>sm_subs := (sm_subs w)(str_member v ''nqn'' := new)\<rparr>)))"

definition mem_exec :: "string \<Rightarrow> json \<Rightarrow> spdk_mem \<Rightarrow> string + json \<times> spdk_mem" where
  "mem_exec m v w =
     (if m = ''nvmf_create_subsystem'' then
        (case sm_subs w (str_member v ''nqn'') of
           Some _ \<Rightarrow> Inl ''Unable to create subsystem''
         | None \<Rightarrow> Inr (JBool True, w\<lparr>sm_subs := (sm_subs w)(str_member v ''nqn'' \<mapsto> empty_subsystem)\<rparr>))
      else if m = ''nvmf_delete_subsystem'' then mem_lookup v w (\<lambda>ss. (JBool True, None))
      else if m = ''nvmf_subsystem_add_ns'' then mem_lookup v w (\<lambda>ss.
        (JNum (FormatInt (sint (sm_next w))), Some (ss\<lparr>ss_namespaces := ss_namespaces ss @
          [(sm_next w, str_member (sub_member v ''namespace'') ''bdev_name'')]\<rparr>)))
      else if m = ''nvmf_subsystem_remove_ns'' then mem_lookup v w (\<lambda>ss.
        (JBool True, Some (ss\<lparr>ss_namespaces :=
          filter (\<lambda>n. Some (JNum (FormatInt (sint (fst n)))) \<noteq> member v ''nsid'') (ss_namespaces ss)\<rparr>)))
      else if m = ''nvmf_subsystem_add_listener'' then mem_lookup v w (\<lambda>ss.
        (JBool True, Some (ss\<lparr>ss_listeners := ss_listeners ss @ [listen_address (sub_member v ''listen_address'')]\<rparr>)))
      else if m = ''nvmf_subsystem_get_listeners'' then mem_lookup v w (\<lambda>ss.
        (JArr (map listener_json (ss_listeners ss)), Some ss))
      else if m = ''bdev_get_bdevs'' then
        (if str_member v ''name'' \<in> set (sm_bdevs w)
         then Inr (JArr [JObj [(''name'', JStr (str_member v ''name''))]], w) else Inl ''No such device'')
      else if m = ''nvmf_create_transport'' then Inr (JBool True, w)
      else Inl ''Method not found'')"

text \<open>The answer; \<open>fail\<close> lists methods that are refused.\<close>

definition mem_answer :: "string list \<Rightarrow> int32 \<Rightarrow> string \<Rightarrow> json \<Rightarrow> spdk_mem \<Rightarrow> http_response res \<times> spdk_mem" where
  "mem_answer fail i m v w =
     (case (if m \<in> set fail then Inl ''Internal error'' else mem_exec m v w) of
        Inl msg \<Rightarrow> (Inr \<lparr>StatusCode = 200, Body = render (error_response i (- 32603) msg)\<rparr>, w)
      | Inr (r, w') \<Rightarrow>
          if json_wf r then (Inr \<lparr>StatusCode = 200, Body = render (ok_response i r)\<rparr>, w')
          else (Inl (LibErr False ''EOF''), w))"

definition request_id :: "json \<Rightarrow> int32" where
  "request_id v = fst (dec_int (sub_member v ''id'') 0)"

definition mem_target :: "string list \<Rightarrow> spdk_mem http_env" where
  "mem_target fail = \<lparr>ht_NewRequest = (\<lambda>_. None), ht_Do = (\<lambda>req. State (\<lambda>w.
     case json_parse (hr_Body req) of
       None \<Rightarrow> (Inr \<lparr>StatusCode = 400, Body = []\<rparr>, w)
     | Some v \<Rightarrow> mem_answer fail (request_id v) (str_member v ''method'') (sub_member v ''params'') w))\<rparr>"

lemma exchange_mem:
  assumes "request_ok i m args"
  shows "exchange (mem_target fail) client i m args w =
    mem_answer fail i m (case args of None \<Rightarrow> JNull | Some v \<Rightarrow> v) w"
proof -
  have "json_parse (hr_Body (rpc_http client i m args)) = Some (request_json i m args)"
    using assms by (simp add: rpc_http_def request_ok_def json_parse_render)
  then show ?thesis
    by (simp add: mem_target_def request_id_def request_json_def str_member_def sub_member_def split: option.split)
qed

text \<open>An answer is of one kind only.\<close>

lemma response_ok: "json_wf r \<Longrightarrow> json_depth r < max_depth \<Longrightarrow> json_wf (ok_response i r) \<and> json_depth (ok_response i r) \<le> max_depth"
  by (simp add: ok_response_wf) (simp add: ok_response_def)

lemma executed_error:
  assumes "valid_utf8 msg"
  shows "\<not> executed i r (Inr \<lparr>StatusCode = c, Body = render (error_response i code msg)\<rparr>)"
proof
  assume e: "executed i r (Inr \<lparr>StatusCode = c, Body = render (error_response i code msg)\<rparr>)"
  then have "error_response i code msg = ok_response i r"
    using json_text.enc_inj [OF error_response_ok [OF assms] response_ok, of r i code i] by (auto simp: executed_def)
  then show False by (simp add: error_response_def ok_response_def)
qed

lemma executed_result:
  assumes "executed i r (Inr \<lparr>StatusCode = c, Body = render (ok_response i q)\<rparr>)" "json_wf q" "json_depth q < max_depth"
  shows "r = q"
proof -
  have "ok_response i q = ok_response i r"
    using assms json_text.enc_inj [OF response_ok [OF assms(2,3)] response_ok, of r i i] by (auto simp: executed_def)
  then show ?thesis by (simp add: ok_response_def)
qed

lemma depth_listeners: "depth_elems (map listener_json ls) \<le> 2"
  by (induction ls) (simp_all add: listener_json_def)

lemma mem_exec_depth: "mem_exec m v w = Inr (r, w') \<Longrightarrow> json_depth r < max_depth \<and> r \<noteq> JNull"
  using depth_listeners [THEN order.strict_trans1]
  by (auto simp: mem_exec_def mem_lookup_def split: if_splits option.splits)

lemma mem_exec_error: "mem_exec m v w = Inl msg \<Longrightarrow> valid_utf8 msg"
  by (auto simp: mem_exec_def mem_lookup_def valid_utf8_ascii split: if_splits option.splits)

text \<open>An executed call is one the target could perform.\<close>

lemma mem_executed:
  assumes "request_ok i m args" "exchange (mem_target fail) client i m args w = (reply, w')" "executed i r reply"
  shows "mem_exec m (case args of None \<Rightarrow> JNull | Some v \<Rightarrow> v) w = Inr (r, w')"
proof -
  let ?v = "case args of None \<Rightarrow> JNull | Some v \<Rightarrow> v"
  from assms have a: "mem_answer fail i m ?v w = (reply, w')" by (simp add: exchange_mem)
  have "valid_utf8 ''Internal error''" by (simp add: valid_utf8_ascii)
  note no_error = executed_error [OF this] executed_error [OF mem_exec_error]
  have lost: "\<not> executed i r (Inl e)" for e by (simp add: executed_def)
  from a assms(3) have ok: "m \<notin> set fail" by (auto simp: mem_answer_def no_error)
  show ?thesis
  proof (cases "mem_exec m ?v w")
    case (Inl msg)
    with a assms(3) ok no_error(2) [OF Inl] show ?thesis by (auto simp: mem_answer_def)
  next
    case (Inr p)
    then obtain q w1 where q: "mem_exec m ?v w = Inr (q, w1)" by (cases p) simp
    with a assms(3) ok have "json_wf q" "reply = Inr \<lparr>StatusCode = 200, Body = render (ok_response i q)\<rparr>" "w1 = w'"
      by (auto simp: mem_answer_def lost split: if_splits)
    with assms(3) mem_exec_depth [OF q] have "r = q" by (auto intro: executed_result)
    with q \<open>w1 = w'\<close> show ?thesis by simp
  qed
qed

lemma mem_answers:
  assumes "request_ok i m args" "exchange (mem_target fail) client i m args w = (reply, w')"
  shows "(\<exists>r. executed i r reply) \<or> (denied i reply \<or> lost reply) \<and> w' = w"
proof -
  let ?v = "case args of None \<Rightarrow> JNull | Some v \<Rightarrow> v"
  from assms have a: "mem_answer fail i m ?v w = (reply, w')" by (simp add: exchange_mem)
  have err: "denied i (Inr \<lparr>StatusCode = 200, Body = render (error_response i (- 32603) msg)\<rparr>)" if "valid_utf8 msg" for msg
    unfolding denied_def using that by (simp, intro exI [of _ "- 32603"]) auto
  have "valid_utf8 ''Internal error''" by (simp add: valid_utf8_ascii)
  then show ?thesis
    using a err mem_exec_error [of m ?v w] mem_exec_depth [of m ?v w]
    by (auto simp: mem_answer_def executed_def lost_def split: sum.splits if_splits prod.splits)
qed

lemma mem_exec_quiet: "mem_exec m v w = Inr (r, w') \<Longrightarrow> \<not> changing m \<Longrightarrow> sm_subs w' = sm_subs w"
  by (auto simp: mem_exec_def mem_lookup_def changing_def fun_upd_idem split: if_splits option.splits)

lemma listener_wf: "list_all listener_ok ls \<Longrightarrow> wf_elems (map listener_json ls)"
  by (induction ls) (auto simp: listener_json_def listener_ok_def valid_utf8_ascii)

lemma mem_took_effect:
  assumes "request_ok i m args" "exchange (mem_target fail) client i m args w = (reply, w')" "took_effect sm_subs i r reply w w'"
  obtains q where "mem_exec m (case args of None \<Rightarrow> JNull | Some v \<Rightarrow> v) w = Inr (q, w')" "executed i r reply \<Longrightarrow> q = r"
proof (cases "executed i r reply")
  case True
  from mem_executed [OF assms(1,2) this] show ?thesis by (rule that) simp
next
  case False
  with assms(3) have "w' \<noteq> w" by (auto simp: took_effect_def)
  with mem_answers [OF assms(1,2)] obtain q where "executed i q reply" by blast
  from mem_executed [OF assms(1,2) this] show ?thesis by (rule that) (use False in simp)
qed

interpretation mem_spdk: spdk_target "mem_target fail" client sm_subs for fail client
proof
  show "ht_NewRequest (mem_target fail) (rpcURL client) = None" by (simp add: mem_target_def)
  show "(\<exists>r. executed i r reply) \<or> denied i reply \<and> sm_subs w' = sm_subs w \<or> lost reply"
    if "request_ok i m args" "exchange (mem_target fail) client i m args w = (reply, w')" for i m args w reply w'
    using mem_answers [OF that] by blast
  show "sm_subs w' = sm_subs w"
    if "request_ok i m args" "exchange (mem_target fail) client i m args w = (reply, w')" "\<not> changing m" for i m args w reply w'
    using mem_answers [OF that(1,2)] mem_executed [OF that(1,2)] mem_exec_quiet that(3) by metis
  show "\<exists>ss. sm_subs w (str_member v ''nqn'') = Some ss \<and> r = JArr (map listener_json (ss_listeners ss))"
    if "request_ok i ''nvmf_subsystem_get_listeners'' (Some v)"
      "exchange (mem_target fail) client i ''nvmf_subsystem_get_listeners'' (Some v) w = (reply, w')" "executed i r reply"
    for i v w reply w' r
    using mem_executed [OF that] by (auto simp: mem_exec_def mem_lookup_def split: option.splits)
qed (erule (2) mem_took_effect; auto simp: mem_exec_def mem_lookup_def split: option.splits)+

lemma mem_serves:
  assumes "''nvmf_subsystem_get_listeners'' \<notin> set fail"
  shows "spdk_serves (mem_target fail) client sm_subs"
proof
  show "\<exists>r. executed i r (fst (exchange (mem_target fail) client i ''nvmf_subsystem_get_listeners'' (Some v) w))"
    if "request_ok i ''nvmf_subsystem_get_listeners'' (Some v)" "sm_subs w (str_member v ''nqn'') = Some ss"
      "list_all listener_ok (ss_listeners ss)" for i v w ss
    using that assms listener_wf [OF that(3)] depth_listeners [of "ss_listeners ss", THEN order.strict_trans1]
    by (auto simp: exchange_mem mem_answer_def mem_exec_def mem_lookup_def executed_def)
qed

interpretation mem_spdk_all: spdk_serves "mem_target []" client sm_subs for client
  by (rule mem_serves) simp

section \<open>Concrete runs\<close>

abbreviation next_call :: "'w \<Rightarrow> 'w rpc_world \<Rightarrow> 'w rpc_world" where
  "next_call w s \<equiv> s\<lparr>rw_rpcID := rw_rpcID s + 1, rw_ext := w\<rparr>"

text \<open>Calls on the target in memory, without the detour over the text.\<close>

lemma call_mem_ok:
  assumes "\<And>i. request_ok i m (Some v)" "m \<notin> set fail" "mem_exec m v (rw_ext s) = Inr (r, w)" "json_wf r" "\<not> snd (d r x)"
  shows "run_state (call (mem_target fail) client m (Some v) d x) s = ((fst (d r x), None), next_call w s)"
proof -
  have ex: "executed i r (Inr \<lparr>StatusCode = 200, Body = render (ok_response i r)\<rparr>)" for i
    using mem_exec_depth [OF assms(3)] assms(4) by (simp add: executed_def)
  have "call_reply m i d x (Inr \<lparr>StatusCode = 200, Body = render (ok_response i r)\<rparr>) = (fst (d r x), None)" for i
    using call_executed [OF ex [of i], of m d x] assms(5) by simp
  then show ?thesis
    using assms by (simp add: run_call [OF mem_spdk.url] exchange_mem mem_answer_def Let_def)
qed

lemma call_mem_error:
  assumes "\<And>i. request_ok i m (Some v)"
    and "(if m \<in> set fail then Inl ''Internal error'' else mem_exec m v (rw_ext s)) = Inl msg"
  shows "run_state (call (mem_target fail) client m (Some v) d x) s =
    ((x, Some (Errorf (m @ '': json response error: '' @ msg))), next_call (rw_ext s) s)"
proof -
  have "valid_utf8 msg" using assms(2) mem_exec_error by (auto simp: valid_utf8_ascii split: if_splits)
  then have "call_reply m i d x (Inr \<lparr>StatusCode = 200, Body = render (error_response i (- 32603) msg)\<rparr>) =
    (x, Some (Errorf (m @ '': json response error: '' @ msg)))" for i
    by (simp add: call_reply_def json_Decode_render error_response_ok dec_error_response json_finish_def) (simp add: empty_response_def)
  then show ?thesis
    using assms by (simp add: run_call [OF mem_spdk.url] exchange_mem mem_answer_def Let_def)
qed

lemma call_nil_mem:
  assumes "\<And>i. request_ok i m (Some v)" "m \<notin> set fail" "mem_exec m v (rw_ext s) = Inr (r, w)" "json_wf r"
  shows "run_state (call_nil (mem_target fail) client m (Some v)) s = (None, next_call w s)"
  using call_mem_ok [OF assms, where d = dec_ignore] by (simp add: call_nil_def dec_ignore_def)

lemma mem_isVolumeCreated:
  assumes "valid_utf8 lvolID" "''bdev_get_bdevs'' \<notin> set fail" "lvolID \<in> set (sm_bdevs (rw_ext s))"
  shows "run_state (isVolumeCreated (mem_target fail) client lvolID) s = (Ret (Inr True), next_call (rw_ext s) s)"
proof -
  let ?v = "JObj [(''name'', JStr lvolID)]" and ?d = "dec_slice zero_BDev (dec_struct bdev_fields)" and ?r = "JArr [JObj [(''name'', JStr lvolID)]]"
  have d: "\<exists>b. ?d ?r [] = ([b], False)"
    by (simp add: dec_slice_def dec_struct_def bdev_fields_def find_field_def field_def dec_string_def)
  have "run_state (call (mem_target fail) client ''bdev_get_bdevs'' (Some ?v) ?d []) s = ((fst (?d ?r []), None), next_call (rw_ext s) s)"
    by (rule call_mem_ok) (use assms d in \<open>auto simp: request_simps mem_exec_def\<close>)
  with d show ?thesis by (auto simp: isVolumeCreated_def getVolume_def run_and_then)
qed

lemma invalid_parameters: "errorMatches (Some (Errorf (''nvmf_subsystem_get_listeners'' @ '': json response error: '' @ ''Invalid parameters''))) ErrInvalidParameters"
  by code_simp

lemma mem_isVolumePublished:
  assumes "valid_utf8 lvolID" "''nvmf_subsystem_get_listeners'' \<notin> set fail" "sm_subs (rw_ext s) (getVolumeNqn lvolID) = None"
  shows "run_state (isVolumePublished (mem_target fail) node lvolID) s = (Inr False, next_call (rw_ext s) s)"
proof -
  let ?v = "JObj [(''nqn'', JStr (getVolumeNqn lvolID))]"
  have ok: "request_ok i ''nvmf_subsystem_get_listeners'' (Some ?v)" for i using assms(1) by (simp add: request_simps)
  have "(if ''nvmf_subsystem_get_listeners'' \<in> set fail then Inl ''Internal error''
      else mem_exec ''nvmf_subsystem_get_listeners'' ?v (rw_ext s)) = Inl ''Invalid parameters''"
    using assms(2,3) by (simp add: mem_exec_def mem_lookup_def str_member_def)
  note call = call_mem_error [OF ok this]
  show ?thesis
    unfolding isVolumePublished_def run_simps_state call Let_def prod.case option.case if_P [OF invalid_parameters] ..
qed

lemma mem_createTransport:
  assumes "valid_utf8 (nd_targetType node)" "''nvmf_create_transport'' \<notin> set fail"
  shows "\<exists>i t. run_state (createTransport (mem_target fail) node) s = (None, s\<lparr>rw_rpcID := i, rw_transCreated := t\<rparr>)"
proof -
  have "run_state (call_nil (mem_target fail) (nd_client node) ''nvmf_create_transport''
      (Some (JObj [(''trtype'', JStr (nd_targetType node))]))) s = (None, next_call (rw_ext s) s)"
    by (rule call_nil_mem [where r = "JBool True"]) (use assms in \<open>simp_all add: request_simps mem_exec_def\<close>)
  then show ?thesis
    by (cases s) (auto simp: createTransport_def)
qed

text \<open>The three calls that export, from a target without the subsystem.\<close>

definition demo_exported :: "nodeNVMf \<Rightarrow> string \<Rightarrow> spdk_mem \<Rightarrow> spdk_mem" where
  "demo_exported node lvolID w = w\<lparr>sm_subs := (sm_subs w)(getVolumeNqn lvolID \<mapsto>
     \<lparr>ss_namespaces = [(sm_next w, lvolID)], ss_listeners = [node_listener node]\<rparr>)\<rparr>"

lemma mem_createSubsystem:
  assumes "valid_utf8 lvolID" "''nvmf_create_subsystem'' \<notin> set fail" "sm_subs (rw_ext s) (getVolumeNqn lvolID) = None"
  shows "run_state (createSubsystem (mem_target fail) node lvolID) s =
    (None, next_call ((rw_ext s)\<lparr>sm_subs := (sm_subs (rw_ext s))(getVolumeNqn lvolID \<mapsto> empty_subsystem)\<rparr>) s)"
  unfolding createSubsystem_def
  by (rule call_nil_mem [where r = "JBool True"]) (use assms in \<open>simp_all add: request_simps mem_exec_def\<close>)

lemma mem_subsystemAddNs:
  assumes "valid_utf8 lvolID" "''nvmf_subsystem_add_ns'' \<notin> set fail" "sm_subs (rw_ext s) (getVolumeNqn lvolID) = Some ss"
  shows "run_state (subsystemAddNs (mem_target fail) node lvolID) s =
    ((sm_next (rw_ext s), None), next_call ((rw_ext s)\<lparr>sm_subs := (sm_subs (rw_ext s))(getVolumeNqn lvolID \<mapsto>
       ss\<lparr>ss_namespaces := ss_namespaces ss @ [(sm_next (rw_ext s), lvolID)]\<rparr>)\<rparr>) s)"
proof -
  let ?v = "JObj [(''nqn'', JStr (getVolumeNqn lvolID)), (''namespace'', JObj [(''bdev_name'', JStr lvolID)])]"
  have ok: "request_ok i ''nvmf_subsystem_add_ns'' (Some ?v)" for i using assms(1) by (simp add: request_simps)
  have x: "mem_exec ''nvmf_subsystem_add_ns'' ?v (rw_ext s) = Inr (JNum (FormatInt (sint (sm_next (rw_ext s)))),
     (rw_ext s)\<lparr>sm_subs := (sm_subs (rw_ext s))(getVolumeNqn lvolID \<mapsto>
       ss\<lparr>ss_namespaces := ss_namespaces ss @ [(sm_next (rw_ext s), lvolID)]\<rparr>)\<rparr>)"
    using assms(3) by (simp add: mem_exec_def mem_lookup_def str_member_def sub_member_def)
  show ?thesis unfolding subsystemAddNs_def by (subst call_mem_ok [OF ok assms(2) x]) simp_all
qed

lemma mem_subsystemAddListener:
  assumes "node_ok node lvolID" "''nvmf_subsystem_add_listener'' \<notin> set fail" "sm_subs (rw_ext s) (getVolumeNqn lvolID) = Some ss"
  shows "run_state (subsystemAddListener (mem_target fail) node lvolID) s =
    (None, next_call ((rw_ext s)\<lparr>sm_subs := (sm_subs (rw_ext s))(getVolumeNqn lvolID \<mapsto>
       ss\<lparr>ss_listeners := ss_listeners ss @ [node_listener node]\<rparr>)\<rparr>) s)"
  unfolding subsystemAddListener_def
  by (rule call_nil_mem [where r = "JBool True"])
     (use assms in \<open>simp_all add: request_simps mem_exec_def mem_lookup_def listen_address_def node_listener_def node_ok_def\<close>)

text \<open>The part of \<open>PublishVolume\<close> before the export.\<close>

lemma mem_PublishVolume:
  assumes "node_ok node lvolID" "lvolID \<in> set (sm_bdevs (rw_ext s))" "sm_subs (rw_ext s) (getVolumeNqn lvolID) = None"
    and "''bdev_get_bdevs'' \<notin> set fail" "''nvmf_subsystem_get_listeners'' \<notin> set fail" "''nvmf_create_transport'' \<notin> set fail"
  obtains s1 s2 where "rw_ext s1 = rw_ext s" "rw_ext s2 = rw_ext s"
    "run_state (createTransport (mem_target fail) node) s1 = (None, s2)"
    "run_state (PublishVolume (mem_target fail) node lvolID) s = run_state (safely (export_volume (mem_target fail) node lvolID)) s1"
proof -
  from assms(1) have utf: "valid_utf8 lvolID" "valid_utf8 (nd_targetType node)" by (simp_all add: node_ok_def)
  let ?s2 = "next_call (rw_ext s) (next_call (rw_ext s) s)"
  obtain i t where "run_state (createTransport (mem_target fail) node) ?s2 = (None, ?s2\<lparr>rw_rpcID := i, rw_transCreated := t\<rparr>)"
    using mem_createTransport [OF utf(2) assms(6), of ?s2] by auto
  moreover have "run_state (PublishVolume (mem_target fail) node lvolID) s = run_state (safely (export_volume (mem_target fail) node lvolID)) ?s2"
    using mem_isVolumeCreated [OF utf(1) assms(4,2), of "nd_client node"]
      mem_isVolumePublished [OF utf(1) assms(5), of "next_call (rw_ext s) s" node] assms(3)
    by (simp add: PublishVolume_def run_and_then run_safely)
  ultimately show ?thesis by (intro that [of ?s2]) simp_all
qed

lemma mem_publish:
  assumes "node_ok node lvolID" "lvolID \<in> set (sm_bdevs (rw_ext s))" "sm_subs (rw_ext s) (getVolumeNqn lvolID) = None"
  obtains s' where "run_state (PublishVolume (mem_target []) node lvolID) s = (Ret None, s')"
    "rw_ext s' = demo_exported node lvolID (rw_ext s)"
proof (rule mem_PublishVolume [OF assms, of "[]"])
  fix s1 s2 assume t: "rw_ext s1 = rw_ext s" "rw_ext s2 = rw_ext s"
    "run_state (createTransport (mem_target []) node) s1 = (None, s2)"
    and p: "run_state (PublishVolume (mem_target []) node lvolID) s = run_state (safely (export_volume (mem_target []) node lvolID)) s1"
  from assms(1) have utf: "valid_utf8 lvolID" by (simp add: node_ok_def)
  have "\<exists>s'. run_state (export_volume (mem_target []) node lvolID) s1 = (None, s') \<and> rw_ext s' = demo_exported node lvolID (rw_ext s)"
    unfolding export_volume_def run_simps_state t(3) Let_def prod.case option.case
    using assms(3) t mem_createSubsystem [OF utf] mem_subsystemAddNs [OF utf] mem_subsystemAddListener [OF assms(1)]
    by (simp add: empty_subsystem_def demo_exported_def)
  with p that show ?thesis by (auto simp: run_safely)
qed simp_all

lemma mem_deleteSubsystem:
  assumes "valid_utf8 lvolID" "''nvmf_delete_subsystem'' \<notin> set fail" "sm_subs (rw_ext s) (getVolumeNqn lvolID) \<noteq> None"
  shows "fst (run_state (deleteSubsystem (mem_target fail) node lvolID) s) = None"
proof -
  let ?v = "JObj [(''nqn'', JStr (getVolumeNqn lvolID))]"
  have ok: "request_ok i ''nvmf_delete_subsystem'' (Some ?v)" for i using assms(1) by (simp add: request_simps)
  have x: "mem_exec ''nvmf_delete_subsystem'' ?v (rw_ext s) = Inr (JBool True,
     (rw_ext s)\<lparr>sm_subs := (sm_subs (rw_ext s))(getVolumeNqn lvolID := None)\<rparr>)"
    using assms(3) by (auto simp: mem_exec_def mem_lookup_def str_member_def)
  show ?thesis unfolding deleteSubsystem_def by (subst call_nil_mem [OF ok assms(2) x]) simp_all
qed

lemma mem_unpublish:
  assumes "node_ok node lvolID" "lvolID \<in> set (sm_bdevs (rw_ext s))"
    and "sm_subs (rw_ext s) (getVolumeNqn lvolID) = Some ss" "ss_listeners ss = [node_listener node]"
  shows "fst (run_state (UnpublishVolume (mem_target []) node lvolID) s) = Ret None"
proof -
  from assms(1) have utf: "valid_utf8 lvolID" by (simp add: node_ok_def)
  let ?s1 = "next_call (rw_ext s) s"
  obtain pr s2 where p: "run_state (isVolumePublished (mem_target []) node lvolID) ?s1 = (pr, s2)" by fastforce
  from mem_spdk_all.isVolumePublished_listening [of ?s1 lvolID ss node "nd_client node"] assms p have "pr = Inr True" by simp
  moreover have s2: "sm_subs (rw_ext s2) (getVolumeNqn lvolID) = Some ss"
    using mem_spdk.isVolumePublished_target [OF p refl assms(1)] assms(3) by simp
  obtain rerr s3 where r: "run_state (subsystemRemoveNs (mem_target []) node lvolID) s2 = (rerr, s3)" by fastforce
  have "sm_subs (rw_ext s3) (getVolumeNqn lvolID) \<noteq> None"
    using mem_spdk.subsystemRemoveNs_target [OF r refl assms(1)] s2 by (auto simp: touched_def)
  from mem_deleteSubsystem [OF utf _ this]
  have "fst (run_state (deleteSubsystem (mem_target []) node lvolID) s3) = None" by simp
  ultimately show ?thesis
    using mem_isVolumeCreated [OF utf _ assms(2), of "[]" "nd_client node"] p r
    by (simp add: UnpublishVolume_def unexport_volume_def run_and_then run_safely Let_def case_prod_beta)
qed

text \<open>A target with one volume, of which nothing is exported.\<close>

definition demo_spdk :: "spdk_mem rpc_world" where
  "demo_spdk = \<lparr>rw_rpcID = 0, rw_transCreated = 0,
     rw_ext = \<lparr>sm_bdevs = [''lvol-1''], sm_subs = Map.empty, sm_next = 1\<rparr>\<rparr>"

lemma demo_node_ok: "node_ok demo_node ''lvol-1''" "nd_client demo_node = demo_rpcClient"
  by (simp_all add: node_ok_def demo_node_def newNVMf_def valid_utf8_ascii)

section \<open>Answers that get lost\<close>

text \<open>
  Any target behind a network that loses the answers to some methods: the call reaches the target and is
  done, and the driver sees a time-out. Such a target still keeps the contract.
\<close>

definition sent_method :: "http_request \<Rightarrow> string" where
  "sent_method req = (case json_parse (hr_Body req) of Some v \<Rightarrow> str_member v ''method'' | None \<Rightarrow> [])"

definition losing :: "string list \<Rightarrow> 'w http_env \<Rightarrow> 'w http_env" where
  "losing ms env = \<lparr>ht_NewRequest = ht_NewRequest env, ht_Do = (\<lambda>req. State (\<lambda>w.
     let (reply, w') = run_state (ht_Do env req) w
     in (if sent_method req \<in> set ms then Inl (LibErr False ''context deadline exceeded'') else reply, w')))\<rparr>"

lemma exchange_losing:
  assumes "request_ok i m args"
  shows "exchange (losing ms env) client i m args w =
    (if m \<in> set ms then Inl (LibErr False ''context deadline exceeded'') else fst (exchange env client i m args w),
     snd (exchange env client i m args w))"
proof -
  have "json_parse (hr_Body (rpc_http client i m args)) = Some (request_json i m args)"
    using assms by (simp add: rpc_http_def request_ok_def json_parse_render)
  then show ?thesis by (simp add: losing_def sent_method_def request_json_def str_member_def case_prod_beta Let_def)
qed

lemma losing_reply:
  assumes "request_ok i m args" "exchange (losing ms env) client i m args w = (reply, w')"
  obtains "exchange env client i m args w = (reply, w')"
    | q where "exchange env client i m args w = (q, w')" "lost reply" "\<And>r. \<not> executed i r reply"
  using assms by (cases "m \<in> set ms") (auto simp: exchange_losing lost_def executed_def prod_eq_iff)

context spdk_target
begin

lemma losing_took_effect:
  assumes ok: "request_ok i m args" and run: "exchange (losing ms env) client i m args w = (reply, w')"
    and effect: "took_effect subs i r reply w w'"
  obtains q p where "exchange env client i m args w = (q, w')" "took_effect subs i p q w w'"
    "executed i r reply \<Longrightarrow> executed i p q \<and> p = r"
proof (rule losing_reply [OF ok run])
  assume "exchange env client i m args w = (reply, w')"
  from that [OF this effect] show ?thesis by simp
next
  fix q assume q: "exchange env client i m args w = (q, w')" and no: "\<And>r. \<not> executed i r reply"
  with effect have "subs w' \<noteq> subs w" by (auto simp: took_effect_def)
  with answers [OF ok q] obtain p where "took_effect subs i p q w w'" by (auto simp: took_effect_def)
  from that [OF q this] no show ?thesis by blast
qed

end

lemma losing_target:
  assumes target: "spdk_target env client subs"
  shows "spdk_target (losing ms env) client subs"
proof -
  note effect = spdk_target.losing_took_effect [OF target]
  show ?thesis
  proof
    show "ht_NewRequest (losing ms env) (rpcURL client) = None"
      using spdk_target.url [OF target] by (simp add: losing_def)
    show "(\<exists>r. executed i r reply) \<or> denied i reply \<and> subs w' = subs w \<or> lost reply"
      if "request_ok i m args" "exchange (losing ms env) client i m args w = (reply, w')" for i m args w reply w'
      by (rule losing_reply [OF that]) (use spdk_target.answers [OF target that(1)] in blast)+
    show "subs w' = subs w"
      if "request_ok i m args" "exchange (losing ms env) client i m args w = (reply, w')" "\<not> changing m" for i m args w reply w'
      by (rule losing_reply [OF that(1,2)]) (use spdk_target.quiet [OF target that(1) _ that(3)] in blast)+
    show "\<exists>ss. subs w (str_member v ''nqn'') = Some ss \<and> r = JArr (map listener_json (ss_listeners ss))"
      if "request_ok i ''nvmf_subsystem_get_listeners'' (Some v)"
        "exchange (losing ms env) client i ''nvmf_subsystem_get_listeners'' (Some v) w = (reply, w')" "executed i r reply"
      for i v w reply w' r
      by (rule losing_reply [OF that(1,2)]) (use spdk_target.get_listeners [OF target that(1) _ that(3)] that(3) in blast)+
    show "subs w (str_member v ''nqn'') = None \<and> subs w' = (subs w)(str_member v ''nqn'' \<mapsto> empty_subsystem)"
      if "request_ok i ''nvmf_create_subsystem'' (Some v)"
        "exchange (losing ms env) client i ''nvmf_create_subsystem'' (Some v) w = (reply, w')" "took_effect subs i r reply w w'"
      for i v w reply w' r
      by (rule effect [OF that]) (use spdk_target.create [OF target that(1)] in blast)
    show "subs w' = (subs w)(str_member v ''nqn'' := None)"
      if "request_ok i ''nvmf_delete_subsystem'' (Some v)"
        "exchange (losing ms env) client i ''nvmf_delete_subsystem'' (Some v) w = (reply, w')" "took_effect subs i r reply w w'"
      for i v w reply w' r
      by (rule effect [OF that]) (use spdk_target.delete [OF target that(1)] in blast)
    show "\<exists>ss nsid. subs w (str_member v ''nqn'') = Some ss \<and> (executed i r reply \<longrightarrow> r = JNum (FormatInt (sint (nsid :: int64)))) \<and>
        subs w' = (subs w)(str_member v ''nqn'' \<mapsto> ss\<lparr>ss_namespaces := ss_namespaces ss @
          [(nsid, str_member (sub_member v ''namespace'') ''bdev_name'')]\<rparr>)"
      if "request_ok i ''nvmf_subsystem_add_ns'' (Some v)"
        "exchange (losing ms env) client i ''nvmf_subsystem_add_ns'' (Some v) w = (reply, w')" "took_effect subs i r reply w w'"
      for i v w reply w' r
      by (rule effect [OF that]) (use spdk_target.add_ns [OF target that(1)] in blast)
    show "\<exists>ss. subs w (str_member v ''nqn'') = Some ss \<and>
        subs w' = (subs w)(str_member v ''nqn'' \<mapsto> ss\<lparr>ss_namespaces :=
          filter (\<lambda>n. Some (JNum (FormatInt (sint (fst n)))) \<noteq> member v ''nsid'') (ss_namespaces ss)\<rparr>)"
      if "request_ok i ''nvmf_subsystem_remove_ns'' (Some v)"
        "exchange (losing ms env) client i ''nvmf_subsystem_remove_ns'' (Some v) w = (reply, w')" "took_effect subs i r reply w w'"
      for i v w reply w' r
      by (rule effect [OF that]) (use spdk_target.remove_ns [OF target that(1)] in blast)
    show "\<exists>ss. subs w (str_member v ''nqn'') = Some ss \<and>
        subs w' = (subs w)(str_member v ''nqn'' \<mapsto> ss\<lparr>ss_listeners := ss_listeners ss @
          [listen_address (sub_member v ''listen_address'')]\<rparr>)"
      if "request_ok i ''nvmf_subsystem_add_listener'' (Some v)"
        "exchange (losing ms env) client i ''nvmf_subsystem_add_listener'' (Some v) w = (reply, w')" "took_effect subs i r reply w w'"
      for i v w reply w' r
      by (rule effect [OF that]) (use spdk_target.add_listener [OF target that(1)] in blast)
  qed
qed

text \<open>On such a target the calls of the other methods run as they do without losses.\<close>

lemma call_losing:
  assumes "ht_NewRequest env (rpcURL client) = None" "\<And>i. request_ok i m args" "m \<notin> set ms"
  shows "run_state (call (losing ms env) client m args d x) s = run_state (call env client m args d x) s"
proof -
  have "ht_NewRequest (losing ms env) (rpcURL client) = None" using assms(1) by (simp add: losing_def)
  then show ?thesis using assms by (simp add: run_call exchange_losing case_prod_beta Let_def)
qed

text \<open>The creation of the subsystem is done, and the driver does not hear of it.\<close>

abbreviation deaf_target :: "spdk_mem http_env" where
  "deaf_target \<equiv> losing [''nvmf_create_subsystem''] (mem_target [])"

lemma deaf_publish:
  assumes "node_ok node lvolID" "lvolID \<in> set (sm_bdevs (rw_ext s))" "sm_subs (rw_ext s) (getVolumeNqn lvolID) = None"
  shows "\<exists>e s'. run_state (PublishVolume deaf_target node lvolID) s = (Ret (Some e), s') \<and>
    sm_subs (rw_ext s') = (sm_subs (rw_ext s))(getVolumeNqn lvolID \<mapsto> empty_subsystem)"
proof -
  from assms(1) have utf: "valid_utf8 lvolID" "valid_utf8 (nd_targetType node)" by (simp_all add: node_ok_def)
  have url: "ht_NewRequest (mem_target []) (rpcURL (nd_client node)) = None" by (rule mem_spdk.url)
  let ?c = "nd_client node" and ?m = "mem_target []" and ?n = "next_call (rw_ext s)"
  have "run_state (isVolumeCreated deaf_target ?c lvolID) s = run_state (isVolumeCreated ?m ?c lvolID) s"
    using utf by (simp add: isVolumeCreated_def getVolume_def run_and_then call_losing [OF url] request_simps)
  then have created: "run_state (isVolumeCreated deaf_target ?c lvolID) s = (Ret (Inr True), ?n s)"
    using mem_isVolumeCreated [OF utf(1) _ assms(2)] by simp
  have "run_state (isVolumePublished deaf_target node lvolID) (?n s) = run_state (isVolumePublished ?m node lvolID) (?n s)"
    using utf by (simp add: isVolumePublished_def call_losing [OF url] request_simps)
  then have published: "run_state (isVolumePublished deaf_target node lvolID) (?n s) = (Inr False, ?n (?n s))"
    using mem_isVolumePublished [OF utf(1), of "[]" "?n s" node] assms(3) by simp
  have "run_state (createTransport deaf_target node) (?n (?n s)) = run_state (createTransport ?m node) (?n (?n s))"
    using utf by (simp add: createTransport_def call_nil_def call_losing [OF url] request_simps)
  then obtain s1 where t: "run_state (createTransport deaf_target node) (?n (?n s)) = (None, s1)" "rw_ext s1 = rw_ext s"
    using mem_createTransport [OF utf(2), of "[]" "?n (?n s)"] by auto
  let ?v = "JObj [(''nqn'', JStr (getVolumeNqn lvolID)), (''allow_any_host'', JBool cfgAllowAnyHost),
      (''serial_number'', JStr ''spdkcsi-sn''), (''model_number'', JStr (getVolumeModel lvolID))]"
  have ok: "request_ok i ''nvmf_create_subsystem'' (Some ?v)" for i using utf by (simp add: request_simps)
  have "snd (exchange ?m ?c i ''nvmf_create_subsystem'' (Some ?v) (rw_ext s1)) =
      (rw_ext s)\<lparr>sm_subs := (sm_subs (rw_ext s))(getVolumeNqn lvolID \<mapsto> empty_subsystem)\<rparr>" for i
    using assms(3) t(2) by (simp add: exchange_mem [OF ok] mem_answer_def mem_exec_def str_member_def)
  moreover have "ht_NewRequest deaf_target (rpcURL ?c) = None" using url by (simp add: losing_def)
  ultimately have "\<exists>e s'. run_state (createSubsystem deaf_target node lvolID) s1 = (Some e, s') \<and>
      sm_subs (rw_ext s') = (sm_subs (rw_ext s))(getVolumeNqn lvolID \<mapsto> empty_subsystem)"
    by (simp add: createSubsystem_def call_nil_def run_call exchange_losing [OF ok] call_reply_def case_prod_beta Let_def)
  then obtain e s' where c: "run_state (createSubsystem deaf_target node lvolID) s1 = (Some e, s')"
    "sm_subs (rw_ext s') = (sm_subs (rw_ext s))(getVolumeNqn lvolID \<mapsto> empty_subsystem)" by blast
  have "run_state (PublishVolume deaf_target node lvolID) s = (Ret (Some e), s')"
    using created published t(1) c(1) by (simp add: PublishVolume_def run_and_then run_safely export_volume_def)
  with c(2) show ?thesis by blast
qed

section \<open>Publishing and unpublishing\<close>

text \<open>
  C21. What a successful \<open>PublishVolume\<close> has done, on every target that keeps the documented contract. If
  the volume had no subsystem, there is one now whose only namespace is the volume and whose only
  listener is this node's address, and no other subsystem has changed. If it had one, nothing has changed, and
  that subsystem listened on the address of this node already; whether it holds the volume has not been looked at.
\<close>

theorem publish_exports_volume:
  assumes target: "spdk_target env (nd_client node) subs" and ok: "node_ok node lvolID"
    and run: "run_state (PublishVolume env node lvolID) s = (Ret None, s')"
  shows "case subs (rw_ext s) (getVolumeNqn lvolID) of
      None \<Rightarrow> \<exists>n. subs (rw_ext s') = (subs (rw_ext s))
        (getVolumeNqn lvolID \<mapsto> \<lparr>ss_namespaces = [(n, lvolID)], ss_listeners = [node_listener node]\<rparr>)
    | Some ss \<Rightarrow> subs (rw_ext s') = subs (rw_ext s) \<and> node_listener node \<in> set (ss_listeners ss)"
proof (rule spdk_target.PublishVolume_target [OF target run refl ok])
  fix s2 err
  assume same: "subs (rw_ext s2) = subs (rw_ext s)" and e: "run_state (export_volume env node lvolID) s2 = (err, s')"
    and "(Ret None :: go_error option ret) = Ret err"
  then have "run_state (export_volume env node lvolID) s2 = (None, s')" by simp
  from spdk_target.export_volume_done [OF target this refl ok] same show ?thesis by simp
qed auto

theorem publish_exports_volume_witness:
  "\<exists>s' n. run_state (PublishVolume (mem_target []) demo_node ''lvol-1'') demo_spdk = (Ret None, s') \<and>
     sm_subs (rw_ext s') (getVolumeNqn ''lvol-1'') =
       Some \<lparr>ss_namespaces = [(n, ''lvol-1'')], ss_listeners = [node_listener demo_node]\<rparr>"
proof (rule mem_publish [OF demo_node_ok(1), of demo_spdk])
  fix s' assume run: "run_state (PublishVolume (mem_target []) demo_node ''lvol-1'') demo_spdk = (Ret None, s')"
  from publish_exports_volume [OF mem_spdk.spdk_target_axioms demo_node_ok(1) run] run show ?thesis
    by (auto simp: demo_spdk_def)
qed (simp_all add: demo_spdk_def)

text \<open>
  C20. What a \<open>PublishVolume\<close> that fails leaves on a target whose answers may get lost. No subsystem has changed,
  or the volume had none and has one now, for one of two reasons: the answer to its creation was lost, and then it
  is empty; or its deletion, with which a failed export ends, failed itself. No other subsystem ever changes.
\<close>

theorem publish_failure_leaves:
  assumes target: "spdk_target env (nd_client node) subs" and ok: "node_ok node lvolID"
    and run: "run_state (PublishVolume env node lvolID) s = (r, s')" and failed: "r \<noteq> Ret None"
  shows "subs (rw_ext s') = subs (rw_ext s) \<or>
    (\<exists>ss. subs (rw_ext s) (getVolumeNqn lvolID) = None \<and> subs (rw_ext s') = (subs (rw_ext s))(getVolumeNqn lvolID \<mapsto> ss) \<and>
      ((\<exists>s1 e args. run_state (createSubsystem env node lvolID) s1 = (Some e, s') \<and> r = Ret (Some e) \<and>
          subs (rw_ext s1) = subs (rw_ext s) \<and> ss = empty_subsystem \<and>
          lost (fst (exchange env (nd_client node) (rw_rpcID s1 + 1) ''nvmf_create_subsystem'' args (rw_ext s1)))) \<or>
       (\<exists>s1 e. run_state (deleteSubsystem env node lvolID) s1 = (Some e, s') \<and> subs (rw_ext s1) = subs (rw_ext s'))))"
proof (rule spdk_target.PublishVolume_target [OF target run refl ok])
  fix s2 err
  assume same: "subs (rw_ext s2) = subs (rw_ext s)" and e: "run_state (export_volume env node lvolID) s2 = (err, s')"
    and "r = Ret err"
  with failed obtain e' where e': "run_state (export_volume env node lvolID) s2 = (Some e', s')" and r: "r = Ret (Some e')" by auto
  show ?thesis
  proof (rule spdk_target.export_volume_failed [OF target e' refl ok, unfolded same])
    fix s4 ss err
    assume d: "subs (rw_ext s) (getVolumeNqn lvolID) = None" "subs (rw_ext s4) = (subs (rw_ext s))(getVolumeNqn lvolID \<mapsto> ss)"
      "run_state (deleteSubsystem env node lvolID) s4 = (err, s')"
    from spdk_target.deleteSubsystem_target [OF target d(3) refl ok] d(2) consider (still) e where "err = Some e"
        "subs (rw_ext s') = (subs (rw_ext s))(getVolumeNqn lvolID \<mapsto> ss)"
      | (gone) "subs (rw_ext s') = (subs (rw_ext s))(getVolumeNqn lvolID := None)" by (auto split: if_splits)
    then show ?thesis
    proof cases
      case still
      with d show ?thesis by metis
    next
      case gone
      with d(1) show ?thesis by (simp add: fun_upd_idem)
    qed
  qed (use r in blast)+
qed simp

theorem publish_failure_leaves_witness:
  "\<exists>e s' s1 e'. run_state (PublishVolume deaf_target demo_node ''lvol-1'') demo_spdk = (Ret (Some e), s') \<and>
     sm_subs (rw_ext s') = [getVolumeNqn ''lvol-1'' \<mapsto> empty_subsystem] \<and>
     (run_state (createSubsystem deaf_target demo_node ''lvol-1'') s1 = (Some e', s') \<and> e' = e \<or>
      run_state (deleteSubsystem deaf_target demo_node ''lvol-1'') s1 = (Some e', s'))"
proof -
  obtain e s' where run: "run_state (PublishVolume deaf_target demo_node ''lvol-1'') demo_spdk = (Ret (Some e), s')"
    and left: "sm_subs (rw_ext s') = [getVolumeNqn ''lvol-1'' \<mapsto> empty_subsystem]"
    using deaf_publish [OF demo_node_ok(1), of demo_spdk] by (auto simp: demo_spdk_def)
  have "sm_subs (rw_ext s') \<noteq> sm_subs (rw_ext demo_spdk)" using left by (auto simp: demo_spdk_def fun_eq_iff)
  with publish_failure_leaves [OF losing_target [OF mem_spdk.spdk_target_axioms] demo_node_ok(1) run]
  have "\<exists>s1 e'. run_state (createSubsystem deaf_target demo_node ''lvol-1'') s1 = (Some e', s') \<and> e' = e \<or>
      run_state (deleteSubsystem deaf_target demo_node ''lvol-1'') s1 = (Some e', s')" by blast
  with run left show ?thesis by blast
qed

text \<open>
  C22. A subsystem that is left over decides everything, whatever it holds. When the volume has a subsystem and the
  target lists its listeners, \<open>PublishVolume\<close> changes nothing, and it succeeds exactly if the subsystem listens
  on the address of this node, even if it has no namespace; without that listener it fails, now and on
  every retry, while \<open>UnpublishVolume\<close> reports success and leaves the subsystem in place.
\<close>

theorem publish_existing_subsystem:
  assumes target: "spdk_serves env (nd_client node) subs" and ok: "node_ok node lvolID"
    and left: "subs (rw_ext s) (getVolumeNqn lvolID) = Some ss" "list_all listener_ok (ss_listeners ss)"
    and created: "fst (run_state (isVolumeCreated env (nd_client node) lvolID) s) = Ret (Inr True)"
    and pub: "run_state (PublishVolume env node lvolID) s = (r, s1)"
    and unpub: "run_state (UnpublishVolume env node lvolID) s = (q, s2)"
  shows "subs (rw_ext s1) = subs (rw_ext s) \<and> (r = Ret None \<longleftrightarrow> node_listener node \<in> set (ss_listeners ss)) \<and>
    (node_listener node \<notin> set (ss_listeners ss) \<longrightarrow> q = Ret None \<and> subs (rw_ext s2) = subs (rw_ext s))"
  using spdk_serves.PublishVolume_existing [OF target left refl ok created pub]
    spdk_serves.UnpublishVolume_not_listening [OF target left refl ok created _ unpub] by blast

text \<open>The target of the demo with a subsystem that has no namespace, with or without listeners.\<close>

definition demo_left :: "listener_result list \<Rightarrow> spdk_mem rpc_world" where
  "demo_left ls = \<lparr>rw_rpcID = 0, rw_transCreated = 0, rw_ext = \<lparr>sm_bdevs = [''lvol-1''],
     sm_subs = [getVolumeNqn ''lvol-1'' \<mapsto> \<lparr>ss_namespaces = [], ss_listeners = ls\<rparr>], sm_next = 1\<rparr>\<rparr>"

theorem publish_existing_subsystem_witness:
  "fst (run_state (PublishVolume (mem_target []) demo_node ''lvol-1'') (demo_left [])) \<noteq> Ret None \<and>
   fst (run_state (UnpublishVolume (mem_target []) demo_node ''lvol-1'') (demo_left [])) = Ret None \<and>
   fst (run_state (PublishVolume (mem_target []) demo_node ''lvol-1'') (demo_left [node_listener demo_node])) = Ret None"
proof -
  have here: "sm_subs (rw_ext (demo_left ls)) (getVolumeNqn ''lvol-1'') = Some \<lparr>ss_namespaces = [], ss_listeners = ls\<rparr>" for ls
    by (simp add: demo_left_def)
  have created: "fst (run_state (isVolumeCreated (mem_target []) (nd_client demo_node) ''lvol-1'') (demo_left ls)) = Ret (Inr True)" for ls
    by (simp add: mem_isVolumeCreated valid_utf8_ascii demo_left_def)
  note decided = publish_existing_subsystem [OF mem_spdk_all.spdk_serves_axioms demo_node_ok(1) here _ created
      prod.collapse [symmetric] prod.collapse [symmetric]]
  from decided [of "[]"] decided [of "[node_listener demo_node]"] mem_spdk_all.node_listener_ok [OF demo_node_ok(1)]
  show ?thesis by simp
qed

text \<open>
  C23. \<open>UnpublishVolume\<close> undoes \<open>PublishVolume\<close>: a volume whose subsystem did not exist is published and
  then unpublished, both without an error; afterwards the target has exactly the subsystems it had at
  the beginning.
\<close>

theorem unpublish_undoes_publish:
  assumes target: "spdk_serves env (nd_client node) subs" and ok: "node_ok node lvolID"
    and new: "subs (rw_ext s) (getVolumeNqn lvolID) = None"
    and pub: "run_state (PublishVolume env node lvolID) s = (Ret None, s1)"
    and unpub: "run_state (UnpublishVolume env node lvolID) s1 = (Ret None, s2)"
  shows "subs (rw_ext s2) = subs (rw_ext s)"
proof -
  note base = spdk_serves.axioms(1) [OF target]
  have "\<exists>n. subs (rw_ext s1) = (subs (rw_ext s))(getVolumeNqn lvolID \<mapsto>
      \<lparr>ss_namespaces = [(n, lvolID)], ss_listeners = [node_listener node]\<rparr>)"
  proof (rule spdk_target.PublishVolume_target [OF base pub refl ok])
    fix s3 err assume "subs (rw_ext s3) = subs (rw_ext s)"
      "run_state (export_volume env node lvolID) s3 = (err, s1)" "(Ret None :: go_error option ret) = Ret err"
    with spdk_target.export_volume_done [OF base _ refl ok, of s3 s1] show ?thesis by simp
  qed (use new in auto)
  then obtain ss where s1: "subs (rw_ext s1) = (subs (rw_ext s))(getVolumeNqn lvolID \<mapsto> ss)"
    "ss_listeners ss = [node_listener node]" by force
  show ?thesis
  proof (rule spdk_target.UnpublishVolume_target [OF base unpub refl ok])
    fix s3 assume "subs (rw_ext s3) = subs (rw_ext s1)" "run_state (isVolumePublished env node lvolID) s3 = (Inr False, s2)"
    with spdk_serves.isVolumePublished_listening [OF target _ s1(2) refl ok, of s3] s1(1) show ?thesis by simp
  next
    assume "subs (rw_ext s2) = (subs (rw_ext s1))(getVolumeNqn lvolID := None)"
    with s1(1) new show ?thesis by (simp add: fun_upd_idem)
  qed
qed

theorem unpublish_undoes_publish_witness:
  "\<exists>s1 s2. run_state (PublishVolume (mem_target []) demo_node ''lvol-1'') demo_spdk = (Ret None, s1) \<and>
     run_state (UnpublishVolume (mem_target []) demo_node ''lvol-1'') s1 = (Ret None, s2) \<and>
     sm_subs (rw_ext s2) = Map.empty"
proof (rule mem_publish [OF demo_node_ok(1), of demo_spdk])
  fix s1 assume pub: "run_state (PublishVolume (mem_target []) demo_node ''lvol-1'') demo_spdk = (Ret None, s1)"
    and s1: "rw_ext s1 = demo_exported demo_node ''lvol-1'' (rw_ext demo_spdk)"
  obtain s2 where unpub: "run_state (UnpublishVolume (mem_target []) demo_node ''lvol-1'') s1 = (Ret None, s2)"
    using mem_unpublish [OF demo_node_ok(1), of s1] s1 by (auto simp: demo_exported_def demo_spdk_def prod_eq_iff)
  have "sm_subs (rw_ext demo_spdk) (getVolumeNqn ''lvol-1'') = None" by (simp add: demo_spdk_def)
  from unpublish_undoes_publish [OF mem_spdk_all.spdk_serves_axioms demo_node_ok(1) this pub unpub] pub unpub
  show ?thesis by (simp add: demo_spdk_def)
qed (simp_all add: demo_spdk_def)

end
