(* ===== verification/Lock_Refinement.thy ===== *)
theory Lock_Refinement
  imports Volume_Locks
begin

text \<open>
  What the volume locks promise, without mutexes and addresses: an owner for each volume ID. The
  interleavings of \<^verbatim>\<open>Lock\<close> and its closure (\<^verbatim>\<open>pkg/util/idlocker.go\<close>) implement
  this specification; and a single call of \<^verbatim>\<open>Lock\<close> is, on the set of locked IDs, an insertion.
\<close>

section \<open>The owner of a volume\<close>

text \<open>A goroutine takes a volume nobody owns, if it owns none, and gives back a volume it owns.\<close>

inductive owner_step :: "(string \<rightharpoonup> nat) \<Rightarrow> (string \<rightharpoonup> nat) \<Rightarrow> bool" where
  take_volume: "own i = None \<Longrightarrow> t \<notin> ran own \<Longrightarrow> owner_step own (own(i \<mapsto> t))"
| give_volume: "own i = Some t \<Longrightarrow> owner_step own (own(i := None))"

abbreviation owner_reachable :: "(string \<rightharpoonup> nat) \<Rightarrow> bool" where
  "owner_reachable \<equiv> reachable (\<lambda>own. own = Map.empty) owner_step"

text \<open>A goroutine owns the volume it holds the mutex of, and the table has that mutex locked.\<close>

definition owns :: "lock_sys \<Rightarrow> (string \<rightharpoonup> nat) \<Rightarrow> bool" where
  "owns s own \<longleftrightarrow> (\<forall>i t. own i = Some t \<longleftrightarrow> (\<exists>a. pcs s t = Holding i a))"

lemma ownsI: "(\<And>i t. own i = Some t \<longleftrightarrow> (\<exists>a. pcs s t = Holding i a)) \<Longrightarrow> owns s own"
  by (simp add: owns_def)

lemma ownsD: "owns s own \<Longrightarrow> own i = Some t \<longleftrightarrow> (\<exists>a. pcs s t = Holding i a)"
  by (simp add: owns_def)

lemma owns_None: "owns s own \<Longrightarrow> own i = None \<longleftrightarrow> (\<forall>t a. pcs s t \<noteq> Holding i a)"
  by (metis not_Some_eq ownsD)

text \<open>A waiting goroutine that gets the mutex waited for a volume that no goroutine held.\<close>

lemma acquire_unowned:
  assumes "sys_inv s" "pcs s t = Waiting i a" "\<not> mlocked (table s) a"
  shows "pcs s u \<noteq> Holding i b"
proof
  assume h: "pcs s u = Holding i b"
  from assms(2) h have "loaded (pcs s t) i a" "loaded (pcs s u) i b" by (simp_all add: loaded_def)
  then have "mutexes (table s) i = Some a" "mutexes (table s) i = Some b"
    by (blast dest: sys_invD(2) [OF assms(1)])+
  with h sys_invD(4) [OF assms(1)] assms(3) show False by simp
qed

lemma holders_unique:
  assumes "sys_inv s" "pcs s t = Holding i a" "pcs s u = Holding i b"
  shows "t = u"
proof -
  from assms(2,3) have "loaded (pcs s t) i a" "loaded (pcs s u) i b" by (simp_all add: loaded_def)
  then have "mutexes (table s) i = Some a" "mutexes (table s) i = Some b"
    by (blast dest: sys_invD(2) [OF assms(1)])+
  with assms(2,3) sys_invD(5) [OF assms(1)] show ?thesis by simp
qed

lemma lock_step_owned:
  assumes inv: "sys_inv s" and step: "lock_step s s'" and own: "owns s own"
  shows "\<exists>own'. owner_step\<^sup>=\<^sup>= own own' \<and> owns s' own'"
  using step
proof cases
  case (load t i a vl)
  with own have "owns s' own" by (auto simp: owns_def)
  then show ?thesis by blast
next
  case (acquire t i a vl)
  then have un: "\<not> mlocked (table s) a" by (simp add: mtx_Lock_def split: if_splits)
  note nobody = acquire_unowned [OF inv acquire(2) un]
  have "own i = None" using nobody owns_None [OF own] by blast
  moreover have "t \<notin> ran own" using acquire(2) ownsD [OF own] by (auto simp: ran_def)
  ultimately have "owner_step own (own(i \<mapsto> t))" by (rule owner_step.take_volume)
  moreover have "owns s' (own(i \<mapsto> t))"
    using acquire nobody by (intro ownsI) (auto simp: ownsD [OF own])
  ultimately show ?thesis by blast
next
  case (release t i a vl)
  then have "owner_step own (own(i := None))" using ownsD [OF own] by (blast intro: owner_step.give_volume)
  moreover have "owns s' (own(i := None))"
  proof (rule ownsI)
    fix j u
    have "j \<noteq> i \<and> (\<exists>b. pcs s u = Holding j b) \<longleftrightarrow> u \<noteq> t \<and> (\<exists>b. pcs s u = Holding j b)"
      using release(2) by (auto dest: holders_unique [OF inv release(2)])
    then show "(own(i := None)) j = Some u \<longleftrightarrow> (\<exists>b. pcs s' u = Holding j b)"
      using release(1) by (auto simp: ownsD [OF own])
  qed
  ultimately show ?thesis by blast
qed

interpretation owned: simulation "\<lambda>s. s = lock_init" lock_step sys_inv "\<lambda>own. own = Map.empty" owner_step owns
proof
  show "\<exists>own. own = Map.empty \<and> owns s own" if "s = lock_init" for s
    using that by (simp add: owns_def lock_init_def)
qed (rule lock_step_owned)

text \<open>
  C15. The volume locks implement an owner per volume. Every reachable state of any number of
  goroutines that use \<open>Lock\<close> and its closure corresponds to a reachable state of the specification, in
  which the owner of a volume is the goroutine that holds it; and every further step of a goroutine
  either leaves all owners as they are, or is one goroutine taking a volume nobody owns, or one giving
  back its own volume.
\<close>

theorem locks_refine_owners:
  assumes "lock_reachable s"
  shows "\<exists>own. owner_reachable own \<and> owns s own \<and>
    (\<forall>s'. lock_step s s' \<longrightarrow> (\<exists>own'. owner_step\<^sup>=\<^sup>= own own' \<and> owns s' own'))"
proof -
  from owned.reachable_sim [OF assms] obtain own where "owner_reachable own" "owns s own" by blast
  with owned.sim_step [OF lock_sys.reachable_inv [OF assms]] show ?thesis by blast
qed

theorem locks_refine_owners_witness:
  "\<exists>own. owner_reachable own \<and> own ''vol'' = Some 7 \<and> own ''other'' = None"
proof -
  from locks_refine_owners [OF demo_locks_reachable] obtain own where
    own: "owner_reachable own" "owns demo_locks own" by (elim exE conjE)
  have "own ''vol'' = Some 7" "own ''other'' = None"
    unfolding ownsD [OF own(2)] owns_None [OF own(2)] by (simp_all add: demo_locks_def)
  with own(1) show ?thesis by blast
qed

section \<open>One call\<close>

text \<open>The IDs that are locked: the abstract state of the table.\<close>

definition locked_ids :: "VolumeLocks \<Rightarrow> string set" where
  "locked_ids vl = {i. \<not> lock_free_at vl i}"

definition spec_lock :: "string \<Rightarrow> string set \<Rightarrow> string set option" where
  "spec_lock i held = (if i \<in> held then None else Some (insert i held))"

text \<open>
  A call of \<open>Lock\<close> is an insertion into the set of locked volume IDs: it waits exactly if the ID is in
  the set, and otherwise adds it and no other; the closure it returns, called then, takes it out again
  and leaves a table that is well-formed.
\<close>

theorem Lock_refines_set:
  assumes "locks_inv vl"
  shows "map_option (locked_ids \<circ> snd) (Lock i vl) = spec_lock i (locked_ids vl) \<and>
    (\<forall>h vl'. Lock i vl = Some (h, vl') \<longrightarrow>
       (\<exists>vl''. mtx_Unlock h vl' = Some vl'' \<and> locks_inv vl'' \<and> locked_ids vl'' = locked_ids vl' - {i}))"
proof (cases "lock_free_at vl i")
  case True
  with vlocks.lock_free [OF assms] obtain h vl' where l: "Lock i vl = Some (h, vl')" by fastforce
  from vlocks.lock_effect [OF assms l] True have ids: "locked_ids vl' = insert i (locked_ids vl)" "i \<notin> locked_ids vl"
    by (auto simp: locked_ids_def)
  from vlocks.unlock_lock [OF assms l] obtain vl'' where "mtx_Unlock h vl' = Some vl''" "locks_inv vl''"
    "locked_ids vl'' = locked_ids vl" by (auto simp: locked_ids_def)
  with l ids show ?thesis by (simp add: spec_lock_def)
next
  case False
  with vlocks.lock_held [OF assms] show ?thesis by (simp add: spec_lock_def locked_ids_def)
qed

theorem Lock_refines_set_witness:
  "map_option (locked_ids \<circ> snd) (Lock ''vol'' NewVolumeLocks) = Some {''vol''}"
  using Lock_refines_set [of NewVolumeLocks "''vol''"] by (simp add: spec_lock_def locked_ids_def)

end
