(* ===== verification/Spec2Isabelle.thy ===== *)
theory Spec2Isabelle
  imports Driver_Run Volume_Life Interference Spdk_Mem Lock_Refinement
begin

text \<open>
  A verification development for the NVMe-oF CSI driver, a Kubernetes storage plug-in written in Go.

  \<^bold>\<open>The program.\<close> A process of the driver (\<^verbatim>\<open>cmd/main.go\<close>, \<^verbatim>\<open>pkg/driver\<close>)
  serves three gRPC services on one endpoint. The identity service reports name and capabilities. The
  controller service creates volumes as namespaces of an NVMe-oF gateway, over the gateway's own gRPC
  interface (\<^verbatim>\<open>proto\<close>), and hands out a volume ID that encodes the namespace, its subsystem and
  its image; a volume context and a publish context carry the connection data to the node. The node
  service connects the device with the \<^verbatim>\<open>nvme\<close> command, waits for it to appear, mounts it at the
  staging path, and binds it to the target path of a pod. All handlers of a volume run under that
  volume's mutex (\<^verbatim>\<open>pkg/util/idlocker.go\<close>). \<^verbatim>\<open>pkg/csi-common\<close> holds the driver object,
  the default servers and the gRPC server; \<^verbatim>\<open>pkg/util\<close> the utilities, the initiator, and a JSON-RPC
  client with the operations of an SPDK target that exports logical volumes.

  \<^bold>\<open>The theories.\<close> Names of definitions are those of the Go code, with a suffix or prefix where a name
  clashes.

  \<^item> \<open>Go_Prelude\<close>: error values and their texts, Go maps as association lists, strings, decimal numbers,
    words for the fixed-width integers, runs of stateful code in the state monad; the locales \<open>codec\<close>,
    \<open>codec_seq\<close>, \<open>inductive_invariant\<close> and \<open>simulation\<close>; the collections \<open>go_defs\<close>, \<open>run_simps\<close> and
    \<open>invar_intros\<close>.
  \<^item> \<open>Go_Base64\<close>, \<open>Go_UTF8\<close>, \<open>Go_JSON_String\<close>, \<open>Go_JSON\<close>: what the driver uses of \<^verbatim>\<open>encoding/base64\<close>
    and \<^verbatim>\<open>encoding/json\<close>: both directions of the text formats, and decoding into Go variables with
    field matching, type errors and partial writes. Each pair is an interpretation of \<open>codec\<close>.
  \<^item> \<open>Volume_Locks\<close>: \<^verbatim>\<open>pkg/util/idlocker.go\<close> and \<^verbatim>\<open>TryLock\<close> of \<^verbatim>\<open>pkg/util/util.go\<close>. The table
    is a record of the \<^verbatim>\<open>sync.Map\<close>, the mutexes behind their addresses and the allocator; the
    locale \<open>lock_manager\<close> is what the handlers use of it; \<open>lock_step\<close> interleaves any number of
    goroutines at the atomic actions of \<^verbatim>\<open>Lock\<close>. \<open>Lock_Refinement\<close>: the specification with one
    owner per volume that this system implements.
  \<^item> \<open>Volume_Id\<close>: the volume ID of \<^verbatim>\<open>pkg/driver/controllerserver.go\<close>.
  \<^item> \<open>Csi_Common\<close>: \<^verbatim>\<open>pkg/csi-common\<close>: the driver object, the default servers, the endpoint parser,
    the interceptor and the server. \<open>Driver_Run\<close>: \<^verbatim>\<open>pkg/driver/driver.go\<close>,
    \<^verbatim>\<open>pkg/driver/identityserver.go\<close> and \<^verbatim>\<open>cmd/main.go\<close> up to the end of the process.
  \<^item> \<open>Gateway_Client\<close>: the messages of \<^verbatim>\<open>proto/gateway.pb.go\<close> that the driver uses, their getters on
    nil pointers, and the client of \<^verbatim>\<open>proto/gateway_grpc.pb.go\<close> over a connection. \<open>Gateway_Server\<close>: the
    server half of that file, the locales \<open>gateway_link\<close> and \<open>gateway_served\<close> of a connection to a server,
    and a gateway in memory that is such a server.
    \<open>Controller_Server\<close>: every handler of \<^verbatim>\<open>pkg/driver/controllerserver.go\<close>. \<open>Gateway_Contract\<close>: what
    the controller relies on in the gateway, as the locales \<open>gateway\<close> and \<open>gateway_guarded\<close> over a table of
    namespaces, and the handlers on that table.
  \<^item> \<open>Initiator\<close>: \<^verbatim>\<open>pkg/util/initiator.go\<close> and what it uses of \<^verbatim>\<open>path/filepath\<close>; the two polling
    loops are interpretations of one locale \<open>polling\<close>. \<open>Node_Server\<close>: every handler of
    \<^verbatim>\<open>pkg/driver/nodeserver.go\<close> with \<^verbatim>\<open>pkg/util/validate.go\<close>. \<open>Node_Contract\<close>: the contract of mounts
    and files, as the locale \<open>node_path\<close> for one path and \<open>node_host\<close> for all, and the operations at their
    path. \<open>Host_Mem\<close>: a host in memory that keeps it. \<open>Node_Properties\<close>: what
    follows for the handlers. \<open>Mount_Refinement\<close>: sequences of requests, the relation \<open>mount_step\<close> on stacks
    of mounts as their specification, and the refinement of it on hosts of the locale \<open>node_host_frame\<close>.
    \<open>Interference\<close>: a handler whose calls are interleaved with those of other handlers, by rely and guarantee:
    \<open>host_call\<close> is what one call of a handler may be, \<open>others_run\<close> any number of calls of others, \<open>disturbed\<close>
    the host with them in between, and \<open>disturbed_host\<close> shows that it keeps \<open>node_path\<close> at the handler's path.
    \<open>Volume_Life\<close>: the life of a volume over controller, gateway, node and host.
  \<^item> \<open>Util_Lib\<close>: \<^verbatim>\<open>pkg/util/util.go\<close> and \<^verbatim>\<open>pkg/util/config.go\<close>, with the locale \<open>file_store\<close>.
  \<^item> \<open>Json_Rpc\<close>: \<^verbatim>\<open>pkg/util/jsonrpc.go\<close>, from the JSON text on the wire to the decoded result.
    \<open>Nvmf_Node\<close>: \<^verbatim>\<open>pkg/util/nvmf.go\<close>. \<open>Spdk_Target\<close>: the contract of the target, whose answers may get lost, as the locales
    \<open>spdk_target\<close> and \<open>spdk_serves\<close>, and each operation of the node on its subsystems. \<open>Spdk_Mem\<close>: a
    target in memory that parses the requests, and the properties of publishing.
  \<^item> This theory: the properties that span the services.

  \<^bold>\<open>State and errors.\<close> Code that touches the outside is an action of the state monad on the type of the
  outside world; the calls it makes are fields of a record of parameters: \<open>host_env\<close> (mount library, file
  system, commands, time), \<open>http_env\<close>, \<open>net_env\<close>, the connection of the gateway client and its dialler.
  A Go error is a value of \<open>go_error\<close>, a result with an error a sum, a panic a value of its own (\<open>Panic\<close>,
  or \<open>None\<close> of the endpoint parser), a call of \<^verbatim>\<open>klog.Fatal\<close> the exit of the process. A handler under a
  lock is \<open>with_lock\<close> around its body: it may finish, wait, or crash on an unlock. What the driver needs of
  a parameter is a locale; each is interpreted on an instance in memory, on which the witnesses run.

  \<^bold>\<open>What is shown.\<close> Volume IDs decode to what was encoded, so that deleting deletes what creating made,
  and publishing leads the node to the right subsystem; on a gateway that keeps its contract creating adds
  one namespace and deleting removes that one, and neither can be repeated. From creation to deletion the
  device of the created namespace is what is mounted for the pod. Every handler gives its lock back on every path,
  and the locks exclude one another as the owner specification says. Staging mounts the device or leaves
  the mounts as they were, having disconnected what it connected unless connecting itself failed; it can be repeated, and
  unstaging takes its mount and file back, but not the connection; a repeated
  publish of a target is not idempotent; any sequence of node requests is served, refines the specification
  of mounts, never stacks mounts at a staging path and leaves other paths alone. A handler makes only calls
  on its own path and that path's directory, and keeps to the specification also when handlers on other paths make their
  calls between any two of its own. The client and the server that the gateway's interface is compiled to fit together. Exporting a volume on an SPDK target succeeds with the volume
  exported or because its subsystem listened already; a failure leaves at most that subsystem, if the answer to its creation
  was lost or its deletion failed, and a subsystem left over blocks every retry; what was exported is undone by
  unpublishing. A JSON-RPC call accepts its own answer
  only, and its identifier is not sent again by the next 2 to the 32 calls; looking a volume up panics when the target is down. Connecting and disconnecting end, and are
  decided by whether the device is there; the
  search for a device name reads every file once only. The process serves what it was
  configured to, including services that are nil; capabilities and endpoints are accepted exactly as
  described.

  \<^bold>\<open>Bounds.\<close> The polling loops recurse on the number of rounds that the source fixes: 21 looks for a device
  to appear or to go in the initiator, 20 rounds for a device name in the utilities. The JSON reader has fuel twice the length of the
  text; \<open>json_first_fuel\<close> shows that more fuel gives the same result. All other functions are structural or have
  a termination proof.

  \<^bold>\<open>Not modelled.\<close> Log output; the serialisation and reflection code that the protobuf compiler generates,
  with the getters that nobody calls; the range check of JSON numbers
  that are decoded into no variable; the order in which Go visits the entries of a map, where only the key that an error
  message names depends on it; the deployment files. The interleaving of goroutines is modelled for
  the locks and, at the calls on the host, for node handlers on different paths; two handlers on one path exclude one
  another by their lock if they are for one volume, and are not modelled together if they are not. Sequences of node
  requests are served one after the other. The target, the gateway, the kernel, the network and the flag library are parameters, with their contracts
  named.
\<close>

section \<open>From the controller to the node\<close>

text \<open>
  C12. A volume travels from the controller to the node. A volume is created with storage-class parameters that
  name the subsystem, the transport, the address and the port, and do not use the keys \<open>nqn\<close> and \<open>image\<close>;
  its ID decodes to \<open>i\<close>. Later, when the gateway still has the namespace that the ID names, no other namespace of that
  subsystem has an image of this name (in any pool: the code does not compare pools), and the gateway lists the
  subsystem, \<open>ControllerPublishVolume\<close> with the volume context succeeds, and the publish context it returns is
  one from which the node makes an initiator for exactly that transport, address and port, the subsystem of the ID, and
  the UUID of the very namespace that the creation added.
\<close>

theorem created_volume_reaches_initiator:
  assumes gw: "gateway (cs_gatewayClient cs) nss I" and inv: "I g" "I g2" "locks_inv vl"
    and run: "CreateVolume cs req (vl, g) = Done (Inr vol, vl1, g1)"
    and params: "cvr_Parameters req = Some params" "go_map_ok params" "map_of params ''nqn'' = None" "map_of params ''image'' = None"
    and utf8: "valid_utf8 (cvr_Name req)" "valid_utf8 (go_index params ''SubsystemNqn'')"
    and given: "\<forall>k \<in> {''SubsystemNqn'', ''transport'', ''traddr'', ''trsvcid''}. go_index params k \<noteq> []"
    and id: "decodeVolumeID (VolumeId vol) = Inr i"
    and kept: "nss g2 (NQN i, NSID i) = nss g1 (NQN i, NSID i)"
    and only: "\<forall>k n. nss g2 (NQN i, k) = Some n \<and> nc_RbdImageName n = cvr_Name req \<longrightarrow> k = NSID i"
    and list: "run_state (ListNamespaces (cs_gatewayClient cs)
        \<lparr>lnr_Subsystem = NQN i, lnr_Nsid = None, lnr_Uuid = None\<rparr>) g2 = (Inr (Some info), g3)" "ni_Status info = 0"
  shows "\<exists>ns pc. nss g (NQN i, NSID i) = None \<and> nss g1 = (nss g)((NQN i, NSID i) \<mapsto> ns) \<and> NQN i = go_index params ''SubsystemNqn'' \<and>
    run_state (ControllerPublishVolume cs
        \<lparr>cpr_VolumeId = VolumeId vol, cpr_NodeId = node, cpr_VolumeContext = VolumeContext vol\<rparr>) g2 = (Inr pc, g3) \<and>
    NewNvmeofCsiInitiator (Some pc) = Inr
      \<lparr>targetType = go_index params ''transport'', targetAddr = go_index params ''traddr'',
       targetPort = go_index params ''trsvcid'', ini_nqn = NQN i, ini_uuid = nc_Uuid ns\<rparr>"
proof -
  let ?nqn = "go_index params ''SubsystemNqn''"
  have nqn: "param req k = go_index params k" for k using params(1) by simp
  obtain nsid ns vol0 where vol0: "created_volume req nsid = Inr vol0" "vol = add_parameters req vol0"
    and ns: "nss g (?nqn, nsid) = None" "nss g1 = (nss g)((?nqn, nsid) \<mapsto> ns)" "nc_RbdImageName ns = cvr_Name req" "nc_Uuid ns \<noteq> []"
    by (rule gateway.CreateVolume_adds [OF gw inv(3) run refl inv(1), unfolded nqn])
  have i: "NQN i = ?nqn" "NSID i = nsid" using created_volume_id(2) [OF vol0(1)] utf8 id vol0(2) by (auto simp: nqn)
  obtain ctx where ctx: "VolumeContext vol = Some ctx" "go_index ctx ''nqn'' = ?nqn" "go_index ctx ''image'' = cvr_Name req"
    "go_index ctx ''traddr'' = go_index params ''traddr''" "go_index ctx ''trsvcid'' = go_index params ''trsvcid''"
    "go_index ctx ''transport'' = go_index params ''transport''"
    by (rule created_context_look [OF vol0 params])
  have there: "nss g2 (?nqn, nsid) = Some ns" using kept ns(2) i by simp
  have uuid: "find_uuid (cvr_Name req) (NamespacesInfo_GetNamespaces (Some info)) = nc_Uuid ns"
    by (rule gateway.listed_created [OF gw inv(2) list(1) [unfolded i] list(2) there ns(3) only [unfolded i]])
  let ?pc = "[(''uuid'', nc_Uuid ns), (''nqn'', ?nqn), (''traddr'', go_index params ''traddr''),
    (''trsvcid'', go_index params ''trsvcid''), (''transport'', go_index params ''transport'')]"
  have "run_state (ControllerPublishVolume cs
      \<lparr>cpr_VolumeId = VolumeId vol, cpr_NodeId = node, cpr_VolumeContext = VolumeContext vol\<rparr>) g2 = (Inr ?pc, g3)"
    using list(1) ns(4) unfolding i by (simp add: ControllerPublishVolume_def ctx uuid Let_def)
  moreover have "NewNvmeofCsiInitiator (Some ?pc) = Inr
      \<lparr>targetType = go_index params ''transport'', targetAddr = go_index params ''traddr'',
       targetPort = go_index params ''trsvcid'', ini_nqn = NQN i, ini_uuid = nc_Uuid ns\<rparr>"
    using given ns(4) unfolding i by (simp add: NewNvmeofCsiInitiator_def)
  ultimately show ?thesis using ns(1,2) unfolding i by blast
qed

theorem created_volume_reaches_initiator_witness:
  "\<exists>vol vl1 g1 pc.
     CreateVolume demo_controller demo_request (NewVolumeLocks, demo_gateway) = Done (Inr (vol :: unit Volume), vl1, g1) \<and>
     run_state (ControllerPublishVolume demo_controller
        \<lparr>cpr_VolumeId = VolumeId vol, cpr_NodeId = ''node-1'', cpr_VolumeContext = VolumeContext vol\<rparr>) g1 = (Inr pc, g1) \<and>
     (\<exists>ns. mem_nss g1 (''nqn.1'', 7) = Some ns \<and> NewNvmeofCsiInitiator (Some pc) = Inr
        \<lparr>targetType = ''TCP'', targetAddr = ''10.0.0.1'', targetPort = ''4420'', ini_nqn = ''nqn.1'', ini_uuid = nc_Uuid ns\<rparr>)"
proof -
  let ?g1 = "snd (mem_add (namespace_add_req demo_request) demo_gateway)" and ?i = "\<lparr>NSID = 7, NQN = ''nqn.1'', VolumeName = ''pvc-1''\<rparr>"
  let ?l = "\<lparr>lnr_Subsystem = NQN ?i, lnr_Nsid = None, lnr_Uuid = None\<rparr>"
  obtain vol :: "unit Volume" and vl1 where
    c: "CreateVolume demo_controller demo_request (NewVolumeLocks, demo_gateway) = Done (Inr vol, vl1, ?g1)"
    and id: "decodeVolumeID (VolumeId vol) = Inr ?i" by (rule demo_life)
  have gw: "gateway (cs_gatewayClient demo_controller) mem_nss mem_inv" using mem_gw.gateway_axioms by simp
  have inv: "mem_inv demo_gateway" "mem_inv ?g1" by (simp_all add: mem_inv_def mem_add_def demo_gateway_def)
  have params: "cvr_Parameters demo_request = Some demo_params" "go_map_ok demo_params" "map_of demo_params ''nqn'' = None"
    "map_of demo_params ''image'' = None" "valid_utf8 (cvr_Name demo_request)" "valid_utf8 (go_index demo_params ''SubsystemNqn'')"
    "\<forall>k \<in> {''SubsystemNqn'', ''transport'', ''traddr'', ''trsvcid''}. go_index demo_params k \<noteq> []"
    by (simp_all add: valid_utf8_ascii) (simp_all add: demo_params_def)
  have look: "go_index demo_params ''transport'' = ''TCP''" "go_index demo_params ''traddr'' = ''10.0.0.1''"
    "go_index demo_params ''trsvcid'' = ''4420''" by (simp_all add: demo_params_def)
  have only: "\<forall>k n. mem_nss ?g1 (NQN ?i, k) = Some n \<and> nc_RbdImageName n = cvr_Name demo_request \<longrightarrow> k = NSID ?i"
    using mem_nss_iff [OF inv(2)] by (auto simp: mem_key_def mem_add_def demo_gateway_def mem_namespace_def)
  have list: "run_state (ListNamespaces (cs_gatewayClient demo_controller) ?l) ?g1 = (Inr (Some (mem_list ?l ?g1)), ?g1)"
    "ni_Status (mem_list ?l ?g1) = 0" by (simp add: run_mem_client) (simp add: mem_list_def)
  from created_volume_reaches_initiator [OF gw inv NewVolumeLocks_inv c params id refl only list, of "''node-1''"] c look
  show ?thesis by auto
qed

section \<open>All handlers\<close>

text \<open>
  C13. No handler keeps a lock or crashes on one: from every state of the lock table that the driver can
  be in, for every request, every host and every gateway, each of the six handlers that take a volume
  lock either returns with all locks as it found them, on the error paths too, or waits, and it waits
  only while some volume is locked.
\<close>

theorem handlers_release_locks:
  assumes "locks_inv vl"
  shows "returns_unlocked vl (CreateVolume cs creq (vl, w)) \<and>
    returns_unlocked vl (DeleteVolume cs dreq (vl, w)) \<and>
    returns_unlocked vl (NodeStageVolume env sreq (vl, h)) \<and>
    returns_unlocked vl (NodeUnstageVolume env ureq (vl, h)) \<and>
    returns_unlocked vl (NodePublishVolume env preq (vl, h)) \<and>
    returns_unlocked vl (NodeUnpublishVolume env qreq (vl, h))"
  using assms
  by (auto simp: CreateVolume_def DeleteVolume_def NodeStageVolume_def NodeUnstageVolume_def NodePublishVolume_def
      NodeUnpublishVolume_def Let_def split: sum.split option.split prod.split intro: invar_intros)

theorem handlers_release_locks_witness:
  "returns_unlocked NewVolumeLocks (CreateVolume demo_controller demo_request (NewVolumeLocks, demo_gateway)) \<and>
   returns_unlocked NewVolumeLocks (NodeStageVolume mem_host demo_stage (NewVolumeLocks, demo_host))"
  using handlers_release_locks [of NewVolumeLocks demo_controller demo_request demo_gateway
      "\<lparr>dvr_VolumeId = []\<rparr>" mem_host demo_stage demo_host demo_unstage demo_publish demo_unpublish] by simp

end
